(* ===== verification/Prelude.thy ===== *)
theory Prelude
  imports Main "HOL-Library.Word"
begin

text \<open>
  Shared vocabulary of the development: the integer widths of the Rust code, the decimal
  printer and parser of the standard library, the tables-as-lists helpers behind the SQL
  statements, and the collections of facts the component theories hand to the simplifier.

  Rust's \<open>i64\<close> and \<open>i32\<close> are \<open>int\<close> with the two's complement wrap-around written
  out (\<open>wrap64\<close>, what a release build does); unsigned counters whose width matters are words.
  A Rust \<open>String\<close> or byte slice is a HOL \<open>string\<close>: one \<open>char\<close> per byte.
\<close>

named_theorems wp \<open>weakest-precondition equations of the monadic operations\<close>
named_theorems table_simps \<open>facts about tables kept as lists\<close>
named_theorems fee_simps \<open>facts about the floating-point fee\<close>

section \<open>Integers\<close>

type_synonym i64 = int
type_synonym i32 = int
type_synonym u8 = "8 word"
type_synonym u16 = "16 word"
type_synonym u32 = "32 word"
type_synonym uuid = "128 word"

text \<open>An instant (\<open>DateTime<Utc>\<close>) is a number of nanoseconds since the epoch.\<close>

type_synonym time = int

abbreviation nanos :: int where
  "nanos \<equiv> 1000000000"

definition time_secs :: "int \<Rightarrow> time" where
  "time_secs n = n * nanos"

definition timestamp :: "time \<Rightarrow> i64" where
  "timestamp t = t div nanos"

definition i64_range :: "int \<Rightarrow> bool" where
  "i64_range n \<longleftrightarrow> - 9223372036854775808 \<le> n \<and> n < 9223372036854775808"

definition wrap64 :: "int \<Rightarrow> i64" where
  "wrap64 n = (n + 9223372036854775808) mod 18446744073709551616 - 9223372036854775808"

lemma wrap64_id [simp]: "i64_range n \<Longrightarrow> wrap64 n = n"
  by (simp add: i64_range_def wrap64_def)

lemma wrap64_range [simp]: "i64_range (wrap64 n)"
proof -
  have "0 \<le> (n + 9223372036854775808) mod 18446744073709551616"
    and "(n + 9223372036854775808) mod 18446744073709551616 < (18446744073709551616::int)"
    by (rule pos_mod_sign pos_mod_bound; simp)+
  then show ?thesis by (simp add: i64_range_def wrap64_def)
qed

lemma wrap64_small: "\<lbrakk>- 9223372036854775808 \<le> n; n < 9223372036854775808\<rbrakk> \<Longrightarrow> wrap64 n = n"
  by (simp add: i64_range_def)

definition wrap32 :: "int \<Rightarrow> i32" where
  "wrap32 n = (n + 2147483648) mod 4294967296 - 2147483648"

lemma wrap32_small: "\<lbrakk>- 2147483648 \<le> n; n < 2147483648\<rbrakk> \<Longrightarrow> wrap32 n = n"
  by (simp add: wrap32_def)

section \<open>Decimal numerals\<close>

definition digit_char :: "int \<Rightarrow> char" where
  "digit_char d = char_of (48 + nat d)"

function show_pos :: "int \<Rightarrow> string" where
  "show_pos n = (if n < 10 then [digit_char n] else show_pos (n div 10) @ [digit_char (n mod 10)])"
  by pat_completeness auto
termination
  by (relation "measure nat") auto

declare show_pos.simps [simp del]

definition show_int :: "int \<Rightarrow> string" where
  "show_int n = (if n < 0 then CHR ''-'' # show_pos (- n) else show_pos n)"

definition is_digit :: "char \<Rightarrow> bool" where
  "is_digit c \<longleftrightarrow> 48 \<le> (of_char c :: nat) \<and> (of_char c :: nat) \<le> 57"

definition digit_val :: "char \<Rightarrow> int" where
  "digit_val c = int (of_char c - 48)"

definition parse_digits :: "string \<Rightarrow> int option" where
  "parse_digits s = (if s \<noteq> [] \<and> list_all is_digit s
     then Some (foldl (\<lambda>a c. a * 10 + digit_val c) 0 s) else None)"

text \<open>Rust's \<open>str::parse::<i64>()\<close>: an optional sign, at least one digit, no overflow.\<close>

definition parse_i64 :: "string \<Rightarrow> i64 option" where
  "parse_i64 s = (case s of
       [] \<Rightarrow> None
     | c # cs \<Rightarrow>
         (let v = (if c = CHR ''-'' then map_option uminus (parse_digits cs)
                   else if c = CHR ''+'' then parse_digits cs
                   else parse_digits s)
          in case v of None \<Rightarrow> None | Some n \<Rightarrow> if i64_range n then Some n else None))"

lemma of_char_digit [simp]: "\<lbrakk>0 \<le> d; d < 10\<rbrakk> \<Longrightarrow> (of_char (digit_char d) :: nat) = 48 + nat d"
  by (simp add: digit_char_def nat_less_iff)

lemma is_digit_digit_char [simp]: "\<lbrakk>0 \<le> d; d < 10\<rbrakk> \<Longrightarrow> is_digit (digit_char d)"
  by (simp add: is_digit_def nat_le_iff)

lemma digit_val_digit_char [simp]: "\<lbrakk>0 \<le> d; d < 10\<rbrakk> \<Longrightarrow> digit_val (digit_char d) = d"
  by (simp add: digit_val_def)

lemma show_pos_nonempty [simp]: "show_pos n \<noteq> []"
  by (subst show_pos.simps) simp

lemma show_pos_digits: "0 \<le> n \<Longrightarrow> list_all is_digit (show_pos n)"
proof (induction n rule: show_pos.induct)
  case (1 n)
  then show ?case by (subst show_pos.simps) (simp add: pos_imp_zdiv_nonneg_iff)
qed

lemma show_pos_value: "0 \<le> n \<Longrightarrow> foldl (\<lambda>a c. a * 10 + digit_val c) 0 (show_pos n) = n"
proof (induction n rule: show_pos.induct)
  case (1 n)
  then show ?case
    by (cases "n < 10") (simp_all add: show_pos.simps [of n] pos_imp_zdiv_nonneg_iff)
qed

lemma parse_digits_show_pos [simp]: "0 \<le> n \<Longrightarrow> parse_digits (show_pos n) = Some n"
  by (simp add: parse_digits_def show_pos_digits show_pos_value)

lemma is_digit_not_sign: "is_digit c \<Longrightarrow> c \<noteq> CHR ''-'' \<and> c \<noteq> CHR ''+'' \<and> c \<noteq> CHR '',''"
  by (auto simp: is_digit_def)

lemma show_pos_not_in: "\<lbrakk>0 \<le> n; \<not> is_digit c\<rbrakk> \<Longrightarrow> c \<notin> set (show_pos n)"
  using show_pos_digits [of n] by (auto simp: list_all_iff)

lemma show_int_not_comma: "CHR '','' \<notin> set (show_int n)"
  using show_pos_not_in [of "\<bar>n\<bar>" "CHR '',''"]
  by (cases "n < 0") (simp_all add: show_int_def is_digit_def)

lemma parse_i64_show_int [simp]:
  assumes "i64_range n"
  shows "parse_i64 (show_int n) = Some n"
proof (cases "n < 0")
  case True
  then show ?thesis using assms by (simp add: parse_i64_def show_int_def)
next
  case False
  obtain c cs where c: "show_pos n = c # cs"
    by (cases "show_pos n") simp_all
  then have "is_digit c" using show_pos_digits [of n] False by simp
  then show ?thesis
    using assms False c parse_digits_show_pos [of n] is_digit_not_sign [of c]
    by (simp add: parse_i64_def show_int_def)
qed

section \<open>Strings\<close>

text \<open>The em dash of some messages, in UTF-8.\<close>

definition em_dash :: string where
  "em_dash = [CHR 0xE2, CHR 0x80, CHR 0x94]"

text \<open>The number of characters of a UTF-8 text: its bytes less the continuation bytes.\<close>

definition str_len :: "string \<Rightarrow> nat" where
  "str_len s = length (filter (\<lambda>c. \<not> (128 \<le> (of_char c :: nat) \<and> (of_char c :: nat) < 192)) s)"

definition is_char_boundary :: "string \<Rightarrow> nat \<Rightarrow> bool" where
  "is_char_boundary s i \<longleftrightarrow> i = 0 \<or> i = length s \<or>
     (i < length s \<and> \<not> (128 \<le> (of_char (s ! i) :: nat) \<and> (of_char (s ! i) :: nat) < 192))"

text \<open>\<open>&s[..i]\<close> and \<open>&s[i..]\<close> panic when \<open>i\<close> is not between two characters.\<close>

definition slice_to :: "string \<Rightarrow> nat \<Rightarrow> string option" where
  "slice_to s i = (if is_char_boundary s i then Some (take i s) else None)"

definition slice_from :: "string \<Rightarrow> nat \<Rightarrow> string option" where
  "slice_from s i = (if is_char_boundary s i then Some (drop i s) else None)"

fun starts_with :: "string \<Rightarrow> string \<Rightarrow> bool" where
  "starts_with s [] = True"
| "starts_with [] (p # ps) = False"
| "starts_with (c # cs) (p # ps) = (c = p \<and> starts_with cs ps)"

definition strip_prefix :: "string \<Rightarrow> string \<Rightarrow> string option" where
  "strip_prefix p s = (if starts_with s p then Some (drop (length p) s) else None)"

lemma starts_with_append [simp]: "starts_with (p @ s) p"
  by (induction p) simp_all

lemma starts_with_iff: "starts_with s p \<longleftrightarrow> (\<exists>r. s = p @ r)"
  by (induction s p rule: starts_with.induct) auto

lemma strip_prefix_append [simp]: "strip_prefix p (p @ s) = Some s"
  by (simp add: strip_prefix_def)

text \<open>\<open>str::split(c)\<close>: the pieces between separators, at least one.\<close>

fun split_on :: "char \<Rightarrow> string \<Rightarrow> string list" where
  "split_on c [] = [[]]"
| "split_on c (x # xs) =
     (if x = c then [] # split_on c xs
      else (case split_on c xs of [] \<Rightarrow> [[x]] | p # ps \<Rightarrow> (x # p) # ps))"

lemma split_on_absent: "c \<notin> set s \<Longrightarrow> split_on c s = [s]"
  by (induction s) auto

lemma split_on_append: "c \<notin> set s \<Longrightarrow> split_on c (s @ c # t) = s # split_on c t"
  by (induction s) auto

section \<open>Tables as lists\<close>

text \<open>
  A table is the list of its rows in insertion order. \<open>upd_where\<close> is SQL's
  \<open>UPDATE \<dots> WHERE\<close>; a row that does not satisfy the condition is untouched.
\<close>

definition upd_where :: "('r \<Rightarrow> bool) \<Rightarrow> ('r \<Rightarrow> 'r) \<Rightarrow> 'r list \<Rightarrow> 'r list" where
  "upd_where P f rs = map (\<lambda>r. if P r then f r else r) rs"

lemma upd_where_nil [table_simps, simp]: "upd_where P f [] = []"
  by (simp add: upd_where_def)

lemma upd_where_cons [table_simps]:
  "upd_where P f (r # rs) = (if P r then f r else r) # upd_where P f rs"
  by (simp add: upd_where_def)

lemma length_upd_where [table_simps, simp]: "length (upd_where P f rs) = length rs"
  by (simp add: upd_where_def)

lemma map_upd_where_id [table_simps]:
  "(\<And>r. P r \<Longrightarrow> g (f r) = g r) \<Longrightarrow> map g (upd_where P f rs) = map g rs"
  by (auto simp: upd_where_def)

lemma in_upd_where:
  "r \<in> set (upd_where P f rs) \<longleftrightarrow> (\<exists>q \<in> set rs. r = (if P q then f q else q))"
  by (auto simp: upd_where_def)

lemma ball_upd_where:
  assumes "\<forall>r \<in> set rs. I r" and "\<And>r. r \<in> set rs \<Longrightarrow> I r \<Longrightarrow> P r \<Longrightarrow> I (f r)"
  shows "\<forall>r \<in> set (upd_where P f rs). I r"
  using assms by (auto simp: upd_where_def)

lemma upd_where_none [table_simps]: "(\<And>r. r \<in> set rs \<Longrightarrow> \<not> P r) \<Longrightarrow> upd_where P f rs = rs"
  by (simp add: upd_where_def map_idI)

lemma upd_where_cong:
  "(\<And>r. r \<in> set rs \<Longrightarrow> P r \<Longrightarrow> f r = g r) \<Longrightarrow> upd_where P f rs = upd_where P g rs"
  by (simp add: upd_where_def)

lemma find_upd_where_key:
  assumes "\<And>r. key (f r) = key r"
  shows "find (\<lambda>r. key r = k) (upd_where P f rs) =
    map_option (\<lambda>r. if P r then f r else r) (find (\<lambda>r. key r = k) rs)"
  using assms by (induction rs) (auto simp: upd_where_cons)

lemma find_set: "find P xs = Some x \<Longrightarrow> x \<in> set xs \<and> P x"
  by (auto simp: find_Some_iff)

lemma find_distinct_key:
  assumes "distinct (map key rs)" and "r \<in> set rs"
  shows "find (\<lambda>q. key q = key r) rs = Some r"
  using assms
proof (induction rs)
  case Nil
  then show ?case by simp
next
  case (Cons q rs)
  show ?case
  proof (cases "q = r")
    case True
    then show ?thesis by simp
  next
    case False
    with Cons.prems have "r \<in> set rs" and "key q \<noteq> key r" by auto
    then show ?thesis using Cons by simp
  qed
qed

lemma find_Some_in: "x \<in> set xs \<Longrightarrow> P x \<Longrightarrow> \<exists>y. find P xs = Some y"
  by (cases "find P xs") (auto simp: find_None_iff)

lemma key_row: "\<lbrakk>distinct (map key rs); r \<in> set rs; q \<in> set rs; key q = key r\<rbrakk> \<Longrightarrow> q = r"
  by (metis find_distinct_key option.inject)

lemma find_unique:
  assumes "x \<in> set xs" and "P x" and "\<And>y. \<lbrakk>y \<in> set xs; P y\<rbrakk> \<Longrightarrow> y = x"
  shows "find P xs = Some x"
proof (cases "find P xs")
  case None
  then show ?thesis using assms(1,2) by (simp add: find_None_iff)
next
  case (Some y)
  then show ?thesis using assms(3) find_set [OF Some] by simp
qed

lemma find_append_new: "find P xs = None \<Longrightarrow> find P (xs @ ys) = find P ys"
  by (induction xs) (simp_all split: if_splits)

lemma find_upd_where: "(\<And>r. Q (f r) = Q r) \<Longrightarrow>
    find Q (upd_where P f rs) = map_option (\<lambda>r. if P r then f r else r) (find Q rs)"
  by (induction rs) (auto simp: upd_where_cons)

lemma sum_list_upd_where_id:
  "(\<And>r. P r \<Longrightarrow> g (f r) = g r) \<Longrightarrow> sum_list (map g (upd_where P f rs)) = sum_list (map g rs)"
  by (simp add: map_upd_where_id)

end
