(* ===== verification/Externals.thy ===== *)
theory Externals
  imports Prelude
begin

text \<open>
  What the services exchange with code that is not in the repository: JSON values as
  \<open>serde_json\<close> gives them, HTTP requests and their outcomes, and the record \<open>lib\<close> of the
  third-party functions (digests, encodings, ciphers, printers) the code calls. Nothing is
  assumed of a \<open>lib\<close> here; a theorem that relies on documented behaviour of one of its
  functions says so in a hypothesis.
\<close>

section \<open>JSON\<close>

datatype json = JNull | JBool bool | JNum int | JStr string
  | JArr "json list" | JObj "(string \<times> json) list"

text \<open>\<open>v[key]\<close>: null for a missing key or a value that is not an object.\<close>

fun jget :: "json \<Rightarrow> string \<Rightarrow> json" where
  "jget (JObj kvs) k = (case map_of kvs k of Some v \<Rightarrow> v | None \<Rightarrow> JNull)"
| "jget _ k = JNull"

fun as_str :: "json \<Rightarrow> string option" where
  "as_str (JStr s) = Some s"
| "as_str _ = None"

fun as_bool :: "json \<Rightarrow> bool option" where
  "as_bool (JBool b) = Some b"
| "as_bool _ = None"

fun as_i64 :: "json \<Rightarrow> i64 option" where
  "as_i64 (JNum n) = (if i64_range n then Some n else None)"
| "as_i64 _ = None"

fun as_array :: "json \<Rightarrow> json list option" where
  "as_array (JArr xs) = Some xs"
| "as_array _ = None"

definition jopt :: "('a \<Rightarrow> json) \<Rightarrow> 'a option \<Rightarrow> json" where
  "jopt f v = (case v of None \<Rightarrow> JNull | Some x \<Rightarrow> f x)"

definition unwrap_or :: "'a option \<Rightarrow> 'a \<Rightarrow> 'a" where
  "unwrap_or v d = (case v of None \<Rightarrow> d | Some x \<Rightarrow> x)"

lemma unwrap_or_simps [simp]: "unwrap_or None d = d" "unwrap_or (Some x) d = x"
  by (simp_all add: unwrap_or_def)

lemma jopt_simps [simp]: "jopt f None = JNull" "jopt f (Some x) = f x"
  by (simp_all add: jopt_def)

section \<open>HTTP\<close>

record http_request =
  hr_method :: string
  hr_url :: string
  hr_headers :: "(string \<times> string) list"
  hr_body :: json

text \<open>
  A request either never gets an answer (\<open>SendError\<close> with the client's message) or gets a
  status code and a body, which is JSON or is not.
\<close>

datatype http_outcome = SendError string | Response nat "json option"

definition is_success :: "nat \<Rightarrow> bool" where
  "is_success status \<longleftrightarrow> 200 \<le> status \<and> status < 300"

section \<open>Third-party functions\<close>

text \<open>What can go wrong with an SQL statement; \<open>db_error\<close> prints it.\<close>

datatype sql_failure = ConnectionLost | ConstraintViolated | RowNotFound | OutOfRange | NoSuchColumn

record lib =
  uuid_show :: "uuid \<Rightarrow> string"
  time_show :: "time \<Rightarrow> string"
  uuid_parse :: "string \<Rightarrow> uuid option"
  sha256_digest :: "string \<Rightarrow> string"
  hmac_digest :: "string \<Rightarrow> string \<Rightarrow> string"
  hex_encode :: "string \<Rightarrow> string"
  hex_decode :: "string \<Rightarrow> string option"
  b64_encode :: "string \<Rightarrow> string"
  b64_decode :: "string \<Rightarrow> string option"
  aes_encrypt :: "string \<Rightarrow> string \<Rightarrow> string \<Rightarrow> string option"
  aes_decrypt :: "string \<Rightarrow> string \<Rightarrow> string \<Rightarrow> string option"
  json_print :: "json \<Rightarrow> string"
  json_parse :: "string \<Rightarrow> json option"
  hex_error :: "string \<Rightarrow> string"
  b64_error :: "string \<Rightarrow> string"
  aes_error :: "string"
  utf8_lossy :: "string \<Rightarrow> string"
  body_text :: "json option \<Rightarrow> string"
  json_error :: "string"
  db_error :: "sql_failure \<Rightarrow> string"
  show_invalid :: "string list \<Rightarrow> string"

text \<open>
  A concrete instance for evaluating definitions: real hexadecimal, decimal UUIDs, the other
  functions as simple as their types allow.
\<close>

definition hex_digit :: "nat \<Rightarrow> char" where
  "hex_digit n = (if n < 10 then char_of (48 + n) else char_of (87 + n))"

definition hex_byte :: "char \<Rightarrow> string" where
  "hex_byte c = [hex_digit (of_char c div 16), hex_digit (of_char c mod 16)]"

definition sample_lib :: lib where
  "sample_lib = \<lparr>uuid_show = (\<lambda>u. show_int (uint u)),
     time_show = show_int, uuid_parse = (\<lambda>s. map_option word_of_int (parse_digits s)),
     sha256_digest = (\<lambda>s. take 4 (rev s)), hmac_digest = (\<lambda>k d. take 4 (rev (k @ d))),
     hex_encode = (\<lambda>s. concat (map hex_byte s)), hex_decode = (\<lambda>s. Some s),
     b64_encode = (\<lambda>s. s), b64_decode = (\<lambda>s. Some s),
     aes_encrypt = (\<lambda>k n p. Some (rev p)), aes_decrypt = (\<lambda>k n c. Some (rev c)),
     json_print = (\<lambda>j. ''{}''), json_parse = (\<lambda>s. None), 
     hex_error = (\<lambda>s. ''odd length''), b64_error = (\<lambda>s. ''invalid byte''),
     aes_error = ''aead error'', utf8_lossy = (\<lambda>s. s), body_text = (\<lambda>b. ''not available''),
     json_error = ''expected value'',
     db_error = (\<lambda>f. case f of ConnectionLost \<Rightarrow> ''connection lost''
       | ConstraintViolated \<Rightarrow> ''constraint violated'' | RowNotFound \<Rightarrow> ''no rows returned''
       | OutOfRange \<Rightarrow> ''bigint out of range'' | NoSuchColumn \<Rightarrow> ''column does not exist''),
     show_invalid = concat\<rparr>"

lemma sample_uuid_roundtrip: "uuid_parse sample_lib (uuid_show sample_lib u) = Some u"
  by (simp add: sample_lib_def show_int_def not_less)

lemma hex_digit_plain: "n < 16 \<Longrightarrow> hex_digit n \<noteq> CHR '',''"
proof
  assume "n < 16" and "hex_digit n = CHR '',''"
  then have "of_char (hex_digit n) = (44 :: nat)"
    by simp
  moreover have "n \<in> {0, 1, 2, 3, 4, 5, 6, 7, 8, 9, 10, 11, 12, 13, 14, 15}"
    using \<open>n < 16\<close> unfolding insert_iff empty_iff by presburger
  ultimately show False
    by (auto simp: hex_digit_def)
qed

lemma hex_byte_plain: "CHR '','' \<notin> set (hex_byte c)"
proof -
  have "of_char c div 16 < (16 :: nat)"
    using of_char_of [of "of_char c :: nat"] by (simp add: less_mult_imp_div_less)
  then show ?thesis
    using hex_digit_plain [of "of_char c div 16"] hex_digit_plain [of "of_char c mod 16"]
    by (auto simp: hex_byte_def)
qed

lemma sample_hex_no_comma: "CHR '','' \<notin> set (hex_encode sample_lib s)"
  by (simp add: sample_lib_def hex_byte_plain)

end
