(* ===== verification/Errors.thy ===== *)
theory Errors
  imports Externals
begin

text \<open>
  \<open>crates/common/src/errors.rs\<close>: the error type of every service, its HTTP status code, its
  machine-readable code and its message. The payload of \<open>Database\<close> and \<open>Serialization\<close>
  is the message of the library's error.
\<close>

datatype app_error =
    Unauthorized
  | Forbidden string
  | Validation string
  | InvalidIdempotencyKey string
  | NotFound string
  | IdempotentReplay
  | InvalidStateTransition string string
  | AmountExceedsLimit i64 i64
  | CurrencyMismatch string string
  | UnsupportedPaymentMethod string
  | MerchantNotActive
  | AcquirerDeclined string string
  | AcquirerUnavailable string
  | AllAcquirersFailed
  | AuthenticationRequired string
  | FraudBlocked string
  | RateLimitExceeded nat
  | Database string
  | Cache string
  | Messaging string
  | Serialization string
  | Config string
  | Internal string

fun status_code :: "app_error \<Rightarrow> nat" where
  "status_code Unauthorized = 401"
| "status_code (Forbidden _) = 403"
| "status_code (Validation _) = 422"
| "status_code (InvalidIdempotencyKey _) = 422"
| "status_code (NotFound _) = 404"
| "status_code IdempotentReplay = 200"
| "status_code (RateLimitExceeded _) = 429"
| "status_code (AcquirerDeclined _ _) = 402"
| "status_code (FraudBlocked _) = 403"
| "status_code (InvalidStateTransition _ _) = 400"
| "status_code (AmountExceedsLimit _ _) = 400"
| "status_code (CurrencyMismatch _ _) = 400"
| "status_code (UnsupportedPaymentMethod _) = 400"
| "status_code MerchantNotActive = 400"
| "status_code (AcquirerUnavailable _) = 503"
| "status_code AllAcquirersFailed = 503"
| "status_code (AuthenticationRequired _) = 402"
| "status_code _ = 500"

fun error_code :: "app_error \<Rightarrow> string" where
  "error_code Unauthorized = ''authentication_error''"
| "error_code (Forbidden _) = ''authorization_error''"
| "error_code (Validation _) = ''validation_error''"
| "error_code (InvalidIdempotencyKey _) = ''invalid_idempotency_key''"
| "error_code (NotFound _) = ''not_found''"
| "error_code IdempotentReplay = ''idempotent_replay''"
| "error_code (InvalidStateTransition _ _) = ''invalid_state_transition''"
| "error_code (AmountExceedsLimit _ _) = ''amount_exceeds_limit''"
| "error_code (CurrencyMismatch _ _) = ''currency_mismatch''"
| "error_code (UnsupportedPaymentMethod _) = ''unsupported_payment_method''"
| "error_code MerchantNotActive = ''merchant_not_active''"
| "error_code (AcquirerDeclined _ _) = ''card_declined''"
| "error_code (AcquirerUnavailable _) = ''acquirer_unavailable''"
| "error_code AllAcquirersFailed = ''processing_error''"
| "error_code (AuthenticationRequired _) = ''authentication_required''"
| "error_code (FraudBlocked _) = ''fraud_blocked''"
| "error_code (RateLimitExceeded _) = ''rate_limit_exceeded''"
| "error_code (Database _) = ''database_error''"
| "error_code (Cache _) = ''cache_error''"
| "error_code (Messaging _) = ''messaging_error''"
| "error_code (Serialization _) = ''serialization_error''"
| "error_code (Config _) = ''configuration_error''"
| "error_code (Internal _) = ''internal_server_error''"

fun error_to_string :: "app_error \<Rightarrow> string" where
  "error_to_string Unauthorized = ''Missing or invalid API key''"
| "error_to_string (Forbidden s) = ''Insufficient permissions: '' @ s"
| "error_to_string (Validation s) = ''Validation error: '' @ s"
| "error_to_string (InvalidIdempotencyKey s) = ''Invalid idempotency key: '' @ s"
| "error_to_string (NotFound s) = ''Resource not found: '' @ s"
| "error_to_string IdempotentReplay =
     ''Duplicate request '' @ em_dash @ '' idempotent response returned''"
| "error_to_string (InvalidStateTransition a b) =
     ''Invalid payment state transition from '' @ a @ '' to '' @ b"
| "error_to_string (AmountExceedsLimit n m) =
     ''Payment amount '' @ show_int n @ '' exceeds maximum allowed '' @ show_int m"
| "error_to_string (CurrencyMismatch a b) =
     ''Currency mismatch: expected '' @ a @ '', got '' @ b"
| "error_to_string (UnsupportedPaymentMethod s) = ''Payment method not supported: '' @ s"
| "error_to_string MerchantNotActive = ''Merchant is not active or KYC not approved''"
| "error_to_string (AcquirerDeclined c m) =
     ''Acquirer declined the payment: '' @ c @ '' '' @ em_dash @ '' '' @ m"
| "error_to_string (AcquirerUnavailable s) = ''Acquirer unavailable: '' @ s"
| "error_to_string AllAcquirersFailed = ''All acquirers failed for this payment''"
| "error_to_string (AuthenticationRequired _) = ''3DS authentication required''"
| "error_to_string (FraudBlocked s) = ''Payment blocked by fraud engine: '' @ s"
| "error_to_string (RateLimitExceeded n) =
     ''Rate limit exceeded. Retry after '' @ show_int (int n) @ ''ms''"
| "error_to_string (Database s) = ''Database error: '' @ s"
| "error_to_string (Cache s) = ''Cache error: '' @ s"
| "error_to_string (Messaging s) = ''Kafka error: '' @ s"
| "error_to_string (Serialization s) = ''Serialization error: '' @ s"
| "error_to_string (Config s) = ''Configuration error: '' @ s"
| "error_to_string (Internal s) = ''Internal server error: '' @ s"

text \<open>\<open>IntoResponse for AppError\<close>: the status and the JSON body of an error answer.\<close>

definition into_response :: "app_error \<Rightarrow> nat \<times> json" where
  "into_response e =
     (status_code e,
      JObj [(''success'', JBool False),
            (''error'', JObj [(''code'', JStr (error_code e)),
                             (''message'', JStr (error_to_string e))])])"

text \<open>Every error but the idempotent replay is answered outside the 2xx range.\<close>

lemma status_code_success_iff: "is_success (status_code e) \<longleftrightarrow> e = IdempotentReplay"
  by (cases e) (simp_all add: is_success_def)

lemma status_code_server_error_iff:
  "500 \<le> status_code e \<longleftrightarrow>
     error_code e \<in> {''acquirer_unavailable'', ''processing_error'', ''database_error'',
       ''cache_error'', ''messaging_error'', ''serialization_error'', ''configuration_error'',
       ''internal_server_error''}"
  by (cases e) simp_all

text \<open>The error codes tell the constructors apart.\<close>

lemma error_code_unauthorized_iff [simp]:
  "error_code e = ''authentication_error'' \<longleftrightarrow> e = Unauthorized"
  by (cases e) simp_all

end
