(* ===== verification/Models.thy ===== *)
theory Models
  imports Errors
begin

text \<open>
  \<open>crates/common/src/models.rs\<close>: the enumerations, the rows and structures the services
  share, and the request types with their validation rules. Field names carry a prefix per
  structure because record fields are constants; the constructors of the second enumeration
  that reuses a name carry the enumeration's name.
\<close>

section \<open>Enumerations\<close>

datatype currency = INR | USD | EUR | GBP | AED | SGD

fun currency_str :: "currency \<Rightarrow> string" where
  "currency_str INR = ''INR''"
| "currency_str USD = ''USD''"
| "currency_str EUR = ''EUR''"
| "currency_str GBP = ''GBP''"
| "currency_str AED = ''AED''"
| "currency_str SGD = ''SGD''"

fun decimal_places :: "currency \<Rightarrow> u8" where
  "decimal_places INR = 2"
| "decimal_places USD = 2"
| "decimal_places EUR = 2"
| "decimal_places GBP = 2"
| "decimal_places AED = 2"
| "decimal_places SGD = 2"

fun smallest_unit :: "currency \<Rightarrow> string" where
  "smallest_unit INR = ''paise''"
| "smallest_unit USD = ''cents''"
| "smallest_unit EUR = ''cents''"
| "smallest_unit GBP = ''pence''"
| "smallest_unit AED = ''fils''"
| "smallest_unit SGD = ''cents''"

datatype payment_status = Created | Pending | Authorized | Captured | Settled
  | Failed | Refunded | Disputed | Cancelled | RequiresAction

text \<open>The \<open>Debug\<close> form and the snake-case form of SQL and JSON.\<close>

fun payment_status_debug :: "payment_status \<Rightarrow> string" where
  "payment_status_debug Created = ''Created''"
| "payment_status_debug Pending = ''Pending''"
| "payment_status_debug Authorized = ''Authorized''"
| "payment_status_debug Captured = ''Captured''"
| "payment_status_debug Settled = ''Settled''"
| "payment_status_debug Failed = ''Failed''"
| "payment_status_debug Refunded = ''Refunded''"
| "payment_status_debug Disputed = ''Disputed''"
| "payment_status_debug Cancelled = ''Cancelled''"
| "payment_status_debug RequiresAction = ''RequiresAction''"

fun payment_status_str :: "payment_status \<Rightarrow> string" where
  "payment_status_str Created = ''created''"
| "payment_status_str Pending = ''pending''"
| "payment_status_str Authorized = ''authorized''"
| "payment_status_str Captured = ''captured''"
| "payment_status_str Settled = ''settled''"
| "payment_status_str Failed = ''failed''"
| "payment_status_str Refunded = ''refunded''"
| "payment_status_str Disputed = ''disputed''"
| "payment_status_str Cancelled = ''cancelled''"
| "payment_status_str RequiresAction = ''requires_action''"

fun valid_transitions :: "payment_status \<Rightarrow> payment_status list" where
  "valid_transitions Created = [Pending, Cancelled]"
| "valid_transitions Pending = [Authorized, Failed, RequiresAction]"
| "valid_transitions RequiresAction = [Authorized, Failed, Cancelled]"
| "valid_transitions Authorized = [Captured, Cancelled]"
| "valid_transitions Captured = [Settled, Disputed]"
| "valid_transitions Settled = [Disputed]"
| "valid_transitions Failed = []"
| "valid_transitions Cancelled = []"
| "valid_transitions Refunded = []"
| "valid_transitions Disputed = []"

definition can_transition_to :: "payment_status \<Rightarrow> payment_status \<Rightarrow> bool" where
  "can_transition_to s n = List.member (valid_transitions s) n"

fun is_terminal :: "payment_status \<Rightarrow> bool" where
  "is_terminal Settled = True"
| "is_terminal Failed = True"
| "is_terminal Cancelled = True"
| "is_terminal Refunded = True"
| "is_terminal Disputed = True"
| "is_terminal _ = False"

datatype card_brand = Visa | Mastercard | Amex | Discover | Rupay | UnknownBrand

datatype wallet_provider = Paytm | PhonePe | GooglePay | AmazonPay

datatype kyc_status = KycPending | KycUnderReview | KycApproved | KycRejected | KycRequiresDocuments

datatype entry_type = Debit | Credit

datatype capture_method = Automatic | Manual

datatype order_status = OrderCreated | OrderAttempted | OrderPaid | OrderExpired

datatype refund_status = RefundPending | RefundProcessing | RefundSucceeded | RefundFailed

fun refund_is_terminal :: "refund_status \<Rightarrow> bool" where
  "refund_is_terminal RefundSucceeded = True"
| "refund_is_terminal RefundFailed = True"
| "refund_is_terminal _ = False"

fun refund_status_str :: "refund_status \<Rightarrow> string" where
  "refund_status_str RefundPending = ''pending''"
| "refund_status_str RefundProcessing = ''processing''"
| "refund_status_str RefundSucceeded = ''succeeded''"
| "refund_status_str RefundFailed = ''failed''"

datatype dispute_status = WarningNeedsResponse | WarningUnderReview | WarningClosed
  | NeedsResponse | UnderReview | ChargeRefunded | Won | Lost

fun dispute_status_str :: "dispute_status \<Rightarrow> string" where
  "dispute_status_str WarningNeedsResponse = ''warning_needs_response''"
| "dispute_status_str WarningUnderReview = ''warning_under_review''"
| "dispute_status_str WarningClosed = ''warning_closed''"
| "dispute_status_str NeedsResponse = ''needs_response''"
| "dispute_status_str UnderReview = ''under_review''"
| "dispute_status_str ChargeRefunded = ''charge_refunded''"
| "dispute_status_str Won = ''won''"
| "dispute_status_str Lost = ''lost''"

section \<open>Payment methods\<close>

record card_details =
  cd_token :: string
  cd_last4 :: string
  cd_brand :: card_brand
  cd_exp_month :: u8
  cd_exp_year :: u16
  cd_name :: "string option"
  cd_country :: "string option"

record upi_details =
  upi_vpa :: string
  upi_bank_name :: "string option"

record net_banking_details =
  nb_bank_code :: string
  nb_bank_name :: string

datatype payment_method = Card card_details | Upi upi_details
  | NetBanking net_banking_details | Wallet wallet_provider

datatype payment_method_input =
    CardInput string string card_brand u8 u16 "string option"
  | UpiInput string
  | NetBankingInput string

section \<open>Rows and structures\<close>

text \<open>
  A payment as the Rust structure (\<open>payment\<close>) and as the table row (\<open>payment_row\<close>) differ
  in two columns only: the row holds the payment method and the metadata as JSON, and the
  metadata may be NULL. One record, polymorphic in these two fields, serves both.
\<close>

record ('pm, 'md) payment_rec =
  pay_id :: uuid
  pay_merchant_id :: uuid
  pay_order_id :: "uuid option"
  pay_amount :: i64
  pay_currency :: currency
  pay_status :: payment_status
  pay_payment_method :: "'pm option"
  pay_description :: "string option"
  pay_metadata :: 'md
  pay_acquirer_id :: "string option"
  pay_acquirer_reference :: "string option"
  pay_failure_code :: "string option"
  pay_failure_message :: "string option"
  pay_capture_method :: capture_method
  pay_captured_amount :: "i64 option"
  pay_refunded_amount :: i64
  pay_idempotency_key :: "string option"
  pay_created_at :: time
  pay_updated_at :: time
  pay_captured_at :: "time option"
  pay_settled_at :: "time option"
  pay_expires_at :: "time option"

type_synonym payment = "(payment_method, json) payment_rec"
type_synonym payment_row = "(json, json option) payment_rec"

text \<open>The amount a payment has for capture and refund: \<open>captured_amount.unwrap_or(amount)\<close>.\<close>

definition effective_amount :: "('pm, 'md) payment_rec \<Rightarrow> i64" where
  "effective_amount p = unwrap_or (pay_captured_amount p) (pay_amount p)"

definition refundable_amount :: "('pm, 'md) payment_rec \<Rightarrow> i64" where
  "refundable_amount p =
     wrap64 (unwrap_or (pay_captured_amount p) (pay_amount p) - pay_refunded_amount p)"

definition can_refund :: "('pm, 'md) payment_rec \<Rightarrow> i64 \<Rightarrow> bool" where
  "can_refund p amount =
     ((pay_status p = Captured \<or> pay_status p = Settled) \<and> amount > 0 \<and> amount \<le> refundable_amount p)"

record merchant =
  me_id :: uuid
  me_business_name :: string
  me_email :: string
  me_phone :: "string option"
  me_website :: "string option"
  me_kyc_status :: kyc_status
  me_api_key_hash :: string
  me_test_api_key_hash :: string
  me_webhook_url :: "string option"
  me_webhook_secret_enc :: "string option"
  me_fee_plan_id :: "uuid option"
  me_is_active :: bool
  me_created_at :: time
  me_updated_at :: time

record order =
  or_id :: uuid
  or_merchant_id :: uuid
  or_amount :: i64
  or_currency :: currency
  or_status :: order_status
  or_customer_id :: "string option"
  or_customer_email :: "string option"
  or_description :: "string option"
  or_metadata :: json
  or_payment_id :: "uuid option"
  or_expires_at :: time
  or_created_at :: time
  or_updated_at :: time

record ledger_entry =
  le_id :: uuid
  le_payment_id :: uuid
  le_merchant_id :: uuid
  le_entry_type :: entry_type
  le_account_id :: "uuid option"
  le_reference_entry_id :: "uuid option"
  le_amount :: i64
  le_currency :: currency
  le_balance_before :: i64
  le_balance_after :: i64
  le_description :: string
  le_notes :: "string option"
  le_hash :: string
  le_created_at :: time

record refund =
  rf_id :: uuid
  rf_payment_id :: uuid
  rf_merchant_id :: uuid
  rf_amount :: i64
  rf_currency :: currency
  rf_status :: refund_status
  rf_reason :: "string option"
  rf_acquirer_refund_id :: "string option"
  rf_failure_reason :: "string option"
  rf_idempotency_key :: "string option"
  rf_created_at :: time
  rf_updated_at :: time

record outbox_event =
  ob_id :: uuid
  ob_aggregate_type :: string
  ob_aggregate_id :: uuid
  ob_event_type :: string
  ob_payload :: json
  ob_topic :: string
  ob_published :: bool
  ob_failed_attempts :: i32
  ob_last_error :: "string option"
  ob_created_at :: time
  ob_published_at :: "time option"
  ob_locked_at :: "time option"

record dispute =
  di_id :: uuid
  di_payment_id :: uuid
  di_merchant_id :: uuid
  di_amount :: i64
  di_currency :: currency
  di_status :: dispute_status
  di_reason_code :: string
  di_reason_description :: "string option"
  di_evidence :: "json option"
  di_evidence_due_by :: "time option"
  di_evidence_submitted_at :: "time option"
  di_resolution :: "string option"
  di_acquirer_dispute_id :: "string option"
  di_created_at :: time
  di_updated_at :: time

record webhook_endpoint =
  we_id :: uuid
  we_merchant_id :: uuid
  we_url :: string
  we_secret_enc :: string
  we_events :: "string list"
  we_is_active :: bool
  we_created_at :: time
  we_updated_at :: time

section \<open>Requests\<close>

record create_payment_request =
  cpr_amount :: i64
  cpr_currency :: currency
  cpr_description :: "string option"
  cpr_payment_method :: payment_method_input
  cpr_capture_method :: "capture_method option"
  cpr_order_id :: "uuid option"
  cpr_metadata :: "json option"
  cpr_idempotency_key :: "string option"

record create_order_request =
  cor_amount :: i64
  cor_currency :: currency
  cor_description :: "string option"
  cor_customer_email :: "string option"
  cor_customer_id :: "string option"
  cor_metadata :: "json option"
  cor_expires_in_minutes :: "i64 option"

record create_refund_request =
  crr_amount :: "i64 option"
  crr_reason :: "string option"
  crr_idempotency_key :: "string option"

text \<open>
  The \<open>Validate\<close> derivations: the list of the fields that break their rule, empty when the
  request is valid. Rules on an optional field apply when it is present.
\<close>

definition opt_ok :: "('a \<Rightarrow> bool) \<Rightarrow> 'a option \<Rightarrow> bool" where
  "opt_ok P v = (case v of None \<Rightarrow> True | Some x \<Rightarrow> P x)"

definition failing :: "(string \<times> bool) list \<Rightarrow> string list" where
  "failing rules = map fst (filter (\<lambda>r. \<not> snd r) rules)"

definition validate_create_payment :: "create_payment_request \<Rightarrow> string list" where
  "validate_create_payment r = failing
     [(''amount'', 1 \<le> cpr_amount r \<and> cpr_amount r \<le> 10000000000),
      (''description'', opt_ok (\<lambda>s. str_len s \<le> 500) (cpr_description r)),
      (''idempotency_key'', opt_ok (\<lambda>s. 1 \<le> str_len s \<and> str_len s \<le> 255) (cpr_idempotency_key r))]"

definition validate_create_order :: "(string \<Rightarrow> bool) \<Rightarrow> create_order_request \<Rightarrow> string list" where
  "validate_create_order valid_email r = failing
     [(''amount'', 1 \<le> cor_amount r \<and> cor_amount r \<le> 10000000000),
      (''description'', opt_ok (\<lambda>s. str_len s \<le> 500) (cor_description r)),
      (''customer_email'', opt_ok valid_email (cor_customer_email r))]"

definition validate_create_refund :: "create_refund_request \<Rightarrow> string list" where
  "validate_create_refund r = failing
     [(''amount'', opt_ok (\<lambda>n. 1 \<le> n) (crr_amount r)),
      (''idempotency_key'', opt_ok (\<lambda>s. 1 \<le> str_len s \<and> str_len s \<le> 255) (crr_idempotency_key r))]"

section \<open>Answers\<close>

record api_error =
  ae_code :: string
  ae_message :: string
  ae_param :: "string option"

record 'a api_response =
  ar_success :: bool
  ar_data :: "'a option"
  ar_error :: "api_error option"
  ar_request_id :: string

definition api_ok :: "'a \<Rightarrow> string \<Rightarrow> 'a api_response" where
  "api_ok d rid = \<lparr>ar_success = True, ar_data = Some d, ar_error = None, ar_request_id = rid\<rparr>"

definition api_err :: "string \<Rightarrow> string \<Rightarrow> string \<Rightarrow> unit api_response" where
  "api_err code msg rid =
     \<lparr>ar_success = False, ar_data = None,
      ar_error = Some \<lparr>ae_code = code, ae_message = msg, ae_param = None\<rparr>, ar_request_id = rid\<rparr>"

text \<open>The JSON of an answer, as \<open>serde\<close> derives it.\<close>

definition api_error_json :: "api_error \<Rightarrow> json" where
  "api_error_json e = JObj [(''code'', JStr (ae_code e)), (''message'', JStr (ae_message e)),
     (''param'', jopt JStr (ae_param e))]"

definition api_response_json :: "('a \<Rightarrow> json) \<Rightarrow> 'a api_response \<Rightarrow> json" where
  "api_response_json f r =
     JObj [(''success'', JBool (ar_success r)), (''data'', jopt f (ar_data r)),
           (''error'', jopt api_error_json (ar_error r)), (''request_id'', JStr (ar_request_id r))]"

record pagination_params =
  pg_page :: u32
  pg_per_page :: u32

definition default_page :: u32 where "default_page = 1"
definition default_per_page :: u32 where "default_per_page = 20"

record 'a paginated_response =
  pr_data :: "'a list"
  pr_total :: i64
  pr_page :: u32
  pr_per_page :: u32
  pr_total_pages :: int

end
