(* ===== verification/Database.thy ===== *)
theory Database
  imports Models
begin

text \<open>
  The shared PostgreSQL database: the tables of \<open>migrations/*.sql\<close>, each a list of rows in
  insertion order, and what the migrations enforce on them (primary keys, the partial unique
  indexes on idempotency keys, CHECK and FOREIGN KEY clauses).

  Three facts of the schema decide whether statements of the services can run at all, and are
  kept as a value of type \<open>schema\<close>: whether the self-reference of \<open>ledger_entries\<close> is
  checked at commit (\<open>docs/ledger.md\<close> says DEFERRABLE INITIALLY DEFERRED, migration 008
  declares no such thing), whether \<open>webhook_deliveries\<close> has a \<open>dead_lettered_at\<close>
  column (the retry scheduler writes it, no migration adds it), and whether a parameter bound as
  text is accepted for a column of an enumeration type (the vault and the ledger service bind one
  so; PostgreSQL refuses unless a cast is created, and no migration creates one).
\<close>

record schema =
  sch_reference_deferred :: bool
  sch_dead_lettered_at :: bool
  sch_text_enums :: bool

text \<open>The schema the migrations of the repository create, and the one the documents and the code rely on.\<close>

definition migrated_schema :: schema where
  "migrated_schema = \<lparr>sch_reference_deferred = False, sch_dead_lettered_at = False, sch_text_enums = False\<rparr>"

definition documented_schema :: schema where
  "documented_schema = \<lparr>sch_reference_deferred = True, sch_dead_lettered_at = True, sch_text_enums = True\<rparr>"

section \<open>Rows of the tables without a structure in models.rs\<close>

record merchant_row = merchant +
  me_version :: i64

record merchant_balance =
  mb_merchant_id :: uuid
  mb_available :: i64
  mb_pending :: i64
  mb_reserved :: i64

record settlement =
  st_id :: uuid
  st_merchant_id :: uuid
  st_amount :: i64
  st_currency :: currency
  st_status :: string
  st_created_at :: time

datatype delivery_status = DeliveryPending | DeliveryProcessing | DeliverySuccess | DeliveryDeadLettered

record webhook_delivery =
  wd_id :: uuid
  wd_endpoint_id :: uuid
  wd_merchant_id :: uuid
  wd_event_type :: string
  wd_payload :: json
  wd_attempt_count :: i32
  wd_max_attempts :: i32
  wd_status :: delivery_status
  wd_last_http_status :: "i32 option"
  wd_last_error :: "string option"
  wd_next_retry_at :: "time option"
  wd_processing_started_at :: "time option"
  wd_dead_lettered_at :: "time option"
  wd_updated_at :: time

record vault_token_row =
  vt_token :: string
  vt_encrypted_data :: string
  vt_fingerprint :: string
  vt_last4 :: string
  vt_card_brand :: string
  vt_exp_month :: i32
  vt_exp_year :: i32
  vt_merchant_id :: "uuid option"
  vt_is_active :: bool
  vt_last_used_at :: "time option"

record fraud_check =
  fc_payment_id :: uuid
  fc_merchant_id :: uuid
  fc_blocked :: bool
  fc_triggered_rules :: "string list"

record recon_run =
  rr_id :: uuid
  rr_provider :: string
  rr_period_start :: time
  rr_period_end :: time
  rr_status :: string
  rr_payments_checked :: i32
  rr_mismatches_found :: i32
  rr_error :: "string option"
  rr_completed_at :: "time option"

record recon_mismatch =
  rm_run_id :: uuid
  rm_payment_id :: uuid
  rm_mismatch_type :: string
  rm_our_value :: string
  rm_provider_value :: string

record audit_entry =
  au_actor_id :: uuid
  au_event :: string
  au_resource_type :: string
  au_resource_id :: uuid

section \<open>The database\<close>

record database =
  db_schema :: schema
  merchants :: "merchant_row list"
  orders :: "order list"
  payments :: "payment_row list"
  refunds :: "refund list"
  ledger_entries :: "ledger_entry list"
  merchant_balances :: "merchant_balance list"
  outbox_events :: "outbox_event list"
  settlements :: "settlement list"
  disputes :: "dispute list"
  webhook_endpoints :: "webhook_endpoint list"
  webhook_deliveries :: "webhook_delivery list"
  processed_events :: "(string \<times> string) list"
  vault_tokens :: "vault_token_row list"
  fraud_checks :: "fraud_check list"
  exchange_rates :: "((currency \<times> currency) \<times> int) list"
  recon_runs :: "recon_run list"
  recon_mismatches :: "recon_mismatch list"
  audit_log :: "audit_entry list"

definition empty_database :: "schema \<Rightarrow> database" where
  "empty_database sch = \<lparr>db_schema = sch, merchants = [], orders = [], payments = [], refunds = [],
     ledger_entries = [], merchant_balances = [], outbox_events = [], settlements = [],
     disputes = [], webhook_endpoints = [], webhook_deliveries = [], processed_events = [],
     vault_tokens = [], fraud_checks = [], exchange_rates = [], recon_runs = [],
     recon_mismatches = [], audit_log = []\<rparr>"

section \<open>Constraints\<close>

text \<open>The accounts migration 008 seeds into \<open>ledger_accounts\<close>.\<close>

definition seeded_accounts :: "uuid list" where
  "seeded_accounts =
     [0x10000000000000000000000000000001, 0x20000000000000000000000000000001,
      0x30000000000000000000000000000001, 0x40000000000000000000000000000001,
      0x50000000000000000000000000000001]"

definition has_merchant :: "database \<Rightarrow> uuid \<Rightarrow> bool" where
  "has_merchant d m = list_ex (\<lambda>r. me_id r = m) (merchants d)"

definition has_payment :: "database \<Rightarrow> uuid \<Rightarrow> bool" where
  "has_payment d p = list_ex (\<lambda>r. pay_id r = p) (payments d)"

definition has_order :: "database \<Rightarrow> uuid option \<Rightarrow> bool" where
  "has_order d v = (case v of None \<Rightarrow> True | Some i \<Rightarrow> list_ex (\<lambda>r. or_id r = i) (orders d))"

definition has_ledger_entry :: "database \<Rightarrow> uuid option \<Rightarrow> bool" where
  "has_ledger_entry d v =
     (case v of None \<Rightarrow> True | Some i \<Rightarrow> list_ex (\<lambda>r. le_id r = i) (ledger_entries d))"

text \<open>The references that are checked only when a transaction commits.\<close>

definition references_ok :: "database \<Rightarrow> bool" where
  "references_ok d = list_all (\<lambda>e. has_ledger_entry d (le_reference_entry_id e)) (ledger_entries d)"

definition commit_ok :: "database \<Rightarrow> bool" where
  "commit_ok d = (sch_reference_deferred (db_schema d) \<longrightarrow> references_ok d)"

section \<open>Inserts under the constraints\<close>

text \<open>\<open>None\<close> is a constraint violation: the statement fails.\<close>

definition same_key :: "uuid \<Rightarrow> string option \<Rightarrow> uuid \<Rightarrow> string option \<Rightarrow> bool" where
  "same_key m1 k1 m2 k2 = (m1 = m2 \<and> k1 = k2 \<and> k1 \<noteq> None)"

definition payment_insertable :: "database \<Rightarrow> payment_row \<Rightarrow> bool" where
  "payment_insertable d p = (\<not> has_payment d (pay_id p) \<and> has_merchant d (pay_merchant_id p) \<and>
     has_order d (pay_order_id p) \<and> 0 < pay_amount p)"

definition refund_insertable :: "database \<Rightarrow> refund \<Rightarrow> bool" where
  "refund_insertable d r = (\<not> list_ex (\<lambda>q. rf_id q = rf_id r) (refunds d) \<and>
     has_payment d (rf_payment_id r) \<and> has_merchant d (rf_merchant_id r) \<and> 0 < rf_amount r)"

definition ledger_insertable :: "database \<Rightarrow> ledger_entry \<Rightarrow> bool" where
  "ledger_insertable d e =
     (\<not> has_ledger_entry d (Some (le_id e)) \<and> has_payment d (le_payment_id e) \<and>
      has_merchant d (le_merchant_id e) \<and> 0 < le_amount e \<and>
      (case le_account_id e of None \<Rightarrow> True | Some a \<Rightarrow> List.member seeded_accounts a) \<and>
      (sch_reference_deferred (db_schema d) \<or> has_ledger_entry d (le_reference_entry_id e) \<or>
       le_reference_entry_id e = Some (le_id e)))"

definition insert_ledger_row :: "ledger_entry \<Rightarrow> database \<Rightarrow> database option" where
  "insert_ledger_row e d =
     (if ledger_insertable d e then Some (d\<lparr>ledger_entries := ledger_entries d @ [e]\<rparr>) else None)"

definition dispute_insertable :: "database \<Rightarrow> dispute \<Rightarrow> bool" where
  "dispute_insertable d x = (\<not> list_ex (\<lambda>q. di_id q = di_id x) (disputes d) \<and>
     has_payment d (di_payment_id x) \<and> has_merchant d (di_merchant_id x) \<and> 0 < di_amount x)"

definition insert_outbox_row :: "outbox_event \<Rightarrow> database \<Rightarrow> database option" where
  "insert_outbox_row e d =
     (if list_ex (\<lambda>q. ob_id q = ob_id e) (outbox_events d) then None
      else Some (d\<lparr>outbox_events := outbox_events d @ [e]\<rparr>))"

lemma has_payment_iff [table_simps]: "has_payment d i \<longleftrightarrow> i \<in> pay_id ` set (payments d)"
  by (auto simp: has_payment_def list_ex_iff)

lemma has_merchant_iff [table_simps]: "has_merchant d i \<longleftrightarrow> i \<in> me_id ` set (merchants d)"
  by (auto simp: has_merchant_def list_ex_iff)

lemma has_ledger_entry_iff [table_simps]:
  "has_ledger_entry d v \<longleftrightarrow> v = None \<or> the v \<in> le_id ` set (ledger_entries d)"
  by (auto simp: has_ledger_entry_def list_ex_iff split: option.split)

end
