(* ===== verification/Float64.thy ===== *)
theory Float64
  imports Prelude
begin

text \<open>
  The IEEE-754 double arithmetic the fee, risk-score and retry computations use. A finite
  \<open>f64\<close> is a mantissa and an exponent, \<open>FNum m e\<close> standing for \<open>m * 2^e\<close>; every
  operation computes exactly and rounds to 53 bits, half to even, with gradual underflow and
  overflow to infinity. The sign of zero is not represented (no operation here reads it).
  Casts to integers truncate towards zero and saturate, as Rust's \<open>as\<close> does.
\<close>

datatype f64 = FNaN | FInf bool | FNum int int

section \<open>Rounding\<close>

function bitlen :: "int \<Rightarrow> nat" where
  "bitlen n = (if n \<le> 0 then 0 else Suc (bitlen (n div 2)))"
  by pat_completeness auto
termination
  by (relation "measure nat") auto

declare bitlen.simps [simp del]

text \<open>Half-to-even rounding of \<open>a / 2^s\<close> to an integer.\<close>

definition round_shift :: "int \<Rightarrow> nat \<Rightarrow> int" where
  "round_shift a s =
     (let q = a div 2 ^ s; r = a mod 2 ^ s
      in if 2 * r > 2 ^ s \<or> (2 * r = 2 ^ s \<and> odd q) then q + 1 else q)"

definition f64_shift :: "int \<Rightarrow> int \<Rightarrow> int" where
  "f64_shift a e = max (int (bitlen a) - 53) (- 1074 - e)"

definition f64_round :: "int \<Rightarrow> int \<Rightarrow> f64" where
  "f64_round m e =
     (let a = \<bar>m\<bar>; s = f64_shift a e;
          q = (if s \<le> 0 then a else round_shift a (nat s));
          e' = (if s \<le> 0 then e else e + s)
      in if q = 0 then FNum 0 0
         else if int (bitlen q) + e' > 1024 then FInf (m < 0)
         else FNum (sgn m * q) e')"

section \<open>Operations\<close>

definition f64_of_int :: "int \<Rightarrow> f64" where
  "f64_of_int n = f64_round n 0"

fun f64_neg :: "f64 \<Rightarrow> bool" where
  "f64_neg FNaN = False"
| "f64_neg (FInf b) = b"
| "f64_neg (FNum m e) = (m < 0)"

fun f64_mul :: "f64 \<Rightarrow> f64 \<Rightarrow> f64" where
  "f64_mul (FNum m1 e1) (FNum m2 e2) = f64_round (m1 * m2) (e1 + e2)"
| "f64_mul (FInf b) (FNum m e) = (if m = 0 then FNaN else FInf (b \<noteq> (m < 0)))"
| "f64_mul (FNum m e) (FInf b) = (if m = 0 then FNaN else FInf (b \<noteq> (m < 0)))"
| "f64_mul (FInf a) (FInf b) = FInf (a \<noteq> b)"
| "f64_mul _ _ = FNaN"

text \<open>Quotients carry 64 extra bits and a sticky bit, enough for correct rounding.\<close>

fun f64_div :: "f64 \<Rightarrow> f64 \<Rightarrow> f64" where
  "f64_div (FNum m1 e1) (FNum m2 e2) =
     (if m2 = 0 then (if m1 = 0 then FNaN else FInf (m1 < 0))
      else let k = bitlen \<bar>m2\<bar> + 64;
               n = \<bar>m1\<bar> * 2 ^ k;
               q = n div \<bar>m2\<bar>;
               st = (if n mod \<bar>m2\<bar> = 0 then 0 else 1)
           in f64_round (sgn m1 * sgn m2 * (2 * q + st)) (e1 - e2 - int k - 1))"
| "f64_div (FInf b) (FNum m e) = FInf (b \<noteq> (m < 0))"
| "f64_div (FNum m e) (FInf b) = FNum 0 0"
| "f64_div _ _ = FNaN"

fun f64_add :: "f64 \<Rightarrow> f64 \<Rightarrow> f64" where
  "f64_add (FNum m1 e1) (FNum m2 e2) =
     (let e = min e1 e2 in f64_round (m1 * 2 ^ nat (e1 - e) + m2 * 2 ^ nat (e2 - e)) e)"
| "f64_add (FInf a) (FInf b) = (if a = b then FInf a else FNaN)"
| "f64_add (FInf a) (FNum m e) = FInf a"
| "f64_add (FNum m e) (FInf b) = FInf b"
| "f64_add _ _ = FNaN"

fun f64_le :: "f64 \<Rightarrow> f64 \<Rightarrow> bool" where
  "f64_le (FNum m1 e1) (FNum m2 e2) =
     (let e = min e1 e2 in m1 * 2 ^ nat (e1 - e) \<le> m2 * 2 ^ nat (e2 - e))"
| "f64_le (FInf a) (FInf b) = (a \<or> \<not> b)"
| "f64_le (FInf a) (FNum m e) = a"
| "f64_le (FNum m e) (FInf b) = (\<not> b)"
| "f64_le _ _ = False"

text \<open>\<open>f64::min\<close> and \<open>f64::max\<close> ignore a NaN operand.\<close>

definition f64_min :: "f64 \<Rightarrow> f64 \<Rightarrow> f64" where
  "f64_min x y = (if x = FNaN then y else if y = FNaN then x else if f64_le x y then x else y)"

definition f64_max :: "f64 \<Rightarrow> f64 \<Rightarrow> f64" where
  "f64_max x y = (if x = FNaN then y else if y = FNaN then x else if f64_le x y then y else x)"

definition f64_trunc :: "int \<Rightarrow> int \<Rightarrow> int" where
  "f64_trunc m e = (if 0 \<le> e then m * 2 ^ nat e else sgn m * (\<bar>m\<bar> div 2 ^ nat (- e)))"

definition clamp :: "int \<Rightarrow> int \<Rightarrow> int \<Rightarrow> int" where
  "clamp lo hi n = max lo (min hi n)"

text \<open>\<open>x as T\<close> for an integer type with the given bounds.\<close>

fun f64_cast :: "int \<Rightarrow> int \<Rightarrow> f64 \<Rightarrow> int" where
  "f64_cast lo hi FNaN = 0"
| "f64_cast lo hi (FInf b) = (if b then lo else hi)"
| "f64_cast lo hi (FNum m e) = clamp lo hi (f64_trunc m e)"

definition f64_to_i64 :: "f64 \<Rightarrow> i64" where
  "f64_to_i64 = f64_cast (- 9223372036854775808) 9223372036854775807"

definition f64_to_i32 :: "f64 \<Rightarrow> i32" where
  "f64_to_i32 = f64_cast (- 2147483648) 2147483647"

definition f64_to_u32 :: "f64 \<Rightarrow> int" where
  "f64_to_u32 = f64_cast 0 4294967295"

fun f64_ceil :: "f64 \<Rightarrow> f64" where
  "f64_ceil (FNum m e) =
     (if 0 \<le> e then FNum m e else f64_round (- ((- m) div 2 ^ nat (- e))) 0)"
| "f64_ceil x = x"

text \<open>\<open>f64::round\<close>: half away from zero.\<close>

fun f64_round_away :: "f64 \<Rightarrow> f64" where
  "f64_round_away (FNum m e) =
     (if 0 \<le> e then FNum m e
      else f64_round (sgn m * ((2 * \<bar>m\<bar> + 2 ^ nat (- e)) div (2 * 2 ^ nat (- e)))) 0)"
| "f64_round_away x = x"

text \<open>The platform fee: \<open>(amount as f64 * pct) as i64\<close>.\<close>

definition fee_of :: "i64 \<Rightarrow> f64 \<Rightarrow> i64" where
  "fee_of amount pct = f64_to_i64 (f64_mul (f64_of_int amount) pct)"

text \<open>The default fee fraction \<open>0.02\<close> as the nearest double.\<close>

definition pct_default :: f64 where
  "pct_default = FNum 5764607523034235 (- 58)"

section \<open>Bit lengths\<close>

lemma bitlen_0 [simp]: "bitlen 0 = 0"
  by (simp add: bitlen.simps)

lemma bitlen_lower: "0 < n \<Longrightarrow> 2 ^ (bitlen n - 1) \<le> n"
proof (induction n rule: bitlen.induct)
  case (1 n)
  show ?case
  proof (cases "n div 2 = 0")
    case True
    with "1.prems" have "n = 1" by arith
    then show ?thesis by (simp add: bitlen.simps)
  next
    case False
    with "1.prems" have pos: "0 < n div 2" by arith
    with 1 have "2 ^ (bitlen (n div 2) - 1) \<le> n div 2" by simp
    moreover obtain k where "bitlen (n div 2) = Suc k"
      using pos by (simp add: bitlen.simps [of "n div 2"])
    ultimately show ?thesis using "1.prems" by (simp add: bitlen.simps [of n])
  qed
qed

lemma bitlen_le: "n < 2 ^ k \<Longrightarrow> bitlen n \<le> k"
proof (rule ccontr)
  assume n: "n < 2 ^ k" and l: "\<not> bitlen n \<le> k"
  then have "k \<le> bitlen n - 1" and pos: "0 < n"
    by (auto simp: bitlen.simps [of n] split: if_splits)
  then have "2 ^ k \<le> (2::int) ^ (bitlen n - 1)" by (intro power_increasing) simp_all
  with bitlen_lower [OF pos] n show False by linarith
qed

section \<open>Rounding bounds\<close>

lemma round_shift_nonneg: "0 \<le> a \<Longrightarrow> 0 \<le> round_shift a s"
  by (auto simp: round_shift_def Let_def pos_imp_zdiv_nonneg_iff)

text \<open>A multiple of the unit in the last place that bounds the value bounds its rounding.\<close>

lemma round_shift_le:
  assumes "a \<le> b * 2 ^ s"
  shows "round_shift a s \<le> b"
proof -
  have d: "a = (a div 2 ^ s) * 2 ^ s + a mod 2 ^ s"
    by (rule div_mult_mod_eq [symmetric])
  have r: "0 \<le> a mod 2 ^ s" "a mod 2 ^ s < 2 ^ s" by simp_all
  show ?thesis
  proof (cases "a mod 2 ^ s = 0")
    case True
    with d assms have "(a div 2 ^ s) * 2 ^ s \<le> b * 2 ^ s" by simp
    then have "a div 2 ^ s \<le> b" by simp
    with True show ?thesis by (simp add: round_shift_def Let_def)
  next
    case False
    with d r assms have "(a div 2 ^ s) * 2 ^ s < b * 2 ^ s" by linarith
    then have "a div 2 ^ s < b" by simp
    then show ?thesis by (simp add: round_shift_def Let_def)
  qed
qed

lemma round_shift_ge:
  assumes "b * 2 ^ s \<le> a"
  shows "b \<le> round_shift a s"
proof -
  have "b \<le> a div 2 ^ s" using zdiv_mono1 [OF assms, of "2 ^ s"] by simp
  then show ?thesis by (auto simp: round_shift_def Let_def)
qed

lemma round_shift_error: "2 * (round_shift a s * 2 ^ s) \<le> 2 * a + 2 ^ s"
proof -
  define q r p where "q = a div 2 ^ s" and "r = a mod 2 ^ s" and "p = (2::int) ^ s"
  have d: "a = q * p + r" unfolding q_def r_def p_def by (rule div_mult_mod_eq [symmetric])
  have r: "0 \<le> r" "0 < p" by (simp_all add: r_def p_def)
  have e: "round_shift a s = (if 2 * r > p \<or> (2 * r = p \<and> odd q) then q + 1 else q)"
    by (simp add: round_shift_def Let_def q_def r_def p_def)
  show ?thesis
  proof (cases "2 * r > p \<or> (2 * r = p \<and> odd q)")
    case True
    then have "p \<le> 2 * r" by auto
    with True e d have "2 * (round_shift a s * p) \<le> 2 * a + p" by (simp add: distrib_right)
    then show ?thesis by (simp add: p_def)
  next
    case False
    with e d r have "2 * (round_shift a s * p) \<le> 2 * a + p" by simp
    then show ?thesis by (simp add: p_def)
  qed
qed

lemma round_shift_0 [simp]: "round_shift a 0 = a"
  by (simp add: round_shift_def)

lemma round_shift_zero [simp]: "round_shift 0 s = 0"
  by (simp add: round_shift_def)

lemma f64_shift_le:
  assumes "0 \<le> a" and "a < hi * 2 ^ k" and "hi \<le> 2 ^ 53"
  shows "nat (f64_shift a (- int k)) \<le> k"
proof -
  have "hi * 2 ^ k \<le> 2 ^ 53 * 2 ^ k" using assms(3) by (rule mult_right_mono) simp
  with assms(2) have "a < 2 ^ 53 * 2 ^ k" by (rule less_le_trans)
  then have "a < 2 ^ (53 + k)" by (simp only: power_add)
  then have "bitlen a \<le> 53 + k" by (intro bitlen_le)
  then show ?thesis by (simp add: f64_shift_def)
qed

text \<open>The cast of a rounded product, as integer arithmetic.\<close>

lemma f64_to_i64_round:
  assumes a: "0 \<le> a" "a < hi * 2 ^ k" and hi: "hi \<le> 2 ^ 53"
    and s: "s = nat (f64_shift a (- int k))"
  shows "f64_to_i64 (f64_round a (- int k)) = round_shift a s div 2 ^ (k - s)"
proof -
  have sk: "s \<le> k" using f64_shift_le [OF a hi] s by simp
  define q where "q = round_shift a s"
  have q0: "0 \<le> q" using a by (simp add: q_def round_shift_nonneg)
  have "a \<le> (hi * 2 ^ (k - s)) * 2 ^ s"
    using a(2) sk by (simp add: mult.assoc flip: power_add)
  then have "q \<le> hi * 2 ^ (k - s)" unfolding q_def by (rule round_shift_le)
  also have "\<dots> \<le> 2 ^ 53 * 2 ^ (k - s)" using hi by (rule mult_right_mono) simp
  finally have q1: "q \<le> 2 ^ 53 * 2 ^ (k - s)" .
  also have "(2::int) ^ 53 * 2 ^ (k - s) < 2 ^ 54 * 2 ^ (k - s)" by simp
  finally have "q < 2 ^ 54 * 2 ^ (k - s)" .
  then have "q < 2 ^ (54 + (k - s))" by (simp only: power_add)
  then have bl: "bitlen q \<le> 54 + (k - s)" by (intro bitlen_le)
  have d: "0 \<le> q div 2 ^ (k - s)" "q div 2 ^ (k - s) \<le> 9007199254740992"
    using q0 zdiv_mono1 [OF q1, of "2 ^ (k - s)"] by (simp_all add: pos_imp_zdiv_nonneg_iff)
  have r: "f64_round a (- int k) = (if q = 0 then FNum 0 0 else FNum q (- int (k - s)))"
  proof (cases "f64_shift a (- int k) \<le> 0")
    case True
    then have "s = 0" using s by simp
    then have "q = a" by (simp add: q_def)
    then show ?thesis using True bl a \<open>s = 0\<close> by (simp add: f64_round_def Let_def)
  next
    case False
    then have "f64_shift a (- int k) = int s" using s by simp
    moreover have "int (bitlen q) + (int s - int k) \<le> 54" using bl sk by linarith
    moreover have "sgn a = 1" if "q \<noteq> 0"
      using that a by (cases "a = 0") (simp_all add: q_def round_shift_def)
    ultimately show ?thesis using False a sk
      by (simp add: f64_round_def Let_def q_def [symmetric])
  qed
  show ?thesis
  proof (cases "q = 0")
    case True
    then show ?thesis using r by (simp add: q_def [symmetric] f64_to_i64_def f64_trunc_def clamp_def)
  next
    case False
    have "f64_trunc q (- int j) = q div 2 ^ j" for j
      using q0 False by (simp add: f64_trunc_def)
    then have "f64_to_i64 (FNum q (- int (k - s))) = q div 2 ^ (k - s)"
      using d by (simp add: f64_to_i64_def clamp_def del: of_nat_diff)
    then show ?thesis using r False by (simp add: q_def [symmetric])
  qed
qed

lemma f64_of_int_exact: "\<lbrakk>0 \<le> n; n < 2 ^ 53\<rbrakk> \<Longrightarrow> f64_of_int n = FNum n 0"
  using bitlen_le [of n 53]
  by (auto simp: f64_of_int_def f64_round_def f64_shift_def Let_def)

text \<open>A small integer below a value is below its rounding, and a value capped by it casts to it.\<close>

lemma f64_round_ge:
  assumes m: "0 \<le> m" and b: "0 \<le> b" "b < 2 ^ 53" and le: "f64_le (FNum b 0) (FNum m e)"
  shows "f64_le (FNum b 0) (f64_round m e)"
proof (cases "f64_shift m e \<le> 0")
  case True
  then show ?thesis using m le b by (auto simp: f64_round_def Let_def f64_shift_def sgn_if min_def
      mult_le_0_iff power_le_zero_eq split: if_splits)
next
  case False
  define s where "s = nat (f64_shift m e)"
  have s: "f64_shift m e = int s" "0 < s" using False by (simp_all add: s_def)
  have big: "f64_le (FNum b 0) (FNum (round_shift m s) (e + int s))"
  proof (cases "e + int s \<le> 0")
    case True
    then have "b * 2 ^ nat (- e) \<le> m" using le by (simp add: Let_def min_def split: if_splits)
    moreover have "(2::int) ^ nat (- e) = 2 ^ nat (- (e + int s)) * 2 ^ s"
      using True by (simp add: power_add [symmetric] nat_add_distrib [symmetric])
    ultimately have "b * 2 ^ nat (- (e + int s)) \<le> round_shift m s"
      by (intro round_shift_ge) (simp add: mult.assoc)
    then show ?thesis using True by (simp add: Let_def min_def)
  next
    case pos: False
    then have bl: "int (bitlen m) - 53 = int s" using s by (auto simp: f64_shift_def)
    then have "0 < m" using m s by (cases "m = 0") auto
    then have "2 ^ (bitlen m - 1) \<le> m" by (rule bitlen_lower)
    moreover have "bitlen m - 1 = 52 + s" using bl by simp
    ultimately have "2 ^ 52 * 2 ^ s \<le> m" by (simp add: power_add)
    then have q: "2 ^ 52 \<le> round_shift m s" by (rule round_shift_ge)
    have "(2::int) ^ 1 \<le> 2 ^ nat (e + int s)" using pos by (intro power_increasing) simp_all
    with q have "2 ^ 52 * 2 \<le> round_shift m s * 2 ^ nat (e + int s)" by (intro mult_mono) simp_all
    then show ?thesis using pos b by (simp add: Let_def min_def)
  qed
  then have "b = 0 \<or> 0 < round_shift m s"
    using round_shift_nonneg [OF m, of s] b
    by (cases "round_shift m s = 0") (auto simp: Let_def mult_le_0_iff power_le_zero_eq split: if_splits)
  then show ?thesis using big False s m
    by (cases "m = 0") (auto simp: f64_round_def Let_def round_shift_nonneg sgn_if)
qed

lemma f64_le_trunc:
  assumes "f64_le (FNum m e) (FNum b 0)" and "0 \<le> b"
  shows "f64_trunc m e \<le> b"
proof (cases "0 \<le> e")
  case True
  then show ?thesis using assms by (simp add: f64_trunc_def Let_def min_def split: if_splits)
next
  case False
  then have "m \<le> b * 2 ^ nat (- e)" using assms by (simp add: Let_def min_def)
  then have "0 \<le> m \<Longrightarrow> m div 2 ^ nat (- e) \<le> b"
    using zdiv_mono1 [of m "b * 2 ^ nat (- e)" "2 ^ nat (- e)"] by simp
  moreover have "m < 0 \<Longrightarrow> sgn m * (\<bar>m\<bar> div 2 ^ nat (- e)) \<le> 0"
    by (simp add: sgn_if pos_imp_zdiv_nonneg_iff)
  ultimately show ?thesis using False assms(2) by (cases "m < 0") (auto simp: f64_trunc_def sgn_if)
qed

lemma f64_le_trunc_ge:
  assumes "f64_le (FNum b 0) (FNum m e)" and "0 \<le> b" and "0 \<le> m"
  shows "b \<le> f64_trunc m e"
proof (cases "0 \<le> e")
  case True
  then show ?thesis using assms by (simp add: f64_trunc_def Let_def min_def split: if_splits)
next
  case False
  then have "b * 2 ^ nat (- e) \<le> m" using assms by (simp add: Let_def min_def)
  then have "b \<le> m div 2 ^ nat (- e)"
    using zdiv_mono1 [of "b * 2 ^ nat (- e)" m "2 ^ nat (- e)"] by simp
  then show ?thesis using False assms by (cases "m = 0") (auto simp: f64_trunc_def sgn_if)
qed

lemma f64_min_cast_le:
  assumes "0 \<le> b" and "b < 2147483648"
  shows "f64_to_i32 (f64_min x (FNum b 0)) \<le> b"
proof (cases x)
  case (FNum m e)
  then show ?thesis using assms f64_le_trunc [of m e b] f64_le_trunc [of b 0 b]
    by (auto simp: f64_min_def f64_to_i32_def clamp_def f64_trunc_def)
qed (use assms in \<open>auto simp: f64_min_def f64_to_i32_def clamp_def f64_trunc_def\<close>)

text \<open>Lower bounds through the operations, for non-negative operands.\<close>

lemma f64_ge_iff:
  "f64_le (FNum b 0) (FNum m e) \<longleftrightarrow> (if 0 \<le> e then b \<le> m * 2 ^ nat e else b * 2 ^ nat (- e) \<le> m)"
  by (auto simp: Let_def min_def)

lemma f64_nonneg_iff: "f64_le (FNum 0 0) (FNum m e) \<longleftrightarrow> 0 \<le> m"
  by (simp add: f64_ge_iff zero_le_mult_iff)

lemma f64_ge_nonneg:
  assumes "f64_le (FNum b 0) (FNum m e)" and b: "0 \<le> b"
  shows "0 \<le> m"
proof (cases "0 \<le> e")
  case True
  then show ?thesis using assms zero_le_mult_iff [of m "2 ^ nat e"]
    by (auto simp: f64_ge_iff power_le_zero_eq simp del: f64_le.simps)
next
  case False
  have "0 \<le> b * 2 ^ nat (- e)" using b by simp
  also have "\<dots> \<le> m" using assms(1) False by (simp only: f64_ge_iff if_False)
  finally show ?thesis .
qed

lemma f64_min_cast_ge:
  assumes "f64_le (FNum b 0) x" and "0 \<le> b" and "b \<le> hi" and "hi < 2147483648"
  shows "b \<le> f64_to_i32 (f64_min x (FNum hi 0))"
proof (cases x)
  case (FNum m e)
  have "b \<le> f64_trunc m e"
    using assms FNum f64_ge_nonneg [of b m e] by (intro f64_le_trunc_ge) auto
  then show ?thesis using FNum assms by (auto simp: f64_min_def f64_to_i32_def clamp_def f64_trunc_def)
qed (use assms in \<open>auto simp: f64_min_def f64_to_i32_def clamp_def f64_trunc_def split: if_splits\<close>)

lemma bitlen_rec: "0 < n \<Longrightarrow> bitlen n = Suc (bitlen (n div 2))"
  by (simp add: bitlen.simps [of n])

lemma f64_of_int_ge: "\<lbrakk>0 \<le> b; b < 2 ^ 53; b \<le> n\<rbrakk> \<Longrightarrow> f64_le (FNum b 0) (f64_of_int n)"
  unfolding f64_of_int_def by (rule f64_round_ge) (simp_all add: f64_ge_iff)

lemma f64_mul_ge:
  assumes x: "f64_le (FNum b 0) x" and b: "0 \<le> b" "b * c < 2 ^ 53" and c: "0 < c"
  shows "f64_le (FNum (b * c) 0) (f64_mul x (FNum c 0))"
proof (cases x)
  case (FNum m e)
  have ge: "f64_le (FNum b 0) (FNum m e)" using x FNum by simp
  then have le: "if 0 \<le> e then b \<le> m * 2 ^ nat e else b * 2 ^ nat (- e) \<le> m" by (simp only: f64_ge_iff)
  have m: "0 \<le> m" using ge b(1) by (rule f64_ge_nonneg)
  have "b * c \<le> m * c * p" if "b \<le> m * p" for p using mult_right_mono [OF that, of c] c by (simp add: ac_simps)
  moreover have "b * c * p \<le> m * c" if "b * p \<le> m" for p using mult_right_mono [OF that, of c] c by (simp add: ac_simps)
  ultimately have "f64_le (FNum (b * c) 0) (FNum (m * c) e)" using le by (simp add: f64_ge_iff del: f64_le.simps)
  then show ?thesis using FNum m b c f64_round_ge [of "m * c" "b * c" e] by simp
qed (use x c in auto)

lemma f64_div_nonneg:
  assumes "f64_le (FNum 0 0) x" and "0 < c"
  shows "f64_le (FNum 0 0) (f64_div x (FNum c 0))"
proof (cases x)
  case (FNum m e)
  then have "0 \<le> m" using assms f64_nonneg_iff by simp
  then show ?thesis using FNum assms(2)
    by (cases "m = 0") (auto simp: Let_def sgn_if f64_nonneg_iff pos_imp_zdiv_nonneg_iff
      intro!: f64_round_ge simp del: f64_le.simps)
qed (use assms in auto)

lemma f64_div_ge:
  assumes n: "0 \<le> n" and c: "0 < c" and d: "0 \<le> d" "d < 2 ^ 53" "d * c \<le> n"
  shows "f64_le (FNum d 0) (f64_div (FNum n 0) (FNum c 0))"
proof (cases "n = 0")
  case True
  then have "d = 0" using c d mult_pos_pos [of d c] by fastforce
  then show ?thesis using True c by (simp add: Let_def f64_round_def)
next
  case False
  define k where "k = bitlen c + 64"
  define st :: int where "st = (if n * 2 ^ k mod c = 0 then 0 else 1)"
  define q where "q = n * 2 ^ k div c"
  have "(d * 2 ^ k) * c \<le> n * 2 ^ k" using mult_right_mono [OF d(3), of "2 ^ k"] by (simp add: ac_simps)
  then have "d * 2 ^ k \<le> q" unfolding q_def using zdiv_mono1 [of "(d * 2 ^ k) * c" "n * 2 ^ k" c] c by simp
  moreover have "0 \<le> st" by (simp add: st_def)
  moreover have "nat (- (- int k - 1)) = Suc k" by simp
  ultimately have "f64_le (FNum d 0) (FNum (2 * q + st) (- int k - 1))"
    by (simp add: f64_ge_iff del: f64_le.simps)
  moreover have "0 \<le> 2 * q + st" using n c by (simp add: q_def st_def pos_imp_zdiv_nonneg_iff)
  ultimately have "f64_le (FNum d 0) (f64_round (2 * q + st) (- int k - 1))" by (intro f64_round_ge d)
  then show ?thesis using False n c by (simp add: Let_def sgn_if q_def st_def k_def)
qed

text \<open>Comparison at any common exponent.\<close>

lemma f64_le_common:
  assumes "E \<le> e1" and "E \<le> e2"
  shows "f64_le (FNum m1 e1) (FNum m2 e2) \<longleftrightarrow> m1 * 2 ^ nat (e1 - E) \<le> m2 * 2 ^ nat (e2 - E)"
proof -
  let ?e = "min e1 e2"
  have "nat (e1 - E) = nat (e1 - ?e) + nat (?e - E)" "nat (e2 - E) = nat (e2 - ?e) + nat (?e - E)"
    using assms by (simp_all add: nat_add_distrib [symmetric])
  then show ?thesis by (simp add: Let_def power_add mult.assoc [symmetric])
qed

lemma f64_le_trans_num:
  assumes "f64_le (FNum m1 e1) (FNum m2 e2)" and "f64_le (FNum m2 e2) (FNum m3 e3)"
  shows "f64_le (FNum m1 e1) (FNum m3 e3)"
proof -
  define E where "E = min e1 (min e2 e3)"
  have E: "E \<le> e1" "E \<le> e2" "E \<le> e3" by (auto simp: E_def)
  show ?thesis using assms unfolding f64_le_common [OF E(1,2)] f64_le_common [OF E(2,3)] f64_le_common [OF E(1,3)]
    by (rule order_trans)
qed

lemma f64_leq_iff:
  "f64_le (FNum m e) (FNum b 0) \<longleftrightarrow> (if 0 \<le> e then m * 2 ^ nat e \<le> b else m \<le> b * 2 ^ nat (- e))"
  by (auto simp: Let_def min_def)

lemma bitlen_scaled:
  assumes "0 \<le> q" and "f64_le (FNum q e) (FNum b 0)" and "b < 2 ^ 53" and "q \<noteq> 0"
  shows "int (bitlen q) + e \<le> 53"
proof (cases "0 \<le> e")
  case True
  then have le: "q * 2 ^ nat e < 2 ^ 53" using assms(2,3) by (simp add: f64_leq_iff del: f64_le.simps)
  have "1 * 2 ^ nat e \<le> q * 2 ^ nat e" using assms(1,4) by (intro mult_right_mono) auto
  with le have "(2::int) ^ nat e < 2 ^ 53" by linarith
  then have e: "nat e < 53" by (simp only: power_strict_increasing_iff one_less_numeral_iff semiring_norm)
  then have "(2::int) ^ 53 = 2 ^ (53 - nat e) * 2 ^ nat e" by (simp only: power_add [symmetric]) simp
  then have "q < 2 ^ (53 - nat e)" using le by (metis mult_less_cancel_right_pos zero_less_numeral zero_less_power)
  then have "bitlen q \<le> 53 - nat e" by (rule bitlen_le)
  then show ?thesis using e True by linarith
next
  case False
  then have "q \<le> b * 2 ^ nat (- e)" using assms(2) by (simp add: f64_leq_iff del: f64_le.simps)
  also have "\<dots> < 2 ^ 53 * 2 ^ nat (- e)" using assms(3) by (intro mult_strict_right_mono) simp_all
  finally have "q < 2 ^ (53 + nat (- e))" by (simp only: power_add)
  then have "bitlen q \<le> 53 + nat (- e)" by (rule bitlen_le)
  then show ?thesis using False by linarith
qed

lemma f64_round_le:
  assumes b: "0 \<le> b" "b < 2 ^ 53" and le: "f64_le (FNum m e) (FNum b 0)"
  shows "f64_le (f64_round m e) (FNum b 0)"
proof (cases "m \<le> 0")
  case True
  have nn: "0 \<le> (if f64_shift \<bar>m\<bar> e \<le> 0 then \<bar>m\<bar> else round_shift \<bar>m\<bar> (nat (f64_shift \<bar>m\<bar> e)))"
    by (simp add: round_shift_nonneg)
  have neg: "f64_le (FNum (- q) e') (FNum b 0)" if "0 \<le> q" for q e'
  proof -
    have "- q * 2 ^ nat e' \<le> 0" using that by simp
    also have "0 \<le> b" by (rule b(1))
    finally have "- q * 2 ^ nat e' \<le> b" .
    moreover have "- q \<le> 0" using that by simp
    then have "- q \<le> b * 2 ^ nat (- e')" by (rule order_trans) (simp add: b(1))
    ultimately show ?thesis by (simp add: f64_leq_iff del: f64_le.simps)
  qed
  have extra: "f64_le (FInf True) (FNum b 0)" "f64_le (FNum 0 0) (FNum b 0)" using b(1) by simp_all
  show ?thesis using True nn b(1) neg extra
    by (cases "m = 0") (auto simp: f64_round_def Let_def sgn_if simp del: f64_le.simps split: if_splits)
next
  case False
  then have m: "0 < m" by simp
  define s where "s = f64_shift m e"
  define q where "q = (if s \<le> 0 then m else round_shift m (nat s))"
  define e' where "e' = (if s \<le> 0 then e else e + s)"
  have q0: "0 \<le> q" using m by (simp add: q_def round_shift_nonneg)
  have bm: "int (bitlen m) + e \<le> 53" using bitlen_scaled [OF _ le b(2)] m by simp
  have qle: "f64_le (FNum q e') (FNum b 0)"
  proof (cases "s \<le> 0")
    case True
    then show ?thesis using le by (simp add: q_def e'_def)
  next
    case s: False
    then have es: "e + s \<le> 0" using bm by (auto simp: s_def f64_shift_def)
    then have e0: "e < 0" using s by simp
    then have "m \<le> b * 2 ^ nat (- e)" using le by (simp add: f64_leq_iff del: f64_le.simps)
    moreover have "(2::int) ^ nat (- e) = 2 ^ nat (- (e + s)) * 2 ^ nat s"
      using es s by (simp add: power_add [symmetric] nat_add_distrib [symmetric])
    ultimately have "round_shift m (nat s) \<le> b * 2 ^ nat (- (e + s))"
      by (intro round_shift_le) (simp add: mult.assoc)
    then show ?thesis using s es by (auto simp: f64_leq_iff q_def e'_def simp del: f64_le.simps)
  qed
  have "q \<noteq> 0 \<Longrightarrow> int (bitlen q) + e' \<le> 53" using bitlen_scaled [OF q0 qle b(2)] by simp
  moreover have "f64_round m e = (if q = 0 then FNum 0 0 else if int (bitlen q) + e' > 1024 then FInf (m < 0)
      else FNum (sgn m * q) e')"
    unfolding f64_round_def Let_def q_def e'_def s_def using m by simp
  ultimately have "f64_round m e = (if q = 0 then FNum 0 0 else FNum q e')" using m by (cases "q = 0") simp_all
  then show ?thesis using qle b(1) by (simp add: f64_leq_iff del: f64_le.simps)
qed

text \<open>Bounds on a sum, and the cast of a value between two integers.\<close>

lemma f64_sum_le:
  assumes "f64_le (FNum m1 e1) (FNum a E)" and "f64_le (FNum m2 e2) (FNum b E)"
  shows "f64_le (FNum (m1 * 2 ^ nat (e1 - min e1 e2) + m2 * 2 ^ nat (e2 - min e1 e2)) (min e1 e2)) (FNum (a + b) E)"
proof -
  define F where "F = min E (min e1 e2)"
  have F: "F \<le> E" "F \<le> e1" "F \<le> e2" "F \<le> min e1 e2" by (auto simp: F_def)
  have p: "(2::int) ^ nat (e - F) = 2 ^ nat (e - min e1 e2) * 2 ^ nat (min e1 e2 - F)" if "min e1 e2 \<le> e" for e
    using that F by (simp add: power_add [symmetric] nat_add_distrib [symmetric])
  show ?thesis using assms p [of e1] p [of e2]
    unfolding f64_le_common [OF F(2,1)] f64_le_common [OF F(3,1)] f64_le_common [OF F(4,1)]
    by (simp add: distrib_right mult.assoc)
qed

lemma f64_sum_ge:
  assumes "f64_le (FNum a E) (FNum m1 e1)" and "f64_le (FNum b E) (FNum m2 e2)"
  shows "f64_le (FNum (a + b) E) (FNum (m1 * 2 ^ nat (e1 - min e1 e2) + m2 * 2 ^ nat (e2 - min e1 e2)) (min e1 e2))"
proof -
  define F where "F = min E (min e1 e2)"
  have F: "F \<le> E" "F \<le> e1" "F \<le> e2" "F \<le> min e1 e2" by (auto simp: F_def)
  have p: "(2::int) ^ nat (e - F) = 2 ^ nat (e - min e1 e2) * 2 ^ nat (min e1 e2 - F)" if "min e1 e2 \<le> e" for e
    using that F by (simp add: power_add [symmetric] nat_add_distrib [symmetric])
  show ?thesis using assms p [of e1] p [of e2]
    unfolding f64_le_common [OF F(1,2)] f64_le_common [OF F(1,3)] f64_le_common [OF F(1,4)]
    by (simp add: distrib_right mult.assoc)
qed

lemma f64_add_le:
  assumes "f64_le (FNum m1 e1) (FNum a E)" and "f64_le (FNum m2 e2) (FNum b E)"
    and "f64_le (FNum (a + b) E) (FNum c 0)" and "0 \<le> c" and "c < 2 ^ 53"
  shows "f64_le (f64_add (FNum m1 e1) (FNum m2 e2)) (FNum c 0)"
  unfolding f64_add.simps Let_def
  by (rule f64_round_le [OF assms(4,5) f64_le_trans_num [OF f64_sum_le [OF assms(1,2)] assms(3)]])

lemma f64_add_ge:
  assumes "f64_le (FNum a E) (FNum m1 e1)" and "f64_le (FNum b E) (FNum m2 e2)"
    and "f64_le (FNum c 0) (FNum (a + b) E)" and "0 \<le> c" and "c < 2 ^ 53"
  shows "f64_le (FNum c 0) (f64_add (FNum m1 e1) (FNum m2 e2))"
proof -
  note le = f64_le_trans_num [OF assms(3) f64_sum_ge [OF assms(1,2)]]
  show ?thesis unfolding f64_add.simps Let_def
    by (rule f64_round_ge [OF f64_ge_nonneg [OF le assms(4)] assms(4,5) le])
qed

lemma f64_le_linear: "f64_le (FNum m e) (FNum n d) \<or> f64_le (FNum n d) (FNum m e)"
  by (simp add: Let_def min.commute linear)

lemma f64_cast_between:
  assumes "f64_le (FNum lo 0) (FNum m e)" and "f64_le (FNum m e) (FNum hi 0)" and "0 \<le> lo" and "hi < 2 ^ 53"
  shows "lo \<le> f64_to_i64 (FNum m e) \<and> f64_to_i64 (FNum m e) \<le> hi"
proof -
  have m: "0 \<le> m" using assms(1,3) by (rule f64_ge_nonneg)
  have lo: "lo \<le> f64_trunc m e" by (rule f64_le_trunc_ge [OF assms(1,3) m])
  have "f64_le (FNum lo 0) (FNum hi 0)" using assms(1,2) by (rule f64_le_trans_num)
  then have hi: "0 \<le> hi" using assms(3) by simp
  have "f64_trunc m e \<le> hi" by (rule f64_le_trunc [OF assms(2) hi])
  then show ?thesis using lo assms(3,4) by (simp add: f64_to_i64_def clamp_def)
qed

section \<open>The fee\<close>

lemma fee_of_round:
  "\<lbrakk>0 \<le> n; n < 2 ^ 53\<rbrakk> \<Longrightarrow> fee_of n (FNum m e) = f64_to_i64 (f64_round (n * m) e)"
  by (simp add: fee_of_def f64_of_int_exact)

text \<open>A fee fraction between 0 and 1 takes a fee between 0 and the amount.\<close>

lemma fee_of_bounds [fee_simps]:
  assumes n: "0 \<le> n" "n < 2 ^ 53" and m: "0 \<le> m" "m \<le> 2 ^ k"
  shows "0 \<le> fee_of n (FNum m (- int k))" and "fee_of n (FNum m (- int k)) \<le> n"
proof -
  define s where "s = nat (f64_shift (n * m) (- int k))"
  have a0: "0 \<le> n * m" using n m by simp
  have a1: "n * m \<le> n * 2 ^ k" using n m by (simp add: mult_left_mono)
  note a1
  also have "n * 2 ^ k < (n + 1) * 2 ^ k" by simp
  finally have a2: "n * m < (n + 1) * 2 ^ k" .
  have hi: "n + 1 \<le> 2 ^ 53" using n by simp
  note eq = fee_of_round [OF n, of m "- int k"] f64_to_i64_round [OF a0 a2 hi s_def]
  have sk: "s \<le> k" using f64_shift_le [OF a0 a2 hi] s_def by simp
  show "0 \<le> fee_of n (FNum m (- int k))"
    using eq a0 by (simp add: pos_imp_zdiv_nonneg_iff round_shift_nonneg)
  have "n * m \<le> (n * 2 ^ (k - s)) * 2 ^ s"
    using a1 sk by (simp add: mult.assoc flip: power_add)
  then have "round_shift (n * m) s \<le> n * 2 ^ (k - s)" by (rule round_shift_le)
  then show "fee_of n (FNum m (- int k)) \<le> n"
    using eq zdiv_mono1 [of "round_shift (n * m) s" "n * 2 ^ (k - s)" "2 ^ (k - s)"] by simp
qed

text \<open>
  At the default fraction the floating-point fee is exactly the integer quotient
  by 50 for every amount the API accepts.
\<close>

lemma fee_of_default:
  assumes n: "0 \<le> n" "n \<le> 10000000000"
  shows "fee_of n pct_default = n div 50"
proof -
  let ?M = "5764607523034235 :: int"
  define s where "s = nat (f64_shift (n * ?M) (- int 58))"
  define q where "q = n div 50"
  have qn: "50 * q \<le> n" "n \<le> 50 * q + 49" "0 \<le> q" using n by (simp_all add: q_def)
  have n53: "n < 2 ^ 53" using n by simp
  have a0: "0 \<le> n * ?M" and a2: "n * ?M < (q + 1) * 2 ^ 58" and hi: "q + 1 \<le> 2 ^ 53"
    using n qn by simp_all
  note eq = fee_of_round [OF n(1) n53, of ?M "- int 58"] f64_to_i64_round [OF a0 a2 hi s_def]
  have sk: "s \<le> 58" using f64_shift_le [OF a0 a2 hi] s_def by simp
  have "n * ?M < 2 ^ 87" using n by simp
  then have "bitlen (n * ?M) \<le> 87" by (intro bitlen_le)
  then have s34: "s \<le> 34" by (simp add: s_def f64_shift_def)
  have pow: "(2::int) ^ (58 - s) * 2 ^ s = 2 ^ 58" using sk by (simp flip: power_add)
  have "q * 2 ^ (58 - s) * 2 ^ s \<le> n * ?M"
    using pow qn by (simp add: mult.assoc)
  then have lo: "q * 2 ^ (58 - s) \<le> round_shift (n * ?M) s" by (rule round_shift_ge)
  have "(2::int) ^ s \<le> 2 ^ 34" using s34 by (rule power_increasing) simp
  then have "2 * (n * ?M) + 2 ^ s < 2 * ((q + 1) * 2 ^ 58)" using n qn by simp
  then have "round_shift (n * ?M) s * 2 ^ s < (q + 1) * 2 ^ (58 - s) * 2 ^ s"
    using round_shift_error [of "n * ?M" s] pow by (simp add: mult.assoc)
  then have up: "round_shift (n * ?M) s < (q + 1) * 2 ^ (58 - s)" by simp
  have "round_shift (n * ?M) s div 2 ^ (58 - s) = q"
    using lo up by (intro int_div_pos_eq [where r = "round_shift (n * ?M) s - q * 2 ^ (58 - s)"])
      (simp_all add: algebra_simps)
  then show ?thesis using eq by (simp add: pct_default_def q_def)
qed

end
