(* ===== verification/World.thy ===== *)
theory World
  imports Database Float64
begin

text \<open>
  The computations of the services: functions from a world to a result and a world. The world
  holds the database and, as parameters, everything the code reads from outside: the UUID
  generator, the clock, which SQL statements reach the server, and what the HTTP peers
  answer, each indexed by the number of uses so far.

  A statement that fails is an \<open>Inl\<close>; a transaction that ends in an error, or whose commit
  fails, leaves the database as it found it. Transactions are atomic: the code locks the rows
  it changes (\<open>FOR UPDATE\<close>), so the transactions on one payment are serialised.
  Logging, metrics and tracing have no counterpart.
\<close>

section \<open>The world\<close>

record world =
  wdb :: database
  wlib :: lib
  uuid_src :: "nat \<Rightarrow> uuid"
  uuid_next :: nat
  clock_src :: "nat \<Rightarrow> time"
  clock_next :: nat
  tx_now :: "time option"
  stmt_ok :: "nat \<Rightarrow> bool"
  stmt_next :: nat
  http_src :: "nat \<Rightarrow> http_request \<Rightarrow> http_outcome"
  http_log :: "http_request list"

type_synonym 'a M = "world \<Rightarrow> (app_error + 'a) \<times> world"

section \<open>Combinators\<close>

definition ok :: "'a \<Rightarrow> 'a M" where
  "ok a = (\<lambda>w. (Inr a, w))"

definition err :: "app_error \<Rightarrow> 'a M" where
  "err e = (\<lambda>w. (Inl e, w))"

text \<open>A panic of the running task, which none of the services handles.\<close>

definition panicked :: app_error where
  "panicked = Internal ''byte index is not a char boundary''"

text \<open>Sequencing: the \<open>?\<close> operator returns early on an error.\<close>

definition and_then :: "'a M \<Rightarrow> ('a \<Rightarrow> 'b M) \<Rightarrow> 'b M" where
  "and_then m f = (\<lambda>w. case m w of (Inl e, w') \<Rightarrow> (Inl e, w') | (Inr a, w') \<Rightarrow> f a w')"

text \<open>\<open>match m { Err(e) => h(e), Ok(a) => k(a) }\<close>.\<close>

definition match_result :: "'a M \<Rightarrow> (app_error \<Rightarrow> 'b M) \<Rightarrow> ('a \<Rightarrow> 'b M) \<Rightarrow> 'b M" where
  "match_result m h k = (\<lambda>w. case m w of (Inl e, w') \<Rightarrow> h e w' | (Inr a, w') \<Rightarrow> k a w')"

definition ok_or :: "app_error \<Rightarrow> 'a option \<Rightarrow> 'a M" where
  "ok_or e v = (case v of None \<Rightarrow> err e | Some a \<Rightarrow> ok a)"

definition of_result :: "app_error + 'a \<Rightarrow> 'a M" where
  "of_result r = (case r of Inl e \<Rightarrow> err e | Inr a \<Rightarrow> ok a)"

definition read_lib :: "(lib \<Rightarrow> 'a) \<Rightarrow> 'a M" where
  "read_lib f = (\<lambda>w. (Inr (f (wlib w)), w))"

definition new_v4 :: "uuid M" where
  "new_v4 = (\<lambda>w. (Inr (uuid_src w (uuid_next w)), w\<lparr>uuid_next := Suc (uuid_next w)\<rparr>))"

definition utc_now :: "time M" where
  "utc_now = (\<lambda>w. (Inr (clock_src w (clock_next w)), w\<lparr>clock_next := Suc (clock_next w)\<rparr>))"

lemma and_then_InrE:
  assumes "and_then m f w = (Inr b, w')"
  obtains a v where "m w = (Inr a, v)" and "f a v = (Inr b, w')"
  using assms by (auto simp: and_then_def split: prod.splits sum.splits)

lemma ok_eq [simp]: "ok a w = (x, v) \<longleftrightarrow> x = Inr a \<and> v = w"
  by (auto simp: ok_def)

lemma err_eq [simp]: "err e w = (x, v) \<longleftrightarrow> x = Inl e \<and> v = w"
  by (auto simp: err_def)

section \<open>SQL\<close>

definition db_fail :: "world \<Rightarrow> sql_failure \<Rightarrow> app_error" where
  "db_fail w f = Database (db_error (wlib w) f)"

text \<open>
  The background services return \<open>anyhow\<close> errors, which keep the library's error and print its
  message without the prefix \<open>AppError\<close> puts before it.
\<close>

fun anyhow_text :: "app_error \<Rightarrow> string" where
  "anyhow_text (Database s) = s"
| "anyhow_text e = error_to_string e"

text \<open>An \<open>anyhow\<close> error with a text of its own.\<close>

definition anyhow_error :: "string \<Rightarrow> app_error" where
  "anyhow_error s = Database s"

lemma anyhow_error_text [simp]: "anyhow_text (anyhow_error s) = s"
  by (simp add: anyhow_error_def)

text \<open>
  A statement is a function of \<open>NOW()\<close> and the database. Inside a transaction \<open>NOW()\<close> is the
  instant of its BEGIN; a statement outside one is a transaction of its own.
\<close>

type_synonym 'a stmt = "time \<Rightarrow> database \<Rightarrow> sql_failure + ('a \<times> database)"

definition run_stmt :: "'a stmt \<Rightarrow> time \<Rightarrow> 'a M" where
  "run_stmt f t = (\<lambda>w. case f t (wdb w) of
       Inl x \<Rightarrow> (Inl (db_fail w x), w)
     | Inr (a, d) \<Rightarrow>
         if tx_now w = None \<and> \<not> commit_ok d then (Inl (db_fail w ConstraintViolated), w)
         else (Inr a, w\<lparr>wdb := d\<rparr>))"

definition tick_stmt :: "world \<Rightarrow> world" where
  "tick_stmt w = w\<lparr>stmt_next := Suc (stmt_next w)\<rparr>"

definition sql :: "'a stmt \<Rightarrow> 'a M" where
  "sql f = (\<lambda>w.
     if \<not> stmt_ok w (stmt_next w) then (Inl (db_fail w ConnectionLost), tick_stmt w)
     else (case tx_now w of
         Some t \<Rightarrow> run_stmt f t (tick_stmt w)
       | None \<Rightarrow> and_then utc_now (run_stmt f) (tick_stmt w)))"

text \<open>Statements that change nothing, always succeed, or may violate a constraint.\<close>

definition select_stmt :: "(database \<Rightarrow> 'a) \<Rightarrow> 'a stmt" where
  "select_stmt f = (\<lambda>t d. Inr (f d, d))"

definition update_stmt :: "(time \<Rightarrow> database \<Rightarrow> database) \<Rightarrow> unit stmt" where
  "update_stmt f = (\<lambda>t d. Inr ((), f t d))"

definition insert_stmt :: "(time \<Rightarrow> database \<Rightarrow> database option) \<Rightarrow> unit stmt" where
  "insert_stmt f = (\<lambda>t d. case f t d of None \<Rightarrow> Inl ConstraintViolated | Some d' \<Rightarrow> Inr ((), d'))"

text \<open>\<open>db.begin() \<dots> tx.commit()\<close>; dropping the transaction rolls it back.\<close>

definition begin_tx :: "unit M" where
  "begin_tx = (\<lambda>w.
     if \<not> stmt_ok w (stmt_next w) then (Inl (db_fail w ConnectionLost), tick_stmt w)
     else and_then utc_now (\<lambda>t w. (Inr (), w\<lparr>tx_now := Some t\<rparr>)) (tick_stmt w))"

definition end_tx :: "database \<Rightarrow> (app_error + 'a) \<times> world \<Rightarrow> (app_error + 'a) \<times> world" where
  "end_tx d r = (case r of
       (Inl e, w) \<Rightarrow> (Inl e, w\<lparr>wdb := d, tx_now := None\<rparr>)
     | (Inr a, w) \<Rightarrow>
         let w' = (tick_stmt w)\<lparr>tx_now := None\<rparr> in
         if \<not> stmt_ok w (stmt_next w) then (Inl (db_fail w ConnectionLost), w'\<lparr>wdb := d\<rparr>)
         else if \<not> commit_ok (wdb w) then (Inl (db_fail w ConstraintViolated), w'\<lparr>wdb := d\<rparr>)
         else (Inr a, w'))"

definition transaction :: "'a M \<Rightarrow> 'a M" where
  "transaction m = and_then begin_tx (\<lambda>_ w. end_tx (wdb w) (m w))"

text \<open>\<open>tx.rollback().await?; return Err(e)\<close>.\<close>

definition rollback_with :: "app_error \<Rightarrow> 'a M" where
  "rollback_with e = and_then (sql (update_stmt (\<lambda>t d. d))) (\<lambda>_. err e)"

section \<open>HTTP\<close>

definition http_send :: "http_request \<Rightarrow> http_outcome M" where
  "http_send q = (\<lambda>w. (Inr (http_src w (length (http_log w)) q), w\<lparr>http_log := http_log w @ [q]\<rparr>))"

section \<open>Weakest preconditions\<close>

text \<open>
  \<open>wp m Q E w\<close>: running \<open>m\<close> in \<open>w\<close> ends in a result and a world that satisfy \<open>Q\<close>, or in an
  error and a world that satisfy \<open>E\<close>. The equations in the collection \<open>wp\<close> compute it over
  the structure of the code.
\<close>

definition wp :: "'a M \<Rightarrow> ('a \<Rightarrow> world \<Rightarrow> bool) \<Rightarrow> (app_error \<Rightarrow> world \<Rightarrow> bool) \<Rightarrow> world \<Rightarrow> bool" where
  "wp m Q E w = (case m w of (Inl e, w') \<Rightarrow> E e w' | (Inr a, w') \<Rightarrow> Q a w')"

lemma wp_ok [wp]: "wp (ok a) Q E w = Q a w"
  by (simp add: wp_def ok_def)

lemma wp_err [wp]: "wp (err e) Q E w = E e w"
  by (simp add: wp_def err_def)

lemma wp_and_then [wp]: "wp (and_then m f) Q E w = wp m (\<lambda>a. wp (f a) Q E) E w"
  by (simp add: wp_def and_then_def split: prod.split sum.split)

lemma wp_match_result [wp]:
  "wp (match_result m h k) Q E w = wp m (\<lambda>a. wp (k a) Q E) (\<lambda>e. wp (h e) Q E) w"
  by (simp add: wp_def match_result_def split: prod.split sum.split)

lemma wp_ok_or [wp]:
  "wp (ok_or e v) Q E w = (case v of None \<Rightarrow> E e w | Some a \<Rightarrow> Q a w)"
  by (simp add: ok_or_def wp_ok wp_err split: option.split)

lemma wp_of_result [wp]:
  "wp (of_result r) Q E w = (case r of Inl e \<Rightarrow> E e w | Inr a \<Rightarrow> Q a w)"
  by (simp add: of_result_def wp_ok wp_err split: sum.split)

lemma wp_if [wp]: "wp (if b then m else n) Q E w = (if b then wp m Q E w else wp n Q E w)"
  by simp

lemma wp_case_option [wp]:
  "wp (case v of None \<Rightarrow> m | Some a \<Rightarrow> f a) Q E w =
     (case v of None \<Rightarrow> wp m Q E w | Some a \<Rightarrow> wp (f a) Q E w)"
  by (simp split: option.split)

lemma wp_case_prod [wp]:
  "wp (case p of (a, b) \<Rightarrow> f a b) Q E w = (case p of (a, b) \<Rightarrow> wp (f a b) Q E w)"
  by (simp split: prod.split)

lemma wp_read_lib [wp]: "wp (read_lib f) Q E w = Q (f (wlib w)) w"
  by (simp add: wp_def read_lib_def)

lemma wp_new_v4 [wp]:
  "wp new_v4 Q E w = Q (uuid_src w (uuid_next w)) (w\<lparr>uuid_next := Suc (uuid_next w)\<rparr>)"
  by (simp add: wp_def new_v4_def)

lemma wp_utc_now [wp]:
  "wp utc_now Q E w = Q (clock_src w (clock_next w)) (w\<lparr>clock_next := Suc (clock_next w)\<rparr>)"
  by (simp add: wp_def utc_now_def)

lemma wp_http_send [wp]:
  "wp (http_send q) Q E w =
     Q (http_src w (length (http_log w)) q) (w\<lparr>http_log := http_log w @ [q]\<rparr>)"
  by (simp add: wp_def http_send_def)

text \<open>Consequence, and the step from a triple to a fact about the result.\<close>

lemma wp_mono:
  assumes "wp m Q E w" and "\<And>a w'. Q a w' \<Longrightarrow> Q' a w'" and "\<And>e w'. E e w' \<Longrightarrow> E' e w'"
  shows "wp m Q' E' w"
  using assms by (auto simp: wp_def split: prod.splits sum.splits)

lemma wp_conj: "wp m Q E w \<Longrightarrow> wp m Q' E' w \<Longrightarrow> wp m (\<lambda>a w. Q a w \<and> Q' a w) (\<lambda>e w. E e w \<and> E' e w) w"
  by (auto simp: wp_def split: prod.splits sum.splits)

lemma wp_InrD: "\<lbrakk>wp m Q E w; m w = (Inr a, w')\<rbrakk> \<Longrightarrow> Q a w'"
  by (simp add: wp_def)

lemma wp_InlD: "\<lbrakk>wp m Q E w; m w = (Inl e, w')\<rbrakk> \<Longrightarrow> E e w'"
  by (simp add: wp_def)

lemma wpI: "\<lbrakk>\<And>a w'. m w = (Inr a, w') \<Longrightarrow> Q a w'; \<And>e w'. m w = (Inl e, w') \<Longrightarrow> E e w'\<rbrakk> \<Longrightarrow> wp m Q E w"
  by (auto simp: wp_def split: prod.split sum.split)

section \<open>What a computation leaves alone\<close>

text \<open>
  The parts of the world no computation of the services writes, and the counters they only
  move forward: \<open>advances w w'\<close> holds between the world before and after every computation
  built from the primitives above.
\<close>

definition advances :: "world \<Rightarrow> world \<Rightarrow> bool" where
  "advances w w' \<longleftrightarrow> wlib w' = wlib w \<and> uuid_src w' = uuid_src w \<and> clock_src w' = clock_src w \<and>
     stmt_ok w' = stmt_ok w \<and> http_src w' = http_src w \<and> uuid_next w \<le> uuid_next w' \<and>
     (\<exists>qs. http_log w' = http_log w @ qs)"

lemma advances_refl [simp]: "advances w w"
  by (simp add: advances_def)

lemma advances_trans: "advances u v \<Longrightarrow> advances v w \<Longrightarrow> advances u w"
  by (auto simp: advances_def)

end
