(* ===== verification/Payment_Db.thy ===== *)
theory Payment_Db
  imports World
begin

text \<open>
  \<open>crates/payment-service/src/db.rs\<close>: the SQL statements of the payment service over the
  tables of \<open>Database\<close>, the JSON in which a payment method is stored, and what a row becomes
  when it is read back. A function that takes the connection pool or a transaction is the same
  computation here: \<open>sql\<close> looks at \<open>tx_now\<close> to tell the two apart.
\<close>

section \<open>The payment method as JSON\<close>

fun card_brand_str :: "card_brand \<Rightarrow> string" where
  "card_brand_str Visa = ''visa''"
| "card_brand_str Mastercard = ''mastercard''"
| "card_brand_str Amex = ''amex''"
| "card_brand_str Discover = ''discover''"
| "card_brand_str Rupay = ''rupay''"
| "card_brand_str UnknownBrand = ''unknown''"

fun wallet_provider_str :: "wallet_provider \<Rightarrow> string" where
  "wallet_provider_str Paytm = ''Paytm''"
| "wallet_provider_str PhonePe = ''PhonePe''"
| "wallet_provider_str GooglePay = ''GooglePay''"
| "wallet_provider_str AmazonPay = ''AmazonPay''"

text \<open>The variant a name stands for, among the variants listed.\<close>

definition variant :: "('a \<Rightarrow> string) \<Rightarrow> 'a list \<Rightarrow> json \<Rightarrow> 'a option" where
  "variant show_it vs j =
     (case as_str j of None \<Rightarrow> None | Some s \<Rightarrow> find (\<lambda>v. show_it v = s) vs)"

definition card_brands :: "card_brand list" where
  "card_brands = [Visa, Mastercard, Amex, Discover, Rupay, UnknownBrand]"

definition wallet_providers :: "wallet_provider list" where
  "wallet_providers = [Paytm, PhonePe, GooglePay, AmazonPay]"

text \<open>Unsigned integers of a given width, and optional strings.\<close>

definition as_unsigned :: "json \<Rightarrow> ('w::len) word option" where
  "as_unsigned j = (case j of JNum n \<Rightarrow> if 0 \<le> n \<and> n < 2 ^ LENGTH('w) then Some (word_of_int n) else None
     | _ \<Rightarrow> None)"

definition as_opt_str :: "json \<Rightarrow> string option option" where
  "as_opt_str j = (case j of JNull \<Rightarrow> Some None | JStr s \<Rightarrow> Some (Some s) | _ \<Rightarrow> None)"

text \<open>\<open>#[serde(tag = "type", rename_all = "snake_case")]\<close>: the tag first, then the fields.\<close>

fun pm_to_json :: "payment_method \<Rightarrow> json" where
  "pm_to_json (Card c) = JObj [(''type'', JStr ''card''), (''token'', JStr (cd_token c)),
     (''last4'', JStr (cd_last4 c)), (''brand'', JStr (card_brand_str (cd_brand c))),
     (''exp_month'', JNum (uint (cd_exp_month c))), (''exp_year'', JNum (uint (cd_exp_year c))),
     (''name'', jopt JStr (cd_name c)), (''country'', jopt JStr (cd_country c))]"
| "pm_to_json (Upi u) = JObj [(''type'', JStr ''upi''), (''vpa'', JStr (upi_vpa u)),
     (''bank_name'', jopt JStr (upi_bank_name u))]"
| "pm_to_json (NetBanking n) = JObj [(''type'', JStr ''net_banking''),
     (''bank_code'', JStr (nb_bank_code n)), (''bank_name'', JStr (nb_bank_name n))]"
| "pm_to_json (Wallet p) = JObj [(''type'', JStr ''wallet''),
     (''provider'', JStr (wallet_provider_str p))]"

definition card_from_json :: "json \<Rightarrow> card_details option" where
  "card_from_json j =
     (case (as_str (jget j ''token''), as_str (jget j ''last4''),
            variant card_brand_str card_brands (jget j ''brand''),
            as_unsigned (jget j ''exp_month''), as_unsigned (jget j ''exp_year''),
            as_opt_str (jget j ''name''), as_opt_str (jget j ''country'')) of
       (Some t, Some l, Some b, Some m, Some y, Some n, Some c) \<Rightarrow>
         Some \<lparr>cd_token = t, cd_last4 = l, cd_brand = b, cd_exp_month = m, cd_exp_year = y,
               cd_name = n, cd_country = c\<rparr>
     | _ \<Rightarrow> None)"

definition upi_from_json :: "json \<Rightarrow> upi_details option" where
  "upi_from_json j = (case (as_str (jget j ''vpa''), as_opt_str (jget j ''bank_name'')) of
       (Some v, Some b) \<Rightarrow> Some \<lparr>upi_vpa = v, upi_bank_name = b\<rparr>
     | _ \<Rightarrow> None)"

definition net_banking_from_json :: "json \<Rightarrow> net_banking_details option" where
  "net_banking_from_json j = (case (as_str (jget j ''bank_code''), as_str (jget j ''bank_name'')) of
       (Some c, Some n) \<Rightarrow> Some \<lparr>nb_bank_code = c, nb_bank_name = n\<rparr>
     | _ \<Rightarrow> None)"

definition pm_from_json :: "json \<Rightarrow> payment_method option" where
  "pm_from_json j =
     (if jget j ''type'' = JStr ''card'' then map_option Card (card_from_json j)
      else if jget j ''type'' = JStr ''upi'' then map_option Upi (upi_from_json j)
      else if jget j ''type'' = JStr ''net_banking'' then map_option NetBanking (net_banking_from_json j)
      else if jget j ''type'' = JStr ''wallet''
        then map_option Wallet (variant wallet_provider_str wallet_providers (jget j ''provider''))
      else None)"

lemma as_opt_str_jopt [simp]: "as_opt_str (jopt JStr v) = Some v"
  by (cases v) (simp_all add: as_opt_str_def)

lemma as_unsigned_uint [simp]: "as_unsigned (JNum (uint w)) = Some (w :: ('w :: len) word)"
  using uint_bounded [of w] by (simp add: as_unsigned_def)

lemma variant_brand [simp]: "variant card_brand_str card_brands (JStr (card_brand_str b)) = Some b"
  by (cases b) (simp_all add: variant_def card_brands_def)

lemma variant_provider [simp]:
  "variant wallet_provider_str wallet_providers (JStr (wallet_provider_str p)) = Some p"
  by (cases p) (simp_all add: variant_def wallet_providers_def)

section \<open>Rows\<close>

definition row_to_payment :: "payment_row \<Rightarrow> payment" where
  "row_to_payment r = \<lparr>pay_id = pay_id r, pay_merchant_id = pay_merchant_id r,
     pay_order_id = pay_order_id r, pay_amount = pay_amount r, pay_currency = pay_currency r,
     pay_status = pay_status r,
     pay_payment_method =
       (case pay_payment_method r of None \<Rightarrow> None | Some v \<Rightarrow> pm_from_json v),
     pay_description = pay_description r, pay_metadata = unwrap_or (pay_metadata r) (JObj []),
     pay_acquirer_id = pay_acquirer_id r, pay_acquirer_reference = pay_acquirer_reference r,
     pay_failure_code = pay_failure_code r, pay_failure_message = pay_failure_message r,
     pay_capture_method = pay_capture_method r, pay_captured_amount = pay_captured_amount r,
     pay_refunded_amount = pay_refunded_amount r, pay_idempotency_key = pay_idempotency_key r,
     pay_created_at = pay_created_at r, pay_updated_at = pay_updated_at r,
     pay_captured_at = pay_captured_at r, pay_settled_at = pay_settled_at r,
     pay_expires_at = pay_expires_at r\<rparr>"

text \<open>The row an INSERT of a payment creates: the columns it does not name are NULL or 0.\<close>

definition new_payment_row :: "payment \<Rightarrow> payment_row" where
  "new_payment_row p = \<lparr>pay_id = pay_id p, pay_merchant_id = pay_merchant_id p,
     pay_order_id = pay_order_id p, pay_amount = pay_amount p, pay_currency = pay_currency p,
     pay_status = pay_status p,
     pay_payment_method = Some (jopt pm_to_json (pay_payment_method p)),
     pay_description = pay_description p, pay_metadata = Some (pay_metadata p),
     pay_acquirer_id = None, pay_acquirer_reference = None,
     pay_failure_code = None, pay_failure_message = None,
     pay_capture_method = pay_capture_method p, pay_captured_amount = pay_captured_amount p,
     pay_refunded_amount = 0, pay_idempotency_key = pay_idempotency_key p,
     pay_created_at = pay_created_at p, pay_updated_at = pay_updated_at p,
     pay_captured_at = None, pay_settled_at = None, pay_expires_at = pay_expires_at p\<rparr>"

definition row_to_refund :: "refund \<Rightarrow> refund" where
  "row_to_refund r = r"

section \<open>Payments\<close>

text \<open>
  \<open>INSERT \<dots> ON CONFLICT \<dots> DO NOTHING RETURNING id\<close>: the CHECK comes first, then the
  conflict on the idempotency index, then the other constraints.
\<close>

definition insert_payment_stmt :: "payment_row \<Rightarrow> uuid option stmt" where
  "insert_payment_stmt p = (\<lambda>t d.
     if \<not> 0 < pay_amount p then Inl ConstraintViolated
     else if list_ex (\<lambda>q. same_key (pay_merchant_id q) (pay_idempotency_key q)
                           (pay_merchant_id p) (pay_idempotency_key p)) (payments d)
       then Inr (None, d)
     else if payment_insertable d p
       then Inr (Some (pay_id p), d\<lparr>payments := payments d @ [p]\<rparr>)
     else Inl ConstraintViolated)"

definition find_by_key :: "uuid \<Rightarrow> string option \<Rightarrow> database \<Rightarrow> payment_row option" where
  "find_by_key m k d = find (\<lambda>q. pay_merchant_id q = m \<and> pay_idempotency_key q = k \<and> k \<noteq> None) (payments d)"

definition insert_payment_idempotent :: "payment \<Rightarrow> (uuid \<times> bool) M" where
  "insert_payment_idempotent p =
     and_then (sql (insert_payment_stmt (new_payment_row p))) (\<lambda>returned_id.
     case returned_id of
       Some i \<Rightarrow> ok (i, True)
     | None \<Rightarrow>
         and_then (sql (\<lambda>t d. case find_by_key (pay_merchant_id p) (pay_idempotency_key p) d of
             None \<Rightarrow> Inl RowNotFound
           | Some q \<Rightarrow> Inr (pay_id q, d))) (\<lambda>existing_id.
         ok (existing_id, False)))"

definition select_payment :: "uuid \<Rightarrow> uuid \<Rightarrow> database \<Rightarrow> payment_row option" where
  "select_payment i m d = find (\<lambda>r. pay_id r = i \<and> pay_merchant_id r = m) (payments d)"

definition payment_not_found :: "lib \<Rightarrow> uuid \<Rightarrow> app_error" where
  "payment_not_found l i = NotFound (''Payment '' @ uuid_show l i @ '' not found'')"

definition lock_payment_for_update :: "uuid \<Rightarrow> uuid \<Rightarrow> payment M" where
  "lock_payment_for_update i m =
     and_then (sql (select_stmt (select_payment i m))) (\<lambda>row.
     and_then (read_lib (\<lambda>l. payment_not_found l i)) (\<lambda>e.
     and_then (ok_or e row) (\<lambda>r. ok (row_to_payment r))))"

definition set_payments :: "uuid \<Rightarrow> (payment_row \<Rightarrow> payment_row) \<Rightarrow> database \<Rightarrow> database" where
  "set_payments i f d = d\<lparr>payments := upd_where (\<lambda>r. pay_id r = i) f (payments d)\<rparr>"

definition charge_row :: "time \<Rightarrow> payment \<Rightarrow> payment_row \<Rightarrow> payment_row" where
  "charge_row t p r = r\<lparr>pay_status := pay_status p, pay_acquirer_id := pay_acquirer_id p,
     pay_acquirer_reference := pay_acquirer_reference p, pay_captured_at := pay_captured_at p,
     pay_captured_amount := pay_captured_amount p, pay_updated_at := t\<rparr>"

definition update_payment_after_charge :: "payment \<Rightarrow> unit M" where
  "update_payment_after_charge p =
     sql (update_stmt (\<lambda>t. set_payments (pay_id p) (charge_row t p)))"

definition status_row ::
  "time \<Rightarrow> payment_status \<Rightarrow> string option \<Rightarrow> string option \<Rightarrow> payment_row \<Rightarrow> payment_row" where
  "status_row t st c msg r = r\<lparr>pay_status := st, pay_failure_code := c,
     pay_failure_message := msg, pay_updated_at := t\<rparr>"

definition update_payment_status ::
  "uuid \<Rightarrow> payment_status \<Rightarrow> string option \<Rightarrow> string option \<Rightarrow> unit M" where
  "update_payment_status i st c msg =
     sql (update_stmt (\<lambda>t. set_payments i (status_row t st c msg)))"

text \<open>
  The guarded increment. \<open>refunded_amount + $2\<close> is BIGINT arithmetic: out of range is an
  error of the statement.
\<close>

definition refund_row :: "time \<Rightarrow> i64 \<Rightarrow> payment_row \<Rightarrow> payment_row" where
  "refund_row t n r = r\<lparr>pay_refunded_amount := pay_refunded_amount r + n, pay_updated_at := t\<rparr>"

definition refund_fits :: "i64 \<Rightarrow> payment_row \<Rightarrow> bool" where
  "refund_fits n r = (pay_refunded_amount r + n \<le> effective_amount r)"

definition increment_stmt :: "uuid \<Rightarrow> i64 \<Rightarrow> nat stmt" where
  "increment_stmt i n = (\<lambda>t d.
     if list_ex (\<lambda>r. pay_id r = i \<and> \<not> i64_range (pay_refunded_amount r + n)) (payments d)
     then Inl OutOfRange
     else Inr (length (filter (\<lambda>r. pay_id r = i \<and> refund_fits n r) (payments d)),
       d\<lparr>payments := upd_where (\<lambda>r. pay_id r = i \<and> refund_fits n r) (refund_row t n) (payments d)\<rparr>))"

definition increment_refunded_amount :: "uuid \<Rightarrow> i64 \<Rightarrow> unit M" where
  "increment_refunded_amount i n =
     and_then (sql (increment_stmt i n)) (\<lambda>rows_affected.
     if rows_affected = 0 then err (AmountExceedsLimit n 0) else ok ())"

definition settled_row :: "time \<Rightarrow> payment_row \<Rightarrow> payment_row" where
  "settled_row t r = r\<lparr>pay_status := Settled, pay_settled_at := Some t, pay_updated_at := t\<rparr>"

definition mark_payment_settled :: "uuid \<Rightarrow> unit M" where
  "mark_payment_settled i = sql (update_stmt (\<lambda>t d. d\<lparr>payments :=
     upd_where (\<lambda>r. pay_id r = i \<and> pay_status r = Captured) (settled_row t) (payments d)\<rparr>))"

section \<open>Outbox and refunds\<close>

text \<open>The event's own id is \<open>gen_random_uuid()\<close>: one more draw.\<close>

definition insert_outbox_event :: "string \<Rightarrow> uuid \<Rightarrow> string \<Rightarrow> json \<Rightarrow> string \<Rightarrow> unit M" where
  "insert_outbox_event aggregate_type aggregate_id event_type payload topic =
     and_then new_v4 (\<lambda>i. sql (insert_stmt (\<lambda>t. insert_outbox_row
       \<lparr>ob_id = i, ob_aggregate_type = aggregate_type, ob_aggregate_id = aggregate_id,
        ob_event_type = event_type, ob_payload = payload, ob_topic = topic,
        ob_published = False, ob_failed_attempts = 0, ob_last_error = None,
        ob_created_at = t, ob_published_at = None, ob_locked_at = None\<rparr>)))"

definition insert_refund_stmt :: "refund \<Rightarrow> unit stmt" where
  "insert_refund_stmt r = (\<lambda>t d.
     if \<not> 0 < rf_amount r then Inl ConstraintViolated
     else if list_ex (\<lambda>q. same_key (rf_merchant_id q) (rf_idempotency_key q)
                           (rf_merchant_id r) (rf_idempotency_key r)) (refunds d)
       then Inr ((), d)
     else if refund_insertable d r then Inr ((), d\<lparr>refunds := refunds d @ [r]\<rparr>)
     else Inl ConstraintViolated)"

definition new_refund_row :: "refund \<Rightarrow> refund" where
  "new_refund_row r = r\<lparr>rf_acquirer_refund_id := None, rf_failure_reason := None\<rparr>"

definition insert_refund :: "refund \<Rightarrow> unit M" where
  "insert_refund r = sql (insert_refund_stmt (new_refund_row r))"

definition refund_status_row ::
  "time \<Rightarrow> refund_status \<Rightarrow> string option \<Rightarrow> string option \<Rightarrow> refund \<Rightarrow> refund" where
  "refund_status_row t st a f r = r\<lparr>rf_status := st, rf_acquirer_refund_id := a,
     rf_failure_reason := f, rf_updated_at := t\<rparr>"

definition update_refund_status ::
  "uuid \<Rightarrow> refund_status \<Rightarrow> string option \<Rightarrow> string option \<Rightarrow> unit M" where
  "update_refund_status i st a f = sql (update_stmt (\<lambda>t d.
     d\<lparr>refunds := upd_where (\<lambda>r. rf_id r = i) (refund_status_row t st a f) (refunds d)\<rparr>))"

section \<open>Queries\<close>

definition find_payment_by_id :: "uuid \<Rightarrow> uuid \<Rightarrow> payment option M" where
  "find_payment_by_id i m =
     and_then (sql (select_stmt (select_payment i m))) (\<lambda>row. ok (map_option row_to_payment row))"

definition find_by_idempotency_key :: "uuid \<Rightarrow> string \<Rightarrow> payment option M" where
  "find_by_idempotency_key m k =
     and_then (sql (select_stmt (find_by_key m (Some k)))) (\<lambda>row.
     case row of Some r \<Rightarrow> find_payment_by_id (pay_id r) m | None \<Rightarrow> ok None)"

text \<open>
  \<open>ORDER BY created_at DESC\<close>: newest first; the sort is stable, one of the orders SQL may
  give to rows of the same instant.
\<close>

definition newest_first :: "('a \<Rightarrow> time) \<Rightarrow> 'a list \<Rightarrow> 'a list" where
  "newest_first key xs = sort_key (\<lambda>x. - key x) xs"

definition page_of :: "i64 \<Rightarrow> i64 \<Rightarrow> 'a list \<Rightarrow> 'a list" where
  "page_of offset limit xs = take (nat limit) (drop (nat offset) xs)"

definition list_payments :: "uuid \<Rightarrow> pagination_params \<Rightarrow> payment paginated_response M" where
  "list_payments m pg =
     (let per_page = uint (min (pg_per_page pg) 100);
          offset = (if pg_page pg = 0 then 0 else uint (pg_page pg) - 1) * per_page;
          mine = (\<lambda>d. filter (\<lambda>r. pay_merchant_id r = m) (payments d))
      in and_then (sql (select_stmt (\<lambda>d. int (length (mine d))))) (\<lambda>total.
         and_then (sql (select_stmt (\<lambda>d. page_of offset per_page (newest_first pay_created_at (mine d)))))
           (\<lambda>rows.
         ok \<lparr>pr_data = map row_to_payment rows, pr_total = total, pr_page = pg_page pg,
             pr_per_page = pg_per_page pg,
             pr_total_pages =
               f64_to_u32 (f64_ceil (f64_div (f64_of_int total) (f64_of_int per_page)))\<rparr>)))"

definition find_refunds_for_payment :: "uuid \<Rightarrow> uuid \<Rightarrow> refund list M" where
  "find_refunds_for_payment i m =
     and_then (sql (select_stmt (\<lambda>d. newest_first rf_created_at
       (filter (\<lambda>r. rf_payment_id r = i \<and> rf_merchant_id r = m) (refunds d))))) (\<lambda>rows.
     ok (map row_to_refund rows))"

end
