(* ===== verification/Transactions.thy ===== *)
theory Transactions
  imports World
begin

text \<open>
  Reasoning about the computations of a transaction and about transactions as a whole.
  \<open>txp l m Q d\<close>: when \<open>m\<close> runs inside a transaction that sees the database \<open>d\<close> and succeeds, it
  is still inside it and its result and the database satisfy \<open>Q\<close>. Errors are left out: they
  end the transaction and \<open>end_tx\<close> restores the database, which is what \<open>transaction_cases\<close>
  says. The rules are collected in \<open>txp_rules\<close> and are applied backwards with \<open>intro\<close>.
\<close>

section \<open>Inside a transaction\<close>

definition txp :: "lib \<Rightarrow> 'a M \<Rightarrow> ('a \<Rightarrow> database \<Rightarrow> bool) \<Rightarrow> database \<Rightarrow> bool" where
  "txp l m Q d = (\<forall>w. wdb w = d \<and> wlib w = l \<and> tx_now w \<noteq> None \<longrightarrow>
     (case m w of (Inl e, w') \<Rightarrow> True
       | (Inr a, w') \<Rightarrow> tx_now w' \<noteq> None \<and> wlib w' = l \<and> Q a (wdb w')))"

lemma txpD:
  "\<lbrakk>txp l m Q d; m w = (Inr a, w'); wdb w = d; wlib w = l; tx_now w \<noteq> None\<rbrakk> \<Longrightarrow>
     tx_now w' \<noteq> None \<and> wlib w' = l \<and> Q a (wdb w')"
  by (force simp: txp_def)

lemma txp_ok: "Q a d \<Longrightarrow> txp l (ok a) Q d"
  by (simp add: txp_def ok_def)

lemma txp_err: "txp l (err e) Q d"
  by (simp add: txp_def err_def)

lemma txp_and_then:
  assumes "txp l m (\<lambda>a. txp l (f a) Q) d"
  shows "txp l (and_then m f) Q d"
  unfolding txp_def
proof (intro allI impI)
  fix w :: world assume w: "wdb w = d \<and> wlib w = l \<and> tx_now w \<noteq> None"
  show "case and_then m f w of (Inl e, w') \<Rightarrow> True
      | (Inr a, w') \<Rightarrow> tx_now w' \<noteq> None \<and> wlib w' = l \<and> Q a (wdb w')"
  proof (cases "m w")
    case (Pair r v)
    show ?thesis
    proof (cases r)
      case (Inl e)
      with Pair show ?thesis by (simp add: and_then_def)
    next
      case (Inr a)
      with Pair assms w have v: "tx_now v \<noteq> None \<and> wlib v = l \<and> txp l (f a) Q (wdb v)"
        using txpD [OF assms, of w a v] by simp
      with Pair Inr show ?thesis
        using txpD [of l "f a" Q "wdb v" v]
        by (auto simp: and_then_def split: prod.split sum.split)
    qed
  qed
qed

lemma txp_if: "\<lbrakk>b \<Longrightarrow> txp l m Q d; \<not> b \<Longrightarrow> txp l n Q d\<rbrakk> \<Longrightarrow> txp l (if b then m else n) Q d"
  by simp

lemma txp_case_option:
  "\<lbrakk>v = None \<Longrightarrow> txp l m Q d; \<And>a. v = Some a \<Longrightarrow> txp l (f a) Q d\<rbrakk> \<Longrightarrow>
     txp l (case v of None \<Rightarrow> m | Some a \<Rightarrow> f a) Q d"
  by (simp split: option.split)

lemma txp_case_prod:
  "(\<And>a b. p = (a, b) \<Longrightarrow> txp l (f a b) Q d) \<Longrightarrow> txp l (case p of (a, b) \<Rightarrow> f a b) Q d"
  by (simp split: prod.split)

lemma txp_read_lib: "Q (f l) d \<Longrightarrow> txp l (read_lib f) Q d"
  by (auto simp: txp_def read_lib_def)

lemma txp_new_v4: "(\<And>u. Q u d) \<Longrightarrow> txp l new_v4 Q d"
  by (simp add: txp_def new_v4_def)

lemma txp_utc_now: "(\<And>t. Q t d) \<Longrightarrow> txp l utc_now Q d"
  by (simp add: txp_def utc_now_def)

lemma txp_ok_or: "(\<And>a. v = Some a \<Longrightarrow> Q a d) \<Longrightarrow> txp l (ok_or e v) Q d"
  by (simp add: ok_or_def txp_ok txp_err split: option.split)

lemma txp_of_result: "(\<And>a. r = Inr a \<Longrightarrow> Q a d) \<Longrightarrow> txp l (of_result r) Q d"
  by (simp add: of_result_def txp_ok txp_err split: sum.split)

lemma txp_sql: "(\<And>t a d'. f t d = Inr (a, d') \<Longrightarrow> Q a d') \<Longrightarrow> txp l (sql f) Q d"
  by (auto simp: txp_def sql_def run_stmt_def tick_stmt_def split: option.split sum.split prod.split)

lemma txp_select: "Q (f d) d \<Longrightarrow> txp l (sql (select_stmt f)) Q d"
  by (rule txp_sql) (simp add: select_stmt_def)

lemma txp_update: "(\<And>t. Q () (f t d)) \<Longrightarrow> txp l (sql (update_stmt f)) Q d"
  by (rule txp_sql) (auto simp: update_stmt_def)

lemma txp_insert: "(\<And>t d'. f t d = Some d' \<Longrightarrow> Q () d') \<Longrightarrow> txp l (sql (insert_stmt f)) Q d"
  by (rule txp_sql) (simp add: insert_stmt_def split: option.splits)

lemma txp_rollback: "txp l (rollback_with e) Q d"
  unfolding rollback_with_def by (intro txp_and_then txp_update txp_err)

lemma txp_mono: "\<lbrakk>txp l m Q d; \<And>a d'. Q a d' \<Longrightarrow> R a d'\<rbrakk> \<Longrightarrow> txp l m R d"
  by (fastforce simp: txp_def split: prod.splits sum.splits)

lemma txp_conj: "\<lbrakk>txp l m Q d; txp l m R d\<rbrakk> \<Longrightarrow> txp l m (\<lambda>a d. Q a d \<and> R a d) d"
  by (fastforce simp: txp_def split: prod.splits sum.splits)

lemmas txp_rules = txp_ok txp_err txp_and_then txp_if txp_case_option txp_case_prod txp_read_lib
  txp_new_v4 txp_utc_now txp_ok_or txp_of_result txp_select txp_update txp_insert txp_rollback

section \<open>Whole transactions\<close>

text \<open>A transaction commits what its body did, or changes nothing.\<close>

lemma transaction_cases:
  assumes "transaction m w = (r, w')" and "txp (wlib w) m Q (wdb w)"
  shows "(case r of Inl e \<Rightarrow> wdb w' = wdb w | Inr a \<Rightarrow> Q a (wdb w') \<and> tx_now w' = None \<and> wlib w' = wlib w)"
proof -
  consider (nb) "\<not> stmt_ok w (stmt_next w)" | (b) "stmt_ok w (stmt_next w)" by blast
  then show ?thesis
  proof cases
    case nb
    then show ?thesis using assms(1)
      by (auto simp: transaction_def and_then_def begin_tx_def tick_stmt_def)
  next
    case b
    define v where "v = (tick_stmt w)\<lparr>clock_next := Suc (clock_next w),
      tx_now := Some (clock_src w (clock_next w))\<rparr>"
    have "transaction m w = end_tx (wdb w) (m v)"
      using b by (simp add: transaction_def and_then_def begin_tx_def tick_stmt_def utc_now_def v_def)
    moreover have "wdb v = wdb w" "wlib v = wlib w" "tx_now v \<noteq> None"
      by (simp_all add: v_def tick_stmt_def)
    ultimately show ?thesis using assms
      by (auto simp: end_tx_def txp_def Let_def tick_stmt_def split: prod.splits sum.splits if_splits)
  qed
qed

lemma transaction_InrD:
  "\<lbrakk>transaction m w = (Inr a, w'); txp (wlib w) m Q (wdb w)\<rbrakk> \<Longrightarrow> Q a (wdb w')"
  using transaction_cases by fastforce

lemma transaction_InlD: "transaction m w = (Inl e, w') \<Longrightarrow> wdb w' = wdb w"
  by (auto simp: transaction_def begin_tx_def and_then_def end_tx_def tick_stmt_def utc_now_def Let_def
      split: prod.splits sum.splits if_splits)

section \<open>One statement\<close>

lemma sql_result:
  "sql f w = (x, w') \<Longrightarrow> wlib w' = wlib w \<and> tx_now w' = tx_now w \<and> http_log w' = http_log w \<and>
     (case x of Inl _ \<Rightarrow> wdb w' = wdb w | Inr a \<Rightarrow> \<exists>t. f t (wdb w) = Inr (a, wdb w'))"
  by (auto simp: sql_def run_stmt_def tick_stmt_def and_then_def utc_now_def
      split: option.splits sum.splits prod.splits if_splits)

lemma sql_http_src: "sql f w = (x, w') \<Longrightarrow> http_src w' = http_src w"
  by (auto simp: sql_def run_stmt_def tick_stmt_def and_then_def utc_now_def
      split: option.splits sum.splits prod.splits if_splits)

lemma sql_InrE:
  assumes "sql f w = (Inr a, w')"
  obtains t where "f t (wdb w) = Inr (a, wdb w')" and "wlib w' = wlib w" and "tx_now w' = tx_now w"
  using sql_result [OF assms] by auto

lemma sql_InlD: "sql f w = (Inl e, w') \<Longrightarrow> wdb w' = wdb w \<and> wlib w' = wlib w \<and> tx_now w' = tx_now w"
  using sql_result [of f w "Inl e" w'] by simp

lemma transaction_wlib:
  assumes "transaction m w = (x, w')" and "\<And>v y v'. m v = (y, v') \<Longrightarrow> wlib v' = wlib v"
  shows "wlib w' = wlib w"
  using assms by (fastforce simp: transaction_def begin_tx_def and_then_def end_tx_def tick_stmt_def utc_now_def Let_def
      split: prod.splits sum.splits if_splits)

lemma sql_select_InrD:
  "sql (select_stmt f) w = (Inr a, v) \<Longrightarrow> a = f (wdb w) \<and> wdb v = wdb w \<and> wlib v = wlib w \<and> tx_now v = tx_now w"
  by (auto elim!: sql_InrE simp: select_stmt_def)

text \<open>A statement that reaches the server and does not depend on the time succeeds.\<close>

lemma sql_runs:
  assumes "stmt_ok w (stmt_next w)" and "\<And>t. f t (wdb w) = Inr (a, d)" and "commit_ok d"
  shows "\<exists>v. sql f w = (Inr a, v) \<and> wdb v = d \<and> wlib v = wlib w \<and> stmt_ok v = stmt_ok w"
  using assms by (auto simp: sql_def run_stmt_def tick_stmt_def and_then_def utc_now_def split: option.split)

section \<open>Outside a transaction\<close>

text \<open>
  \<open>keeps P m\<close>: whatever \<open>m\<close> does to a database that satisfies \<open>P\<close>, it leaves one that
  satisfies \<open>P\<close>, success or error, and it is outside a transaction before and after.
\<close>

definition keeps :: "(database \<Rightarrow> bool) \<Rightarrow> 'a M \<Rightarrow> bool" where
  "keeps P m = (\<forall>w. tx_now w = None \<and> P (wdb w) \<longrightarrow>
     tx_now (snd (m w)) = None \<and> P (wdb (snd (m w))))"

lemma keeps_ok: "keeps P (ok a)"
  by (simp add: keeps_def ok_def)

lemma keeps_err: "keeps P (err e)"
  by (simp add: keeps_def err_def)

lemma keeps_and_then: "\<lbrakk>keeps P m; \<And>a. keeps P (f a)\<rbrakk> \<Longrightarrow> keeps P (and_then m f)"
  by (fastforce simp: keeps_def and_then_def split: prod.splits sum.splits)

lemma keeps_match_result:
  "\<lbrakk>keeps P m; \<And>e. keeps P (h e); \<And>a. keeps P (k a)\<rbrakk> \<Longrightarrow> keeps P (match_result m h k)"
  by (fastforce simp: keeps_def match_result_def split: prod.splits sum.splits)

lemma keeps_if: "\<lbrakk>b \<Longrightarrow> keeps P m; \<not> b \<Longrightarrow> keeps P n\<rbrakk> \<Longrightarrow> keeps P (if b then m else n)"
  by simp

lemma keeps_case_option:
  "\<lbrakk>keeps P m; \<And>a. keeps P (f a)\<rbrakk> \<Longrightarrow> keeps P (case v of None \<Rightarrow> m | Some a \<Rightarrow> f a)"
  by (simp split: option.split)

lemma keeps_case_prod: "(\<And>a b. keeps P (f a b)) \<Longrightarrow> keeps P (case p of (a, b) \<Rightarrow> f a b)"
  by (simp split: prod.split)

lemma keeps_case_http:
  "\<lbrakk>\<And>s. keeps P (f s); \<And>n b. keeps P (g n b)\<rbrakk> \<Longrightarrow>
     keeps P (case r of SendError s \<Rightarrow> f s | Response n b \<Rightarrow> g n b)"
  by (simp split: http_outcome.split)

lemma keeps_read_lib: "keeps P (read_lib f)"
  by (simp add: keeps_def read_lib_def)

lemma keeps_new_v4: "keeps P new_v4"
  by (simp add: keeps_def new_v4_def)

lemma keeps_utc_now: "keeps P utc_now"
  by (simp add: keeps_def utc_now_def)

lemma keeps_ok_or: "keeps P (ok_or e v)"
  by (simp add: ok_or_def keeps_ok keeps_err split: option.split)

lemma keeps_of_result: "keeps P (of_result r)"
  by (simp add: of_result_def keeps_ok keeps_err split: sum.split)

lemma keeps_http_send: "keeps P (http_send q)"
  by (simp add: keeps_def http_send_def)

lemma keeps_sql: "(\<And>t d a d'. \<lbrakk>P d; f t d = Inr (a, d')\<rbrakk> \<Longrightarrow> P d') \<Longrightarrow> keeps P (sql f)"
  by (fastforce simp: keeps_def sql_def run_stmt_def tick_stmt_def and_then_def utc_now_def
      split: option.split sum.split prod.split)

lemma keeps_select: "keeps P (sql (select_stmt f))"
  by (rule keeps_sql) (simp add: select_stmt_def)

lemma keeps_update: "(\<And>t d. P d \<Longrightarrow> P (f t d)) \<Longrightarrow> keeps P (sql (update_stmt f))"
  by (rule keeps_sql) (auto simp: update_stmt_def)

lemma keeps_insert: "(\<And>t d d'. \<lbrakk>P d; f t d = Some d'\<rbrakk> \<Longrightarrow> P d') \<Longrightarrow> keeps P (sql (insert_stmt f))"
  by (rule keeps_sql) (auto simp: insert_stmt_def split: option.splits)

lemma transaction_tx_now: "tx_now w = None \<Longrightarrow> tx_now (snd (transaction m w)) = None"
  by (simp add: transaction_def begin_tx_def and_then_def end_tx_def tick_stmt_def utc_now_def Let_def
      split: prod.splits sum.splits)

lemma keeps_transaction:
  assumes "\<And>l d. P d \<Longrightarrow> txp l m (\<lambda>_. P) d"
  shows "keeps P (transaction m)"
  unfolding keeps_def
proof (intro allI impI conjI)
  fix w :: world assume "tx_now w = None \<and> P (wdb w)"
  then show "tx_now (snd (transaction m w)) = None" "P (wdb (snd (transaction m w)))"
    using transaction_cases [of m w _ _ "\<lambda>_. P", OF surjective_pairing assms]
    by (auto simp: transaction_tx_now split: sum.splits)
qed

lemmas keeps_rules = keeps_ok keeps_err keeps_and_then keeps_match_result keeps_if keeps_case_option
  keeps_case_prod keeps_case_http keeps_read_lib keeps_new_v4 keeps_utc_now keeps_ok_or keeps_of_result
  keeps_http_send keeps_select keeps_update keeps_insert keeps_transaction

lemma keepsD: "\<lbrakk>keeps P m; tx_now w = None; P (wdb w); m w = (r, w')\<rbrakk> \<Longrightarrow> P (wdb w') \<and> tx_now w' = None"
  by (force simp: keeps_def)

end
