(* ===== verification/Crypto.thy ===== *)
theory Crypto
  imports Models
begin

text \<open>
  \<open>crates/common/src/crypto.rs\<close> over the third-party digests, encodings and ciphers of a
  \<open>lib\<close>: HMAC tags and their constant-time comparison, API keys and secrets, sealed data,
  the hash of a ledger entry and the webhook signature header with its verification. Random
  bytes and the clock are arguments.
\<close>

section \<open>Digests and tags\<close>

definition hmac_sha256 :: "lib \<Rightarrow> string \<Rightarrow> string \<Rightarrow> string" where
  "hmac_sha256 l key data = hex_encode l (hmac_digest l key data)"

definition byte_of :: "char \<Rightarrow> u8" where
  "byte_of c = of_char c"

text \<open>\<open>acc | (a ^ b)\<close> over the zipped bytes.\<close>

definition xor_fold :: "string \<Rightarrow> string \<Rightarrow> u8" where
  "xor_fold xs ys = foldl (\<lambda>acc p. or acc (xor (byte_of (fst p)) (byte_of (snd p)))) 0 (zip xs ys)"

definition verify_hmac_sha256 :: "lib \<Rightarrow> string \<Rightarrow> string \<Rightarrow> string \<Rightarrow> bool" where
  "verify_hmac_sha256 l key data expected_hex =
     (let computed = hmac_sha256 l key data
      in length computed = length expected_hex \<and> xor_fold computed expected_hex = 0)"

definition sha256_hex :: "lib \<Rightarrow> string \<Rightarrow> string" where
  "sha256_hex l data = hex_encode l (sha256_digest l data)"

definition hash_api_key :: "lib \<Rightarrow> string \<Rightarrow> string" where
  "hash_api_key l api_key = sha256_hex l api_key"

section \<open>Keys and secrets\<close>

definition generate_api_key :: "lib \<Rightarrow> string \<Rightarrow> bool \<Rightarrow> string" where
  "generate_api_key l bytes is_live =
     (if is_live then ''rp_live'' else ''rp_test'') @ ''_'' @ hex_encode l bytes"

definition generate_webhook_secret :: "lib \<Rightarrow> string \<Rightarrow> string" where
  "generate_webhook_secret l bytes = ''whsec_'' @ b64_encode l bytes"

definition generate_checkout_token :: "lib \<Rightarrow> string \<Rightarrow> string" where
  "generate_checkout_token l bytes =
     filter (\<lambda>c. c \<noteq> CHR ''='')
       (map (\<lambda>c. if c = CHR ''/'' then CHR ''_'' else c)
         (map (\<lambda>c. if c = CHR ''+'' then CHR ''-'' else c) (b64_encode l bytes)))"

section \<open>Sealed data\<close>

definition encrypt_aes256gcm :: "lib \<Rightarrow> string \<Rightarrow> string \<Rightarrow> string \<Rightarrow> app_error + string" where
  "encrypt_aes256gcm l nonce key_hex plaintext = (case hex_decode l key_hex of
       None \<Rightarrow> Inl (Config (''Invalid encryption key: '' @ hex_error l key_hex))
     | Some key \<Rightarrow>
         if length key \<noteq> 32
         then Inl (Config ''Encryption key must be exactly 32 bytes (64 hex chars)'')
         else (case aes_encrypt l key nonce plaintext of
             None \<Rightarrow> Inl (Internal (''Encryption failed: '' @ aes_error l))
           | Some ciphertext \<Rightarrow> Inr (b64_encode l (nonce @ ciphertext))))"

definition decrypt_aes256gcm :: "lib \<Rightarrow> string \<Rightarrow> string \<Rightarrow> app_error + string" where
  "decrypt_aes256gcm l key_hex ciphertext_b64 = (case hex_decode l key_hex of
       None \<Rightarrow> Inl (Config (''Invalid encryption key: '' @ hex_error l key_hex))
     | Some key \<Rightarrow>
         if length key \<noteq> 32 then Inl (Config ''Encryption key must be exactly 32 bytes'')
         else (case b64_decode l ciphertext_b64 of
             None \<Rightarrow> Inl (Internal (''Invalid base64 ciphertext: '' @ b64_error l ciphertext_b64))
           | Some combined \<Rightarrow>
               if length combined < 12 then Inl (Internal ''Ciphertext too short'')
               else (case aes_decrypt l key (take 12 combined) (drop 12 combined) of
                   None \<Rightarrow> Inl (Internal (''Decryption failed '' @ em_dash @ '' data may be tampered''))
                 | Some p \<Rightarrow> Inr p)))"

section \<open>The ledger hash\<close>

definition ledger_entry_hash :: "lib \<Rightarrow> string \<Rightarrow> string \<Rightarrow> i64 \<Rightarrow> i64 \<Rightarrow> string" where
  "ledger_entry_hash l prev_hash entry_id amount created_at_unix =
     sha256_hex l (prev_hash @ entry_id @ show_int amount @ show_int created_at_unix)"

section \<open>Webhook signatures\<close>

definition signed_payload :: "lib \<Rightarrow> i64 \<Rightarrow> string \<Rightarrow> string" where
  "signed_payload l ts payload = show_int ts @ ''.'' @ utf8_lossy l payload"

definition build_webhook_signature :: "lib \<Rightarrow> string \<Rightarrow> string \<Rightarrow> i64 \<Rightarrow> string" where
  "build_webhook_signature l secret payload ts =
     ''t='' @ show_int ts @ '',v1='' @ hmac_sha256 l secret (signed_payload l ts payload)"

text \<open>One part of the header: a later \<open>t=\<close> or \<open>v1=\<close> part replaces an earlier one.\<close>

definition header_part :: "i64 option \<times> string option \<Rightarrow> string \<Rightarrow> i64 option \<times> string option" where
  "header_part acc part = (case strip_prefix ''t='' part of
       Some ts \<Rightarrow> (parse_i64 ts, snd acc)
     | None \<Rightarrow> (case strip_prefix ''v1='' part of
           Some sig \<Rightarrow> (fst acc, Some sig)
         | None \<Rightarrow> acc))"

definition parse_signature_header :: "string \<Rightarrow> i64 option \<times> string option" where
  "parse_signature_header h = foldl header_part (None, None) (split_on (CHR '','') h)"

definition verify_webhook_signature ::
  "lib \<Rightarrow> i64 \<Rightarrow> string \<Rightarrow> string \<Rightarrow> string \<Rightarrow> i64 \<Rightarrow> app_error + unit" where
  "verify_webhook_signature l now secret payload signature_header max_age_secs =
     (case parse_signature_header signature_header of
       (None, _) \<Rightarrow> Inl Unauthorized
     | (Some ts, None) \<Rightarrow> Inl Unauthorized
     | (Some ts, Some sig) \<Rightarrow>
         if \<bar>wrap64 (now - ts)\<bar> > max_age_secs then Inl Unauthorized
         else if \<not> verify_hmac_sha256 l secret (signed_payload l ts payload) sig then Inl Unauthorized
         else Inr ())"

section \<open>Lemmas\<close>

lemma byte_of_inject [simp]: "byte_of c = byte_of d \<longleftrightarrow> c = d"
proof
  assume "byte_of c = byte_of d"
  then have "unat (byte_of c) = unat (byte_of d)" by simp
  moreover have "unat (byte_of x) = of_char x" for x
  proof -
    have "(of_char x :: u8) = of_nat (of_char x)" by (simp only: of_nat_of_char)
    moreover have "(of_char x :: nat) < 256" by simp
    ultimately show ?thesis by (simp add: byte_of_def unat_of_nat del: of_nat_of_char)
  qed
  ultimately have "(of_char c :: nat) = of_char d" by simp
  then show "c = d" by simp
qed simp

lemma or_eq_0_iff: "or a b = 0 \<longleftrightarrow> a = 0 \<and> b = (0 :: 'a :: len word)"
  by (metis or.right_neutral or.left_neutral or.left_idem or.right_idem)

lemma xor_eq_0_iff: "xor a b = 0 \<longleftrightarrow> a = (b :: 'a :: len word)"
  by (metis xor_self_eq xor.assoc xor.left_neutral xor.right_neutral)

lemma xor_fold_acc:
  "foldl (\<lambda>acc p. or acc (xor (byte_of (fst p)) (byte_of (snd p)))) a ps = 0 \<longleftrightarrow>
     a = 0 \<and> list_all (\<lambda>p. fst p = snd p) ps"
  by (induction ps arbitrary: a) (auto simp: or_eq_0_iff xor_eq_0_iff)

lemma list_all_zip_eq:
  "length xs = length ys \<Longrightarrow> list_all (\<lambda>p. fst p = snd p) (zip xs ys) \<longleftrightarrow> xs = ys"
  by (induction xs ys rule: list_induct2) auto

text \<open>The constant-time comparison decides equality.\<close>

lemma verify_hmac_iff: "verify_hmac_sha256 l key data h \<longleftrightarrow> h = hmac_sha256 l key data"
  by (auto simp: verify_hmac_sha256_def Let_def xor_fold_def xor_fold_acc list_all_zip_eq)

lemma parse_built_header:
  assumes "i64_range ts" and "CHR '','' \<notin> set sig"
  shows "parse_signature_header (''t='' @ show_int ts @ '',v1='' @ sig) = (Some ts, Some sig)"
proof -
  have nc: "CHR '','' \<notin> set (''t='' @ show_int ts)" using show_int_not_comma by auto
  have "split_on (CHR '','') (''t='' @ show_int ts @ '',v1='' @ sig) =
      split_on (CHR '','') ((''t='' @ show_int ts) @ CHR '','' # (''v1='' @ sig))" by simp
  also have "\<dots> = [''t='' @ show_int ts, ''v1='' @ sig]"
    using assms(2) by (simp only: split_on_append [OF nc]) (simp add: split_on_absent)
  finally show ?thesis
    using assms(1) by (simp add: parse_signature_header_def header_part_def strip_prefix_def)
qed

lemma verify_webhook_iff:
  "verify_webhook_signature l now secret payload h max_age = Inr () \<longleftrightarrow>
     (\<exists>ts. parse_signature_header h =
         (Some ts, Some (hmac_sha256 l secret (signed_payload l ts payload))) \<and>
       \<bar>wrap64 (now - ts)\<bar> \<le> max_age)"
  by (auto simp: verify_webhook_signature_def verify_hmac_iff split: prod.splits option.splits if_splits)

lemma built_signature_verifies:
  assumes hex: "\<And>b. CHR '','' \<notin> set (hex_encode l b)"
    and ts: "i64_range ts" and age: "i64_range (now - ts)" "\<bar>now - ts\<bar> \<le> max_age"
  shows "verify_webhook_signature l now secret payload
    (build_webhook_signature l secret payload ts) max_age = Inr ()"
proof -
  have "CHR '','' \<notin> set (hmac_sha256 l secret (signed_payload l ts payload))"
    by (simp add: hmac_sha256_def hex)
  from parse_built_header [OF ts this] show ?thesis
    using age by (auto simp: verify_webhook_iff build_webhook_signature_def)
qed

text \<open>
  C7. A webhook signature built for a payload is accepted for the same payload and secret for
  as long as its timestamp is within the allowed age, given that hexadecimal text holds no
  comma.
\<close>

theorem webhook_signature_roundtrip:
  assumes hex: "\<And>b. CHR '','' \<notin> set (hex_encode l b)"
    and ts: "i64_range ts" and age: "i64_range (now - ts)" "\<bar>now - ts\<bar> \<le> max_age"
  shows "verify_webhook_signature l now secret payload
    (build_webhook_signature l secret payload ts) max_age = Inr ()"
  using assms by (rule built_signature_verifies)

theorem webhook_signature_roundtrip_witness:
  "verify_webhook_signature sample_lib 1700000200 ''whsec_x'' ''{}''
     (build_webhook_signature sample_lib ''whsec_x'' ''{}'' 1700000000) 300 = Inr ()"
  by (rule webhook_signature_roundtrip) (simp_all add: sample_hex_no_comma i64_range_def)


lemma sealed_opens:
  assumes key: "hex_decode l key_hex = Some key" "length key = 32"
    and nonce: "length nonce = 12"
    and b64: "\<And>b. b64_decode l (b64_encode l b) = Some b"
    and aes: "\<And>k n p c. aes_encrypt l k n p = Some c \<Longrightarrow> aes_decrypt l k n c = Some p"
    and sealed: "encrypt_aes256gcm l nonce key_hex plaintext = Inr s"
  shows "decrypt_aes256gcm l key_hex s = Inr plaintext"
proof -
  from sealed key obtain c where c: "aes_encrypt l key nonce plaintext = Some c"
    and s: "s = b64_encode l (nonce @ c)"
    by (auto simp: encrypt_aes256gcm_def split: option.splits)
  show ?thesis using key nonce aes [OF c] by (simp add: decrypt_aes256gcm_def s b64)
qed

text \<open>
  C9. Sealed data opens to the plaintext it was sealed from, for a 32-byte key and a 12-byte
  nonce, given that base64 and AES-GCM invert.
\<close>

theorem seal_roundtrip:
  assumes key: "hex_decode l key_hex = Some key" "length key = 32"
    and nonce: "length nonce = 12"
    and b64: "\<And>b. b64_decode l (b64_encode l b) = Some b"
    and aes: "\<And>k n p c. aes_encrypt l k n p = Some c \<Longrightarrow> aes_decrypt l k n c = Some p"
    and sealed: "encrypt_aes256gcm l nonce key_hex plaintext = Inr s"
  shows "decrypt_aes256gcm l key_hex s = Inr plaintext"
  using assms by (rule sealed_opens)

theorem seal_roundtrip_witness:
  "decrypt_aes256gcm sample_lib ''0123456789abcdef0123456789abcdef'' ''nonce-12-bytPAN'' =
     Inr ''NAP''"
  by (rule seal_roundtrip [where nonce = "''nonce-12-byt''" and key = "''0123456789abcdef0123456789abcdef''"])
    (auto simp: sample_lib_def encrypt_aes256gcm_def)

lemma generate_api_key_prefix:
  "starts_with (generate_api_key l b live) (if live then ''rp_live_'' else ''rp_test_'')"
  by (simp add: generate_api_key_def)

lemma generate_api_key_length:
  "length (hex_encode l b) = 2 * length b \<Longrightarrow> length b = 32 \<Longrightarrow>
     length (generate_api_key l b live) = 8 + 64"
  by (simp add: generate_api_key_def)

end
