(* ===== verification/Samples.thy ===== *)
theory Samples
  imports World
begin

text \<open>
  Concrete worlds for evaluating the computations: an approved merchant, sequential UUIDs, a
  clock that ticks a second per reading, statements that all succeed and peers that accept
  every request.
\<close>

definition sample_merchant :: merchant_row where
  "sample_merchant = \<lparr>me_id = 7, me_business_name = ''Shop'', me_email = ''a@b.in'', me_phone = None,
     me_website = None, me_kyc_status = KycApproved, me_api_key_hash = ''h1'',
     me_test_api_key_hash = ''h2'', me_webhook_url = None, me_webhook_secret_enc = None,
     me_fee_plan_id = None, me_is_active = True, me_created_at = 0, me_updated_at = 0, me_version = 1\<rparr>"

definition sample_payment_row :: payment_row where
  "sample_payment_row = \<lparr>pay_id = 9, pay_merchant_id = 7, pay_order_id = None, pay_amount = 1000,
     pay_currency = INR, pay_status = Authorized, pay_payment_method = None, pay_description = None,
     pay_metadata = None, pay_acquirer_id = Some ''stripe'', pay_acquirer_reference = Some ''ref'',
     pay_failure_code = None, pay_failure_message = None, pay_capture_method = Manual,
     pay_captured_amount = None, pay_refunded_amount = 0, pay_idempotency_key = Some ''k9'',
     pay_created_at = 0, pay_updated_at = 0, pay_captured_at = None, pay_settled_at = None,
     pay_expires_at = None\<rparr>"

definition sample_database :: "schema \<Rightarrow> database" where
  "sample_database sch = (empty_database sch)\<lparr>merchants := [sample_merchant], payments := [sample_payment_row]\<rparr>"

definition accepting_peer :: "http_request \<Rightarrow> http_outcome" where
  "accepting_peer q = Response 200 (Some (JObj [(''acquirer_id'', JStr ''stripe''), (''reference'', JStr ''ref'')]))"

text \<open>A library that is cheap to evaluate: constant texts for identifiers, digests and instants.\<close>

definition plain_lib :: lib where
  "plain_lib = sample_lib\<lparr>uuid_show := (\<lambda>u. ''u''), time_show := (\<lambda>t. ''t''), sha256_digest := (\<lambda>s. [])\<rparr>"

definition sample_world :: "database \<Rightarrow> world" where
  "sample_world d = \<lparr>wdb = d, wlib = plain_lib, uuid_src = (\<lambda>n. word_of_nat (100 + n)), uuid_next = 0,
     clock_src = (\<lambda>n. time_secs (int n)), clock_next = 0, tx_now = None,
     stmt_ok = (\<lambda>n. True), stmt_next = 0, http_src = (\<lambda>n. accepting_peer), http_log = []\<rparr>"

end
