(* ===== verification/Ledger.thy ===== *)
theory Ledger
  imports Payment_Db Transactions Crypto Samples
begin

text \<open>
  \<open>crates/payment-service/src/ledger.rs\<close>: the double-entry ledger of the payment service.
  \<open>LedgerWriter\<close> holds only the transaction, so its methods are computations inside one. The
  arguments of \<open>write_double_entry\<close> are the record \<open>posting\<close>.
\<close>

section \<open>Accounts\<close>

definition GATEWAY_FLOAT :: uuid where "GATEWAY_FLOAT = 0x10000000000000000000000000000001"
definition MERCHANT_PAYABLE :: uuid where "MERCHANT_PAYABLE = 0x20000000000000000000000000000001"
definition FEE_INCOME :: uuid where "FEE_INCOME = 0x30000000000000000000000000000001"
definition REFUND_RESERVE :: uuid where "REFUND_RESERVE = 0x40000000000000000000000000000001"
definition CHARGEBACK_RESERVE :: uuid where "CHARGEBACK_RESERVE = 0x50000000000000000000000000000001"

lemma accounts_seeded:
  "[GATEWAY_FLOAT, MERCHANT_PAYABLE, FEE_INCOME, REFUND_RESERVE, CHARGEBACK_RESERVE] = seeded_accounts"
  by (simp add: seeded_accounts_def GATEWAY_FLOAT_def MERCHANT_PAYABLE_def FEE_INCOME_def
      REFUND_RESERVE_def CHARGEBACK_RESERVE_def)

lemma account_ids_distinct [simp]:
  "GATEWAY_FLOAT \<noteq> MERCHANT_PAYABLE" "MERCHANT_PAYABLE \<noteq> GATEWAY_FLOAT"
  "FEE_INCOME \<noteq> MERCHANT_PAYABLE" "MERCHANT_PAYABLE \<noteq> FEE_INCOME"
  "FEE_INCOME \<noteq> GATEWAY_FLOAT" "GATEWAY_FLOAT \<noteq> FEE_INCOME"
  by (simp_all add: GATEWAY_FLOAT_def MERCHANT_PAYABLE_def FEE_INCOME_def)

section \<open>Writing a pair\<close>

record posting =
  po_payment_id :: uuid
  po_merchant_id :: uuid
  po_currency :: currency
  po_amount :: i64
  po_debit_account :: uuid
  po_credit_account :: uuid
  po_description :: string
  po_notes :: "string option"

definition signed_amount :: "ledger_entry \<Rightarrow> int" where
  "signed_amount e = (if le_entry_type e = Credit then le_amount e else - le_amount e)"

text \<open>\<open>COALESCE(SUM(CASE \<dots>), 0)\<close> over the merchant's entries of an account.\<close>

definition account_balance :: "uuid \<Rightarrow> uuid \<Rightarrow> database \<Rightarrow> int" where
  "account_balance m a d = sum_list (map signed_amount
     (filter (\<lambda>e. le_merchant_id e = m \<and> le_account_id e = Some a) (ledger_entries d)))"

definition balance_stmt :: "uuid \<Rightarrow> uuid \<Rightarrow> i64 stmt" where
  "balance_stmt m a = (\<lambda>t d. if i64_range (account_balance m a d)
     then Inr (account_balance m a d, d) else Inl OutOfRange)"

definition latest_hash :: "uuid \<Rightarrow> database \<Rightarrow> string option" where
  "latest_hash m d =
     (case newest_first le_created_at (filter (\<lambda>e. le_merchant_id e = m) (ledger_entries d)) of
       [] \<Rightarrow> None | e # _ \<Rightarrow> Some (le_hash e))"

definition get_prev_hash :: "uuid \<Rightarrow> string M" where
  "get_prev_hash m =
     and_then (sql (select_stmt (latest_hash m))) (\<lambda>h. ok (unwrap_or h ''genesis''))"

definition debit_row :: "posting \<Rightarrow> uuid \<Rightarrow> uuid \<Rightarrow> time \<Rightarrow> i64 \<Rightarrow> string \<Rightarrow> ledger_entry" where
  "debit_row p debit_id credit_id now prev_balance hash =
     \<lparr>le_id = debit_id, le_payment_id = po_payment_id p, le_merchant_id = po_merchant_id p,
      le_entry_type = Debit, le_account_id = Some (po_debit_account p),
      le_reference_entry_id = Some credit_id, le_amount = po_amount p, le_currency = po_currency p,
      le_balance_before = prev_balance, le_balance_after = prev_balance,
      le_description = po_description p, le_notes = po_notes p, le_hash = hash, le_created_at = now\<rparr>"

definition credit_row :: "posting \<Rightarrow> uuid \<Rightarrow> uuid \<Rightarrow> time \<Rightarrow> i64 \<Rightarrow> string \<Rightarrow> ledger_entry" where
  "credit_row p debit_id credit_id now prev_balance hash =
     \<lparr>le_id = credit_id, le_payment_id = po_payment_id p, le_merchant_id = po_merchant_id p,
      le_entry_type = Credit, le_account_id = Some (po_credit_account p),
      le_reference_entry_id = Some debit_id, le_amount = po_amount p, le_currency = po_currency p,
      le_balance_before = prev_balance, le_balance_after = wrap64 (prev_balance + po_amount p),
      le_description = po_description p, le_notes = po_notes p, le_hash = hash, le_created_at = now\<rparr>"

definition write_double_entry :: "posting \<Rightarrow> unit M" where
  "write_double_entry p =
     and_then utc_now (\<lambda>now.
     and_then new_v4 (\<lambda>debit_id.
     and_then new_v4 (\<lambda>credit_id.
     and_then (sql (balance_stmt (po_merchant_id p) (po_credit_account p))) (\<lambda>prev_balance.
     and_then (get_prev_hash (po_merchant_id p)) (\<lambda>prev_hash.
     and_then (read_lib (\<lambda>l. ledger_entry_hash l prev_hash (uuid_show l debit_id) (po_amount p) (timestamp now)))
       (\<lambda>debit_hash.
     and_then (read_lib (\<lambda>l. ledger_entry_hash l debit_hash (uuid_show l credit_id) (po_amount p) (timestamp now)))
       (\<lambda>credit_hash.
     and_then (sql (insert_stmt (\<lambda>t. insert_ledger_row
        (debit_row p debit_id credit_id now prev_balance debit_hash)))) (\<lambda>_.
     and_then (sql (insert_stmt (\<lambda>t. insert_ledger_row
        (credit_row p debit_id credit_id now prev_balance credit_hash)))) (\<lambda>_.
     ok ())))))))))"

section \<open>What is recorded\<close>

definition capture_text :: "payment \<Rightarrow> lib \<Rightarrow> string" where
  "capture_text p l = ''Capture for payment '' @ uuid_show l (pay_id p) @ '' ('' @
     unwrap_or (pay_acquirer_reference p) ''no-ref'' @ '')''"

definition record_capture :: "payment \<Rightarrow> unit M" where
  "record_capture p =
     and_then (read_lib (capture_text p)) (\<lambda>description.
     write_double_entry \<lparr>po_payment_id = pay_id p, po_merchant_id = pay_merchant_id p,
       po_currency = pay_currency p, po_amount = unwrap_or (pay_captured_amount p) (pay_amount p),
       po_debit_account = GATEWAY_FLOAT, po_credit_account = MERCHANT_PAYABLE,
       po_description = description, po_notes = None\<rparr>)"

definition refund_text :: "refund \<Rightarrow> lib \<Rightarrow> string" where
  "refund_text r l = ''Refund '' @ uuid_show l (rf_id r) @ '' for payment '' @
     uuid_show l (rf_payment_id r) @ '' '' @ em_dash @ '' '' @ unwrap_or (rf_reason r) ''no reason''"

definition record_refund :: "refund \<Rightarrow> unit M" where
  "record_refund r =
     and_then (read_lib (refund_text r)) (\<lambda>description.
     write_double_entry \<lparr>po_payment_id = rf_payment_id r, po_merchant_id = rf_merchant_id r,
       po_currency = rf_currency r, po_amount = rf_amount r,
       po_debit_account = MERCHANT_PAYABLE, po_credit_account = GATEWAY_FLOAT,
       po_description = description, po_notes = None\<rparr>)"

definition fee_text :: "payment \<Rightarrow> i64 \<Rightarrow> lib \<Rightarrow> string" where
  "fee_text p fee_amount l = ''Platform fee '' @ show_int fee_amount @ '' '' @
     currency_str (pay_currency p) @ '' for payment '' @ uuid_show l (pay_id p)"

definition record_fee :: "payment \<Rightarrow> i64 \<Rightarrow> unit M" where
  "record_fee p fee_amount =
     (if fee_amount = 0 then ok ()
      else and_then (read_lib (fee_text p fee_amount)) (\<lambda>description.
        write_double_entry \<lparr>po_payment_id = pay_id p, po_merchant_id = pay_merchant_id p,
          po_currency = pay_currency p, po_amount = fee_amount,
          po_debit_account = MERCHANT_PAYABLE, po_credit_account = FEE_INCOME,
          po_description = description, po_notes = None\<rparr>))"

definition record_settlement :: "uuid \<Rightarrow> uuid \<Rightarrow> currency \<Rightarrow> i64 \<Rightarrow> unit M" where
  "record_settlement payment_id merchant_id currency amount =
     and_then (read_lib (\<lambda>l. ''Settlement for payment '' @ uuid_show l payment_id)) (\<lambda>description.
     write_double_entry \<lparr>po_payment_id = payment_id, po_merchant_id = merchant_id,
       po_currency = currency, po_amount = amount,
       po_debit_account = MERCHANT_PAYABLE, po_credit_account = GATEWAY_FLOAT,
       po_description = description, po_notes = Some ''settlement''\<rparr>)"

section \<open>What a pair does to the tables\<close>

text \<open>
  \<open>pair_posted l p d d'\<close>: \<open>d'\<close> is \<open>d\<close> with one debit and one credit of the posting appended,
  each naming the other, hashed after the merchant's latest entry.
\<close>

definition pair_posted :: "lib \<Rightarrow> posting \<Rightarrow> database \<Rightarrow> database \<Rightarrow> bool" where
  "pair_posted l p d d' \<longleftrightarrow> (\<exists>debit_id credit_id now.
     let bal = account_balance (po_merchant_id p) (po_credit_account p) d;
         prev = unwrap_or (latest_hash (po_merchant_id p) d) ''genesis'';
         h1 = ledger_entry_hash l prev (uuid_show l debit_id) (po_amount p) (timestamp now);
         h2 = ledger_entry_hash l h1 (uuid_show l credit_id) (po_amount p) (timestamp now)
     in d' = d\<lparr>ledger_entries := ledger_entries d @
              [debit_row p debit_id credit_id now bal h1, credit_row p debit_id credit_id now bal h2]\<rparr> \<and>
        debit_id \<noteq> credit_id \<and> debit_id \<notin> le_id ` set (ledger_entries d) \<and>
        credit_id \<notin> le_id ` set (ledger_entries d) \<and> i64_range bal \<and>
        0 < po_amount p \<and> has_payment d (po_payment_id p) \<and> has_merchant d (po_merchant_id p) \<and>
        sch_reference_deferred (db_schema d))"

lemma insert_two_rows:
  assumes "insert_ledger_row (debit_row p i c t b h) d = Some d1"
    and "insert_ledger_row (credit_row p i c t b h') d1 = Some d2"
  shows "d2 = d\<lparr>ledger_entries := ledger_entries d @ [debit_row p i c t b h, credit_row p i c t b h']\<rparr> \<and>
    i \<noteq> c \<and> i \<notin> le_id ` set (ledger_entries d) \<and> c \<notin> le_id ` set (ledger_entries d) \<and>
    0 < po_amount p \<and> has_payment d (po_payment_id p) \<and> has_merchant d (po_merchant_id p) \<and>
    sch_reference_deferred (db_schema d)"
  using assms
  by (auto simp: insert_ledger_row_def ledger_insertable_def debit_row_def credit_row_def
      table_simps split: if_splits)

lemma txp_balance:
  "(i64_range (account_balance m a d) \<Longrightarrow> Q (account_balance m a d) d) \<Longrightarrow> txp l (sql (balance_stmt m a)) Q d"
  by (rule txp_sql) (auto simp: balance_stmt_def split: if_splits)

lemma txp_write_double_entry:
  assumes "\<And>d'. pair_posted l p d d' \<Longrightarrow> Q () d'"
  shows "txp l (write_double_entry p) Q d"
  unfolding write_double_entry_def get_prev_hash_def
  apply (intro txp_rules txp_balance)
  apply (drule (1) insert_two_rows)
  apply (rule assms)
  apply (simp add: pair_posted_def Let_def)
  apply blast
  done

section \<open>Double entry as an interface\<close>

text \<open>
  The contract of a double-entry ledger: \<open>posts p d d'\<close> is the effect of one posting, and the
  totals of its debits and its credits grow by the same amount under every key. A client may
  rely on the totals being equal after any sequence of postings.
\<close>

locale double_entry =
  fixes posts :: "'p \<Rightarrow> 'd \<Rightarrow> 'd \<Rightarrow> bool"
    and total :: "entry_type \<Rightarrow> 'k \<Rightarrow> 'd \<Rightarrow> int"
  assumes equal_growth:
    "posts p d d' \<Longrightarrow> total Debit k d' - total Debit k d = total Credit k d' - total Credit k d"
begin

definition balanced :: "'d \<Rightarrow> bool" where
  "balanced d \<longleftrightarrow> (\<forall>k. total Debit k d = total Credit k d)"

lemma post_balanced:
  assumes "posts p d d'"
  shows "balanced d' \<longleftrightarrow> balanced d"
proof -
  have "total Debit k d' = total Credit k d' \<longleftrightarrow> total Debit k d = total Credit k d" for k
    using equal_growth [OF assms, of k] by linarith
  then show ?thesis by (simp add: balanced_def)
qed

lemma balancedD: "balanced d \<Longrightarrow> total Debit k d = total Credit k d"
  by (simp add: balanced_def)

end

definition entry_total :: "(ledger_entry \<Rightarrow> uuid) \<Rightarrow> entry_type \<Rightarrow> uuid \<Rightarrow> database \<Rightarrow> int" where
  "entry_total key ty k d =
     sum_list (map le_amount (filter (\<lambda>e. le_entry_type e = ty \<and> key e = k) (ledger_entries d)))"

lemma entry_total_posted:
  assumes "pair_posted l p d d'" and "\<And>i c t b h b' h'. key (debit_row p i c t b h) = key (credit_row p i c t b' h')"
  shows "entry_total key Debit k d' - entry_total key Debit k d =
    entry_total key Credit k d' - entry_total key Credit k d"
proof -
  obtain i c t b h h' where d': "ledger_entries d' = ledger_entries d @ [debit_row p i c t b h, credit_row p i c t b h']"
    using assms(1) by (auto simp: pair_posted_def Let_def)
  have "key (debit_row p i c t b h) = key (credit_row p i c t b h')"
    by (rule assms(2))
  then show ?thesis
    by (auto simp: entry_total_def d' debit_row_def credit_row_def)
qed

interpretation by_payment: double_entry "pair_posted l" "entry_total le_payment_id" for l
  by unfold_locales (rule entry_total_posted, auto simp: debit_row_def credit_row_def)

interpretation by_merchant: double_entry "pair_posted l" "entry_total le_merchant_id" for l
  by unfold_locales (rule entry_total_posted, auto simp: debit_row_def credit_row_def)

text \<open>What a payment has moved through an account: credits less debits.\<close>

definition account_net :: "uuid \<Rightarrow> uuid \<Rightarrow> database \<Rightarrow> int" where
  "account_net a i d = sum_list (map signed_amount
     (filter (\<lambda>e. le_payment_id e = i \<and> le_account_id e = Some a) (ledger_entries d)))"

lemma account_net_posted:
  "pair_posted l p d d' \<Longrightarrow> account_net a i d' = account_net a i d +
     (if i = po_payment_id p
      then (if a = po_credit_account p then po_amount p else 0) -
           (if a = po_debit_account p then po_amount p else 0)
      else 0)"
  by (auto simp: pair_posted_def Let_def account_net_def debit_row_def credit_row_def signed_amount_def)

lemma account_net_cong: "ledger_entries d' = ledger_entries d \<Longrightarrow> account_net a i d' = account_net a i d"
  by (simp add: account_net_def)

lemma account_net_absent:
  assumes "i \<notin> le_payment_id ` set (ledger_entries d)"
  shows "account_net a i d = 0"
proof -
  have "filter (\<lambda>e. le_payment_id e = i \<and> le_account_id e = Some a) (ledger_entries d) = []"
    using assms by (auto simp: filter_empty_conv)
  then show ?thesis by (simp add: account_net_def)
qed

section \<open>Properties\<close>

lemma transaction_posts:
  assumes "fst (transaction (write_double_entry p) w) = Inr ()"
  shows "pair_posted (wlib w) p (wdb w) (wdb (snd (transaction (write_double_entry p) w)))"
proof -
  have "transaction (write_double_entry p) w = (Inr (), snd (transaction (write_double_entry p) w))"
    using assms by (metis prod.collapse)
  from transaction_InrD [OF this, where Q = "\<lambda>_. pair_posted (wlib w) p (wdb w)"] show ?thesis
    by (blast intro: txp_write_double_entry)
qed

text \<open>
  C5. A posting that is committed appends exactly one debit and one credit of its amount, each
  naming the other, and the credit's \<open>balance_after\<close> is the balance of the credited account
  as recomputed from the entries.
\<close>

theorem committed_posting_is_a_balanced_pair:
  assumes "fst (transaction (write_double_entry p) w) = Inr ()"
    and "po_debit_account p \<noteq> po_credit_account p"
    and "i64_range (account_balance (po_merchant_id p) (po_credit_account p) (wdb w) + po_amount p)"
  shows "\<exists>debit credit. let d' = wdb (snd (transaction (write_double_entry p) w)) in
    d' = (wdb w)\<lparr>ledger_entries := ledger_entries (wdb w) @ [debit, credit]\<rparr> \<and>
    le_entry_type debit = Debit \<and> le_entry_type credit = Credit \<and>
    le_amount debit = po_amount p \<and> le_amount credit = po_amount p \<and>
    le_account_id debit = Some (po_debit_account p) \<and> le_account_id credit = Some (po_credit_account p) \<and>
    le_reference_entry_id debit = Some (le_id credit) \<and>
    le_reference_entry_id credit = Some (le_id debit) \<and>
    le_balance_after credit = account_balance (po_merchant_id p) (po_credit_account p) d'"
proof -
  let ?d' = "wdb (snd (transaction (write_double_entry p) w))"
  from transaction_posts [OF assms(1)] obtain i c t b h h' where
    d': "?d' = (wdb w)\<lparr>ledger_entries := ledger_entries (wdb w) @ [debit_row p i c t b h, credit_row p i c t b h']\<rparr>"
    and b: "b = account_balance (po_merchant_id p) (po_credit_account p) (wdb w)"
    by (auto simp: pair_posted_def Let_def)
  show ?thesis
    using assms(2,3)
    by (intro exI [of _ "debit_row p i c t b h"] exI [of _ "credit_row p i c t b h'"])
      (simp add: d' Let_def debit_row_def credit_row_def b account_balance_def signed_amount_def)
qed

definition sample_posting :: posting where
  "sample_posting = \<lparr>po_payment_id = 9, po_merchant_id = 7, po_currency = INR, po_amount = 500,
     po_debit_account = GATEWAY_FLOAT, po_credit_account = MERCHANT_PAYABLE,
     po_description = ''capture'', po_notes = None\<rparr>"

theorem committed_posting_is_a_balanced_pair_witness:
  "\<exists>debit credit. let d' = wdb (snd (transaction (write_double_entry sample_posting)
        (sample_world (sample_database documented_schema)))) in
    d' = (sample_database documented_schema)\<lparr>ledger_entries := [debit, credit]\<rparr> \<and>
    le_balance_after credit = account_balance 7 MERCHANT_PAYABLE d'"
proof -
  let ?w = "sample_world (sample_database documented_schema)"
  have "fst (transaction (write_double_entry sample_posting) ?w) = Inr ()"
    by code_simp
  moreover have "po_debit_account sample_posting \<noteq> po_credit_account sample_posting"
    by (simp add: sample_posting_def)
  moreover have "i64_range (account_balance (po_merchant_id sample_posting)
      (po_credit_account sample_posting) (wdb ?w) + po_amount sample_posting)"
    by code_simp
  ultimately show ?thesis
    using committed_posting_is_a_balanced_pair [of sample_posting ?w]
    by (auto simp: Let_def sample_world_def sample_database_def empty_database_def sample_posting_def)
qed

text \<open>
  C6. Under the schema the migrations create, where the reference between the two entries of
  a pair is checked at once, no posting can be committed: the debit names a credit that is not
  there yet.
\<close>

theorem migrated_schema_refuses_every_posting:
  assumes "\<not> sch_reference_deferred (db_schema (wdb w))"
  shows "\<exists>e. fst (transaction (write_double_entry p) w) = Inl e"
proof (cases "fst (transaction (write_double_entry p) w)")
  case (Inr u)
  then have "pair_posted (wlib w) p (wdb w) (wdb (snd (transaction (write_double_entry p) w)))"
    by (intro transaction_posts) simp
  then have "sch_reference_deferred (db_schema (wdb w))"
    by (auto simp: pair_posted_def Let_def)
  with assms show ?thesis ..
qed simp

theorem migrated_schema_refuses_every_posting_witness:
  "\<exists>e. fst (transaction (write_double_entry sample_posting)
     (sample_world (sample_database migrated_schema))) = Inl e"
  by (rule migrated_schema_refuses_every_posting)
    (simp add: sample_world_def sample_database_def empty_database_def migrated_schema_def)

end
