(* ===== verification/State_Machine.thy ===== *)
theory State_Machine
  imports Models
begin

text \<open>
  \<open>crates/payment-service/src/state_machine.rs\<close>: the guard every status change of a payment
  is meant to pass, and the graph of \<open>PaymentStatus::valid_transitions\<close> behind it. The
  locale \<open>status_graph\<close> is the contract of a lifecycle: a rank that every transition
  increases. Its lemmas (no status is entered twice, runs are bounded) are proved once and
  interpreted on the payment statuses.
\<close>

section \<open>The guard\<close>

record payment_state_machine =
  sm_current :: payment_status

definition sm_new :: "payment_status \<Rightarrow> payment_state_machine" where
  "sm_new s = \<lparr>sm_current = s\<rparr>"

definition sm_is_terminal :: "payment_state_machine \<Rightarrow> bool" where
  "sm_is_terminal sm = is_terminal (sm_current sm)"

definition transition ::
  "payment_state_machine \<Rightarrow> payment_status \<Rightarrow> (app_error + payment_status) \<times> payment_state_machine" where
  "transition sm n =
     (if can_transition_to (sm_current sm) n then (Inr n, sm\<lparr>sm_current := n\<rparr>)
      else (Inl (InvalidStateTransition (payment_status_debug (sm_current sm)) (payment_status_debug n)),
            sm))"

text \<open>\<open>sm.transition(a)?; sm.transition(b)?; \<dots>\<close>: the first refusal ends the sequence.\<close>

fun transitions ::
  "payment_state_machine \<Rightarrow> payment_status list \<Rightarrow> app_error + payment_state_machine" where
  "transitions sm [] = Inr sm"
| "transitions sm (n # ns) =
     (case transition sm n of (Inl e, _) \<Rightarrow> Inl e | (Inr _, sm') \<Rightarrow> transitions sm' ns)"

lemma can_transition_to_iff [simp]: "can_transition_to s n \<longleftrightarrow> n \<in> set (valid_transitions s)"
  by (simp add: can_transition_to_def)

lemma transition_Inr_iff:
  "transition sm n = (Inr s, sm') \<longleftrightarrow>
     n \<in> set (valid_transitions (sm_current sm)) \<and> s = n \<and> sm' = sm\<lparr>sm_current := n\<rparr>"
  by (auto simp: transition_def)

lemma transition_Inl: "transition sm n = (Inl e, sm') \<Longrightarrow> sm' = sm"
  by (simp add: transition_def split: if_splits)

text \<open>
  The refused transition reports both statuses; \<open>payment_status_debug\<close> is injective, so
  the message determines them.
\<close>

lemma payment_status_debug_inject [simp]:
  "payment_status_debug s = payment_status_debug t \<longleftrightarrow> s = t"
  by (cases s; cases t) simp_all

section \<open>Lifecycles\<close>

locale status_graph =
  fixes succs :: "'s \<Rightarrow> 's list"
    and rank :: "'s \<Rightarrow> nat"
    and top :: nat
  assumes rank_increases: "t \<in> set (succs s) \<Longrightarrow> rank s < rank t"
    and rank_bounded: "rank s \<le> top"
begin

inductive step :: "'s \<Rightarrow> 's \<Rightarrow> bool" where
  "t \<in> set (succs s) \<Longrightarrow> step s t"

lemma step_rank: "step s t \<Longrightarrow> rank s < rank t"
  by (auto elim: step.cases intro: rank_increases)

lemma steps_rank: "step\<^sup>+\<^sup>+ s t \<Longrightarrow> rank s < rank t"
  by (induction rule: tranclp_induct) (auto dest: step_rank)

lemma no_return: "step\<^sup>+\<^sup>+ s t \<Longrightarrow> s \<noteq> t"
  using steps_rank by blast

text \<open>A run visits distinct statuses and has at most \<open>top - rank s\<close> transitions.\<close>

fun is_run :: "'s \<Rightarrow> 's list \<Rightarrow> bool" where
  "is_run s [] = True"
| "is_run s (t # ts) = (t \<in> set (succs s) \<and> is_run t ts)"

lemma run_rank: "is_run s ts \<Longrightarrow> t \<in> set ts \<Longrightarrow> rank s < rank t"
  by (induction ts arbitrary: s) (auto dest: rank_increases less_trans)

lemma run_distinct: "is_run s ts \<Longrightarrow> distinct (s # ts)"
proof (induction ts arbitrary: s)
  case Nil
  then show ?case by simp
next
  case (Cons t ts)
  then have "s \<notin> set (t # ts)" using run_rank [of s "t # ts" s] by blast
  moreover have "distinct (t # ts)" using Cons.IH [of t] Cons.prems by simp
  ultimately show ?case by simp
qed

lemma run_length: "is_run s ts \<Longrightarrow> length ts \<le> top - rank s"
proof (induction ts arbitrary: s)
  case Nil
  then show ?case by simp
next
  case (Cons t ts)
  then have "rank s < rank t" and "length ts \<le> top - rank t"
    by (auto dest: rank_increases)
  then show ?case using rank_bounded [of t] by simp
qed

end

section \<open>The lifecycle of a payment\<close>

fun status_rank :: "payment_status \<Rightarrow> nat" where
  "status_rank Created = 0"
| "status_rank Pending = 1"
| "status_rank RequiresAction = 2"
| "status_rank Authorized = 3"
| "status_rank Captured = 4"
| "status_rank Settled = 5"
| "status_rank Failed = 6"
| "status_rank Cancelled = 6"
| "status_rank Refunded = 6"
| "status_rank Disputed = 6"

interpretation pay: status_graph valid_transitions status_rank 6
proof
  fix s t :: payment_status
  show "t \<in> set (valid_transitions s) \<Longrightarrow> status_rank s < status_rank t"
    by (cases s) auto
  show "status_rank s \<le> 6" by (cases s) simp_all
qed

lemma transitions_is_run:
  "transitions sm ns = Inr sm' \<Longrightarrow>
     pay.is_run (sm_current sm) ns \<and> sm_current sm' = last (sm_current sm # ns)"
proof (induction ns arbitrary: sm)
  case Nil
  then show ?case by simp
next
  case (Cons n ns)
  show ?case
  proof (cases "n \<in> set (valid_transitions (sm_current sm))")
    case True
    with Cons.prems have "transitions (sm\<lparr>sm_current := n\<rparr>) ns = Inr sm'"
      by (simp add: transition_def)
    from Cons.IH [OF this] True show ?thesis by simp
  next
    case False
    with Cons.prems show ?thesis by (simp add: transition_def)
  qed
qed

lemma transitions_complete:
  "pay.is_run (sm_current sm) ns \<Longrightarrow> \<exists>sm'. transitions sm ns = Inr sm'"
  by (induction ns arbitrary: sm) (auto simp: transition_def)

lemma status_step_iff: "pay.step s t \<longleftrightarrow> t \<in> set (valid_transitions s)"
  by (auto simp: pay.step.simps)

text \<open>Nothing leads to \<open>Refunded\<close>, and nothing leaves the final statuses but \<open>Settled\<close>.\<close>

lemma no_step_to_refunded: "\<not> pay.step s Refunded"
  by (cases s) (auto simp: status_step_iff)

lemma terminal_successors: "is_terminal s \<Longrightarrow> valid_transitions s \<noteq> [] \<Longrightarrow> s = Settled"
  by (cases s) simp_all

lemma non_terminal_successors: "\<not> is_terminal s \<Longrightarrow> valid_transitions s \<noteq> []"
  by (cases s) simp_all

text \<open>
  C10. A sequence of transitions the guard accepts runs along the edges of the graph of statuses,
  enters no status twice and ends after at most six transitions, fewer from a later status; the
  machine then stands at the last status of the sequence.
\<close>

theorem transitions_follow_graph:
  assumes "transitions (sm_new s) ns = Inr sm'"
  shows "distinct (s # ns) \<and> length ns \<le> 6 - status_rank s \<and> sm_current sm' = last (s # ns) \<and>
    (\<forall>i < length ns. ns ! i \<in> set (valid_transitions ((s # ns) ! i)))"
proof -
  have run: "pay.is_run s ns" and l: "sm_current sm' = last (s # ns)"
    using transitions_is_run [OF assms] by (simp_all add: sm_new_def)
  have "ns ! i \<in> set (valid_transitions ((s # ns) ! i))" if "i < length ns" for i
    using run that
  proof (induction ns arbitrary: s i)
    case (Cons t ts)
    then show ?case by (cases i) auto
  qed simp
  then show ?thesis using pay.run_distinct [OF run] pay.run_length [OF run] l by simp
qed

theorem transitions_follow_graph_witness:
  "distinct [Created, Pending, Authorized, Captured, Settled] \<and>
   length [Pending, Authorized, Captured, Settled] \<le> 6 - status_rank Created"
proof -
  have "transitions (sm_new Created) [Pending, Authorized, Captured, Settled] =
      Inr (sm_new Settled)"
    by (simp add: transition_def sm_new_def)
  from transitions_follow_graph [OF this] show ?thesis by blast
qed

text \<open>
  From \<open>Created\<close>, no sequence of guarded transitions ever reaches \<open>Refunded\<close>, and
  once a terminal status other than \<open>Settled\<close> is reached every transition is refused with
  both statuses in the error and the machine unchanged.
\<close>

theorem terminal_statuses_are_final:
  "(transitions (sm_new Created) ns = Inr sm' \<longrightarrow> sm_current sm' \<noteq> Refunded) \<and>
   (is_terminal s \<and> s \<noteq> Settled \<longrightarrow>
     transition (sm_new s) n =
       (Inl (InvalidStateTransition (payment_status_debug s) (payment_status_debug n)), sm_new s))"
proof (intro conjI impI)
  assume t: "transitions (sm_new Created) ns = Inr sm'"
  show "sm_current sm' \<noteq> Refunded"
  proof
    assume r: "sm_current sm' = Refunded"
    from transitions_is_run [OF t] have run: "pay.is_run Created ns" and l: "last (Created # ns) = Refunded"
      using r by (auto simp: sm_new_def)
    have "pay.is_run s ns \<Longrightarrow> s \<noteq> Refunded \<Longrightarrow> last (s # ns) \<noteq> Refunded" for s
    proof (induction ns arbitrary: s)
      case (Cons a ns)
      then have "a \<noteq> Refunded" using no_step_to_refunded [of s] by (auto simp: status_step_iff)
      with Cons show ?case by simp
    qed simp
    with run l show False by blast
  qed
next
  assume "is_terminal s \<and> s \<noteq> Settled"
  then have "valid_transitions s = []" using terminal_successors by blast
  then show "transition (sm_new s) n =
      (Inl (InvalidStateTransition (payment_status_debug s) (payment_status_debug n)), sm_new s)"
    by (simp add: transition_def sm_new_def)
qed

theorem terminal_statuses_are_final_witness:
  "sm_current (sm_new Captured) \<noteq> Refunded \<and>
   transition (sm_new Failed) Pending =
     (Inl (InvalidStateTransition ''Failed'' ''Pending''), sm_new Failed)"
proof -
  have "transitions (sm_new Created) [Pending, Authorized, Captured] = Inr (sm_new Captured)"
    by (simp add: transition_def sm_new_def)
  then show ?thesis
    using terminal_statuses_are_final
      [of "[Pending, Authorized, Captured]" "sm_new Captured" Failed Pending] by simp
qed

end
