(* ===== verification/Orchestrator.thy ===== *)
theory Orchestrator
  imports Ledger State_Machine
begin

text \<open>
  \<open>crates/payment-service/src/orchestrator.rs\<close>: the life of a payment across the database and
  the HTTP peers. Each method is cut where the code awaits a peer between two transactions, and
  composed again in the order of the code, so that \<open>Payment_System\<close> can interleave the pieces:
  \<open>create_payment\<close> is \<open>admit_payment\<close>, then \<open>replay_payment\<close> or \<open>process_payment\<close>;
  \<open>create_refund\<close> is \<open>admit_refund\<close>, then \<open>resolve_refund\<close> and \<open>notify_refund\<close>.
\<close>

section \<open>Configuration\<close>

record payment_config =
  cfg_acquirer_router_url :: string
  cfg_fraud_service_url :: string
  cfg_system_fee_percentage :: f64

definition TOPIC_PAYMENTS :: string where "TOPIC_PAYMENTS = ''rustpay.payments''"
definition TOPIC_WEBHOOKS :: string where "TOPIC_WEBHOOKS = ''rustpay.webhooks''"

section \<open>Event payloads\<close>

definition uuid_json :: "lib \<Rightarrow> uuid \<Rightarrow> json" where
  "uuid_json l i = JStr (uuid_show l i)"

definition payment_event_json :: "payment \<Rightarrow> uuid \<Rightarrow> time \<Rightarrow> lib \<Rightarrow> json" where
  "payment_event_json p event_id now l =
     JObj [(''event_id'', uuid_json l event_id), (''payment_id'', uuid_json l (pay_id p)),
       (''merchant_id'', uuid_json l (pay_merchant_id p)),
       (''order_id'', jopt (uuid_json l) (pay_order_id p)), (''amount'', JNum (pay_amount p)),
       (''captured_amount'', jopt JNum (pay_captured_amount p)),
       (''currency'', JStr (currency_str (pay_currency p))),
       (''status'', JStr (payment_status_str (pay_status p))),
       (''acquirer_id'', jopt JStr (pay_acquirer_id p)),
       (''acquirer_reference'', jopt JStr (pay_acquirer_reference p)),
       (''timestamp'', JStr (time_show l now))]"

definition build_payment_event_payload :: "payment \<Rightarrow> json M" where
  "build_payment_event_payload p =
     and_then new_v4 (\<lambda>event_id.
     and_then utc_now (\<lambda>now.
     read_lib (payment_event_json p event_id now)))"

definition refund_event_json :: "refund \<Rightarrow> uuid \<Rightarrow> time \<Rightarrow> lib \<Rightarrow> json" where
  "refund_event_json r event_id now l =
     JObj [(''event_id'', uuid_json l event_id), (''refund_id'', uuid_json l (rf_id r)),
       (''payment_id'', uuid_json l (rf_payment_id r)),
       (''merchant_id'', uuid_json l (rf_merchant_id r)), (''amount'', JNum (rf_amount r)),
       (''currency'', JStr (currency_str (rf_currency r))),
       (''status'', JStr (refund_status_str (rf_status r))),
       (''reason'', jopt JStr (rf_reason r)), (''timestamp'', JStr (time_show l now))]"

definition build_refund_event_payload :: "refund \<Rightarrow> json M" where
  "build_refund_event_payload r =
     and_then new_v4 (\<lambda>event_id.
     and_then utc_now (\<lambda>now.
     read_lib (refund_event_json r event_id now)))"

fun map_payment_method_input :: "payment_method_input \<Rightarrow> payment_method" where
  "map_payment_method_input (CardInput token last4 brand exp_month exp_year name) =
     Card \<lparr>cd_token = token, cd_last4 = last4, cd_brand = brand, cd_exp_month = exp_month,
           cd_exp_year = exp_year, cd_name = name, cd_country = None\<rparr>"
| "map_payment_method_input (UpiInput vpa) = Upi \<lparr>upi_vpa = vpa, upi_bank_name = None\<rparr>"
| "map_payment_method_input (NetBankingInput bank_code) =
     NetBanking \<lparr>nb_bank_code = bank_code, nb_bank_name = bank_code\<rparr>"

section \<open>Calls to the peers\<close>

definition post :: "string \<Rightarrow> (string \<times> string) list \<Rightarrow> json \<Rightarrow> http_outcome M" where
  "post url headers body =
     http_send \<lparr>hr_method = ''POST'', hr_url = url, hr_headers = headers, hr_body = body\<rparr>"

text \<open>\<open>resp.json().await.unwrap_or_default()\<close>: a body that is not JSON reads as null.\<close>

definition body_or_null :: "json option \<Rightarrow> json" where
  "body_or_null b = unwrap_or b JNull"

text \<open>\<open>resp.json().await.map_err(|e| AppError::Internal(e.to_string()))\<close>.\<close>

definition body_or_internal :: "json option \<Rightarrow> json M" where
  "body_or_internal b = and_then (read_lib json_error) (\<lambda>e. ok_or (Internal e) b)"

definition str_or :: "json \<Rightarrow> string \<Rightarrow> string" where
  "str_or j d = unwrap_or (as_str j) d"

definition fraud_request :: "payment \<Rightarrow> lib \<Rightarrow> json" where
  "fraud_request p l = JObj [(''payment_id'', uuid_json l (pay_id p)),
     (''merchant_id'', uuid_json l (pay_merchant_id p)), (''amount'', JNum (pay_amount p)),
     (''currency'', JStr (currency_str (pay_currency p))),
     (''payment_method'', jopt pm_to_json (pay_payment_method p))]"

definition run_fraud_check :: "payment_config \<Rightarrow> payment \<Rightarrow> unit M" where
  "run_fraud_check cfg p =
     and_then (read_lib (fraud_request p)) (\<lambda>body.
     and_then (post (cfg_fraud_service_url cfg @ ''/v1/risk/evaluate'') [] body) (\<lambda>resp.
     case resp of
       SendError e \<Rightarrow> err (Internal (''Fraud service unreachable: '' @ e))
     | Response status b \<Rightarrow>
         if is_success status then
           (let body = body_or_null b in
            if unwrap_or (as_bool (jget body ''blocked'')) False
            then err (FraudBlocked (str_or (jget body ''reason'') ''unknown''))
            else ok ())
         else ok ()))"

definition acquirer_charge_json :: "payment \<Rightarrow> lib \<Rightarrow> json" where
  "acquirer_charge_json p l = JObj [(''payment_id'', uuid_json l (pay_id p)),
     (''amount'', JNum (pay_amount p)), (''currency'', JStr (currency_str (pay_currency p))),
     (''payment_method'', jopt pm_to_json (pay_payment_method p)),
     (''capture'', JBool (pay_capture_method p = Automatic))]"

definition charge_via_acquirer :: "payment_config \<Rightarrow> payment \<Rightarrow> (string \<times> string) M" where
  "charge_via_acquirer cfg p =
     and_then (read_lib (acquirer_charge_json p)) (\<lambda>body.
     and_then (post (cfg_acquirer_router_url cfg @ ''/v1/charge'') [] body) (\<lambda>resp.
     case resp of
       SendError e \<Rightarrow> err (AcquirerUnavailable e)
     | Response status b \<Rightarrow>
         if \<not> is_success status then
           (let body = body_or_null b in
            err (AcquirerDeclined (str_or (jget body ''code'') ''declined'')
                  (str_or (jget body ''message'') ''Payment declined'')))
         else and_then (body_or_internal b) (\<lambda>body.
           ok (str_or (jget body ''acquirer_id'') ''unknown'', str_or (jget body ''reference'') ''''))))"

definition acquirer_capture :: "payment_config \<Rightarrow> uuid \<Rightarrow> string option \<Rightarrow> unit M" where
  "acquirer_capture cfg i idempotency_key =
     and_then (read_lib (\<lambda>l. (unwrap_or idempotency_key (''capture-'' @ uuid_show l i),
                              JObj [(''payment_id'', uuid_json l i)]))) (\<lambda>(idem_key, body).
     and_then (post (cfg_acquirer_router_url cfg @ ''/v1/capture'')
                 [(''X-Idempotency-Key'', idem_key)] body) (\<lambda>resp.
     case resp of
       SendError e \<Rightarrow> err (AcquirerUnavailable e)
     | Response status b \<Rightarrow>
         if \<not> is_success status then err (AcquirerUnavailable ''Capture call failed'') else ok ()))"

definition acquirer_refund :: "payment_config \<Rightarrow> uuid \<Rightarrow> i64 \<Rightarrow> string M" where
  "acquirer_refund cfg i amount =
     and_then (read_lib (\<lambda>l. JObj [(''payment_id'', uuid_json l i), (''amount'', JNum amount)])) (\<lambda>body.
     and_then (post (cfg_acquirer_router_url cfg @ ''/v1/refund'') [] body) (\<lambda>resp.
     case resp of
       SendError e \<Rightarrow> err (AcquirerUnavailable e)
     | Response status b \<Rightarrow>
         if \<not> is_success status then err (AcquirerUnavailable ''Refund call failed'')
         else and_then (body_or_internal b) (\<lambda>body. ok (str_or (jget body ''refund_id'') ''''))))"

section \<open>Creating a payment\<close>

definition new_payment ::
  "uuid \<Rightarrow> create_payment_request \<Rightarrow> string option \<Rightarrow> time \<Rightarrow> uuid \<Rightarrow> payment" where
  "new_payment merchant_id req idempotency_key now payment_id =
     \<lparr>pay_id = payment_id, pay_merchant_id = merchant_id, pay_order_id = cpr_order_id req,
      pay_amount = cpr_amount req, pay_currency = cpr_currency req, pay_status = Created,
      pay_payment_method = Some (map_payment_method_input (cpr_payment_method req)),
      pay_description = cpr_description req, pay_metadata = unwrap_or (cpr_metadata req) (JObj []),
      pay_acquirer_id = None, pay_acquirer_reference = None, pay_failure_code = None,
      pay_failure_message = None,
      pay_capture_method = unwrap_or (cpr_capture_method req) Automatic,
      pay_captured_amount = None, pay_refunded_amount = 0,
      pay_idempotency_key =
        (case idempotency_key of Some k \<Rightarrow> Some k | None \<Rightarrow> cpr_idempotency_key req),
      pay_created_at = now, pay_updated_at = now, pay_captured_at = None, pay_settled_at = None,
      pay_expires_at = Some (now + time_secs (24 * 3600))\<rparr>"

definition admit_body :: "payment \<Rightarrow> (uuid \<times> bool) M" where
  "admit_body p =
     and_then (insert_payment_idempotent p) (\<lambda>(actual_id, was_inserted).
     if \<not> was_inserted then ok (actual_id, False)
     else and_then (build_payment_event_payload p) (\<lambda>payload.
          and_then (insert_outbox_event ''payment'' (pay_id p) ''payment.created'' payload TOPIC_PAYMENTS) (\<lambda>_.
          ok (actual_id, True))))"

definition admit_payment ::
  "uuid \<Rightarrow> create_payment_request \<Rightarrow> string option \<Rightarrow> (payment \<times> uuid \<times> bool) M" where
  "admit_payment merchant_id req idempotency_key =
     and_then utc_now (\<lambda>now.
     and_then new_v4 (\<lambda>payment_id.
     let p = new_payment merchant_id req idempotency_key now payment_id
     in and_then (transaction (admit_body p)) (\<lambda>(actual_id, was_inserted). ok (p, actual_id, was_inserted))))"

definition replay_payment :: "uuid \<Rightarrow> uuid \<Rightarrow> payment M" where
  "replay_payment actual_id merchant_id =
     and_then (find_payment_by_id actual_id merchant_id) (ok_or (Internal ''Idempotency race''))"

text \<open>One transaction marks the payment failed and says so in the outbox.\<close>

definition fail_body :: "uuid \<Rightarrow> string \<Rightarrow> string \<Rightarrow> (lib \<Rightarrow> json) \<Rightarrow> unit M" where
  "fail_body i code message payload =
     and_then (update_payment_status i Failed (Some code) (Some message)) (\<lambda>_.
     and_then (read_lib payload) (\<lambda>j.
     insert_outbox_event ''payment'' i ''payment.failed'' j TOPIC_PAYMENTS))"

definition fail_payment :: "uuid \<Rightarrow> string \<Rightarrow> string \<Rightarrow> (lib \<Rightarrow> json) \<Rightarrow> unit M" where
  "fail_payment i code message payload = transaction (fail_body i code message payload)"

definition record_fee_if_positive :: "payment \<Rightarrow> i64 \<Rightarrow> unit M" where
  "record_fee_if_positive p fee = (if fee > 0 then record_fee p fee else ok ())"

text \<open>The transaction after a successful charge.\<close>

definition charged_payment :: "payment \<Rightarrow> capture_method \<Rightarrow> i64 \<Rightarrow> payment M" where
  "charged_payment locked capture_method amount =
     (if capture_method = Automatic then
        and_then (of_result (transitions (sm_new (pay_status locked)) [Pending, Authorized, Captured])) (\<lambda>_.
        and_then utc_now (\<lambda>now.
        ok (locked\<lparr>pay_status := Captured, pay_captured_at := Some now,
                   pay_captured_amount := Some amount\<rparr>)))
      else
        and_then (of_result (transitions (sm_new (pay_status locked)) [Pending, Authorized])) (\<lambda>_.
        ok (locked\<lparr>pay_status := Authorized\<rparr>)))"

definition record_charge :: "payment_config \<Rightarrow> payment \<Rightarrow> payment M" where
  "record_charge cfg locked =
     and_then (update_payment_after_charge locked) (\<lambda>_.
     and_then (if pay_status locked = Captured
               then and_then (record_capture locked) (\<lambda>_.
                    record_fee_if_positive locked
                      (fee_of (pay_amount locked) (cfg_system_fee_percentage cfg)))
               else ok ()) (\<lambda>_.
     let event_type = (if pay_status locked = Captured then ''payment.captured'' else ''payment.authorized'')
     in and_then (build_payment_event_payload locked) (\<lambda>payload.
        and_then (insert_outbox_event ''payment'' (pay_id locked) event_type payload TOPIC_PAYMENTS) (\<lambda>_.
        and_then (build_payment_event_payload locked) (\<lambda>payload.
        and_then (insert_outbox_event ''payment'' (pay_id locked) event_type payload TOPIC_WEBHOOKS) (\<lambda>_.
        ok locked))))))"

definition finish_charge_body :: "payment_config \<Rightarrow> payment \<Rightarrow> string \<Rightarrow> string \<Rightarrow> payment M" where
  "finish_charge_body cfg p acquirer_id acquirer_ref =
     and_then (lock_payment_for_update (pay_id p) (pay_merchant_id p)) (\<lambda>locked.
     and_then (charged_payment locked (pay_capture_method p) (pay_amount p)) (\<lambda>locked.
     and_then utc_now (\<lambda>now.
     record_charge cfg (locked\<lparr>pay_acquirer_id := Some acquirer_id,
       pay_acquirer_reference := Some acquirer_ref, pay_updated_at := now\<rparr>))))"

definition finish_charge :: "payment_config \<Rightarrow> payment \<Rightarrow> string \<Rightarrow> string \<Rightarrow> payment M" where
  "finish_charge cfg p acquirer_id acquirer_ref =
     transaction (finish_charge_body cfg p acquirer_id acquirer_ref)"

definition charge_payment :: "payment_config \<Rightarrow> payment \<Rightarrow> payment M" where
  "charge_payment cfg p =
     match_result (charge_via_acquirer cfg p)
       (\<lambda>e. case e of
          AcquirerDeclined code message \<Rightarrow>
            and_then (fail_payment (pay_id p) code message (\<lambda>l. JObj [(''payment_id'', uuid_json l (pay_id p)),
              (''reason'', JStr ''acquirer_declined''), (''code'', JStr code), (''message'', JStr message)]))
              (\<lambda>_. err (AcquirerDeclined code message))
        | _ \<Rightarrow>
            and_then (fail_payment (pay_id p) ''processing_error'' (error_to_string e)
              (\<lambda>l. JObj [(''payment_id'', uuid_json l (pay_id p)), (''reason'', JStr ''processing_error'')]))
              (\<lambda>_. err e))
       (\<lambda>(acquirer_id, acquirer_ref). finish_charge cfg p acquirer_id acquirer_ref)"

text \<open>A fraud service that answers an error does not stop the payment (fail-open).\<close>

definition process_payment :: "payment_config \<Rightarrow> payment \<Rightarrow> payment M" where
  "process_payment cfg p =
     match_result (run_fraud_check cfg p)
       (\<lambda>e. case e of
          FraudBlocked reason \<Rightarrow>
            and_then (fail_payment (pay_id p) ''fraud_blocked'' reason
              (\<lambda>l. JObj [(''payment_id'', uuid_json l (pay_id p)), (''reason'', JStr ''fraud_blocked'')]))
              (\<lambda>_. err (FraudBlocked reason))
        | _ \<Rightarrow> charge_payment cfg p)
       (\<lambda>_. charge_payment cfg p)"

definition create_payment ::
  "payment_config \<Rightarrow> uuid \<Rightarrow> create_payment_request \<Rightarrow> string option \<Rightarrow> payment M" where
  "create_payment cfg merchant_id req idempotency_key =
     and_then (admit_payment merchant_id req idempotency_key) (\<lambda>(p, actual_id, was_inserted).
     if \<not> was_inserted then replay_payment actual_id merchant_id
     else process_payment cfg p)"

section \<open>Capturing, refunding, cancelling\<close>

definition check_capture :: "uuid \<Rightarrow> uuid \<Rightarrow> payment M" where
  "check_capture i m =
     and_then (find_payment_by_id i m) (\<lambda>v.
     and_then (ok_or (Internal ''Payment not found'') v) (\<lambda>p.
     and_then (of_result (fst (transition (sm_new (pay_status p)) Captured))) (\<lambda>_. ok p)))"

definition record_manual_capture :: "payment_config \<Rightarrow> payment \<Rightarrow> payment M" where
  "record_manual_capture cfg p =
     and_then (update_payment_after_charge p) (\<lambda>_.
     and_then (record_capture p) (\<lambda>_.
     and_then (record_fee_if_positive p
        (fee_of (unwrap_or (pay_captured_amount p) (pay_amount p)) (cfg_system_fee_percentage cfg))) (\<lambda>_.
     and_then (build_payment_event_payload p) (\<lambda>payload.
     and_then (insert_outbox_event ''payment'' (pay_id p) ''payment.captured'' payload TOPIC_PAYMENTS) (\<lambda>_.
     and_then (build_payment_event_payload p) (\<lambda>payload.
     and_then (insert_outbox_event ''payment'' (pay_id p) ''payment.captured'' payload TOPIC_WEBHOOKS) (\<lambda>_.
     ok p)))))))"

definition finish_capture_body :: "payment_config \<Rightarrow> uuid \<Rightarrow> uuid \<Rightarrow> i64 option \<Rightarrow> payment M" where
  "finish_capture_body cfg i m capture_amount =
     and_then (lock_payment_for_update i m) (\<lambda>p.
     and_then (of_result (fst (transition (sm_new (pay_status p)) Captured))) (\<lambda>status.
     and_then utc_now (\<lambda>captured_at.
     and_then utc_now (\<lambda>now.
     record_manual_capture cfg (p\<lparr>pay_status := status, pay_captured_at := Some captured_at,
       pay_captured_amount := Some (unwrap_or capture_amount (pay_amount p)),
       pay_updated_at := now\<rparr>)))))"

definition finish_capture :: "payment_config \<Rightarrow> uuid \<Rightarrow> uuid \<Rightarrow> i64 option \<Rightarrow> payment M" where
  "finish_capture cfg i m capture_amount = transaction (finish_capture_body cfg i m capture_amount)"

definition capture_payment :: "payment_config \<Rightarrow> uuid \<Rightarrow> uuid \<Rightarrow> i64 option \<Rightarrow> payment M" where
  "capture_payment cfg i m capture_amount =
     and_then (check_capture i m) (\<lambda>p.
     and_then (acquirer_capture cfg i (pay_idempotency_key p)) (\<lambda>_.
     finish_capture cfg i m capture_amount))"

definition new_refund ::
  "uuid \<Rightarrow> uuid \<Rightarrow> create_refund_request \<Rightarrow> payment \<Rightarrow> i64 \<Rightarrow> time \<Rightarrow> uuid \<Rightarrow> refund" where
  "new_refund payment_id merchant_id req p amount now refund_id =
     \<lparr>rf_id = refund_id, rf_payment_id = payment_id, rf_merchant_id = merchant_id,
      rf_amount = amount, rf_currency = pay_currency p, rf_status = RefundPending,
      rf_reason = crr_reason req, rf_acquirer_refund_id = None, rf_failure_reason = None,
      rf_idempotency_key = crr_idempotency_key req, rf_created_at = now, rf_updated_at = now\<rparr>"

definition admit_refund_body ::
  "uuid \<Rightarrow> uuid \<Rightarrow> create_refund_request \<Rightarrow> time \<Rightarrow> uuid \<Rightarrow> refund M" where
  "admit_refund_body payment_id merchant_id req now refund_id =
     and_then (lock_payment_for_update payment_id merchant_id) (\<lambda>p.
     if pay_status p \<noteq> Captured \<and> pay_status p \<noteq> Settled
     then rollback_with (InvalidStateTransition (payment_status_debug (pay_status p)) ''Refund'')
     else (let refund_amount = unwrap_or (crr_amount req) (refundable_amount p) in
       if \<not> can_refund p refund_amount
       then rollback_with (AmountExceedsLimit refund_amount (refundable_amount p))
       else (let r = new_refund payment_id merchant_id req p refund_amount now refund_id in
         and_then (insert_refund r) (\<lambda>_.
         and_then (increment_refunded_amount payment_id refund_amount) (\<lambda>_.
         and_then (record_refund r) (\<lambda>_.
         and_then (build_refund_event_payload r) (\<lambda>payload.
         and_then (insert_outbox_event ''refund'' (rf_id r) ''refund.pending'' payload TOPIC_PAYMENTS) (\<lambda>_.
         ok r))))))))"

definition admit_refund :: "uuid \<Rightarrow> uuid \<Rightarrow> create_refund_request \<Rightarrow> refund M" where
  "admit_refund payment_id merchant_id req =
     and_then utc_now (\<lambda>now.
     and_then new_v4 (\<lambda>refund_id.
     transaction (admit_refund_body payment_id merchant_id req now refund_id)))"

definition resolve_refund :: "payment_config \<Rightarrow> refund \<Rightarrow> unit M" where
  "resolve_refund cfg r =
     match_result (acquirer_refund cfg (rf_payment_id r) (rf_amount r))
       (\<lambda>e. let reason = error_to_string e in
          and_then (update_refund_status (rf_id r) RefundFailed None (Some reason)) (\<lambda>_.
          err (AcquirerUnavailable (''Refund failed: '' @ reason))))
       (\<lambda>acquirer_refund_id.
          update_refund_status (rf_id r) RefundSucceeded (Some acquirer_refund_id) None)"

definition notify_refund :: "refund \<Rightarrow> unit M" where
  "notify_refund r = transaction (
     and_then (build_refund_event_payload r) (\<lambda>payload.
     insert_outbox_event ''refund'' (rf_id r) ''refund.succeeded'' payload TOPIC_WEBHOOKS))"

definition finish_refund :: "payment_config \<Rightarrow> refund \<Rightarrow> refund M" where
  "finish_refund cfg r =
     and_then (resolve_refund cfg r) (\<lambda>_.
     and_then (notify_refund r) (\<lambda>_.
     ok (r\<lparr>rf_status := RefundSucceeded\<rparr>)))"

definition create_refund :: "payment_config \<Rightarrow> uuid \<Rightarrow> uuid \<Rightarrow> create_refund_request \<Rightarrow> refund M" where
  "create_refund cfg payment_id merchant_id req =
     and_then (admit_refund payment_id merchant_id req) (finish_refund cfg)"

definition cancel_payment_body :: "uuid \<Rightarrow> uuid \<Rightarrow> payment M" where
  "cancel_payment_body i m =
     and_then (lock_payment_for_update i m) (\<lambda>p.
     and_then (of_result (fst (transition (sm_new (pay_status p)) Cancelled))) (\<lambda>status.
     and_then utc_now (\<lambda>now.
     let p = p\<lparr>pay_status := status, pay_updated_at := now\<rparr>
     in and_then (update_payment_status (pay_id p) Cancelled None None) (\<lambda>_.
        and_then (build_payment_event_payload p) (\<lambda>payload.
        and_then (insert_outbox_event ''payment'' (pay_id p) ''payment.cancelled'' payload TOPIC_PAYMENTS) (\<lambda>_.
        ok p))))))"

definition cancel_payment :: "uuid \<Rightarrow> uuid \<Rightarrow> payment M" where
  "cancel_payment i m = transaction (cancel_payment_body i m)"

end
