(* ===== verification/Dispute.thy ===== *)
theory Dispute
  imports Orchestrator
begin

text \<open>
  \<open>crates/payment-service/src/dispute.rs\<close>: opening a dispute. The row of the payment is locked
  and its status set to \<open>disputed\<close> without passing the state machine. A stored payment method
  that does not parse makes \<open>unwrap\<close> panic, which aborts the request and its transaction: it
  is modelled as the error \<open>Internal ''panic''\<close>.
\<close>

definition dispute_to_json :: "lib \<Rightarrow> dispute \<Rightarrow> json" where
  "dispute_to_json l x = JObj [(''id'', uuid_json l (di_id x)), (''payment_id'', uuid_json l (di_payment_id x)),
     (''merchant_id'', uuid_json l (di_merchant_id x)), (''amount'', JNum (di_amount x)),
     (''currency'', JStr (currency_str (di_currency x))),
     (''status'', JStr (dispute_status_str (di_status x))), (''reason_code'', JStr (di_reason_code x)),
     (''reason_description'', jopt JStr (di_reason_description x)),
     (''evidence'', jopt (\<lambda>j. j) (di_evidence x)),
     (''evidence_due_by'', jopt (\<lambda>t. JStr (time_show l t)) (di_evidence_due_by x)),
     (''evidence_submitted_at'', jopt (\<lambda>t. JStr (time_show l t)) (di_evidence_submitted_at x)),
     (''resolution'', jopt JStr (di_resolution x)),
     (''acquirer_dispute_id'', jopt JStr (di_acquirer_dispute_id x)),
     (''created_at'', JStr (time_show l (di_created_at x))),
     (''updated_at'', JStr (time_show l (di_updated_at x)))]"

definition insert_dispute_row :: "dispute \<Rightarrow> database \<Rightarrow> database option" where
  "insert_dispute_row x d =
     (if dispute_insertable d x then Some (d\<lparr>disputes := disputes d @ [x]\<rparr>) else None)"

definition disputed_row :: "time \<Rightarrow> payment_row \<Rightarrow> payment_row" where
  "disputed_row t r = r\<lparr>pay_status := Disputed, pay_updated_at := t\<rparr>"

definition new_dispute ::
  "uuid \<Rightarrow> uuid \<Rightarrow> uuid \<Rightarrow> i64 \<Rightarrow> currency \<Rightarrow> string \<Rightarrow> string \<Rightarrow> time \<Rightarrow> dispute" where
  "new_dispute dispute_id payment_id merchant_id amount currency reason_code acquirer_dispute_id now =
     \<lparr>di_id = dispute_id, di_payment_id = payment_id, di_merchant_id = merchant_id, di_amount = amount,
      di_currency = currency, di_status = NeedsResponse, di_reason_code = reason_code,
      di_reason_description = None, di_evidence = None,
      di_evidence_due_by = Some (now + time_secs (7 * 24 * 3600)), di_evidence_submitted_at = None,
      di_resolution = None, di_acquirer_dispute_id = Some acquirer_dispute_id,
      di_created_at = now, di_updated_at = now\<rparr>"

definition create_dispute_body :: "uuid \<Rightarrow> uuid \<Rightarrow> i64 \<Rightarrow> string \<Rightarrow> string \<Rightarrow> dispute M" where
  "create_dispute_body payment_id merchant_id amount reason_code acquirer_dispute_id =
     and_then new_v4 (\<lambda>dispute_id.
     and_then utc_now (\<lambda>now.
     and_then (sql (select_stmt (select_payment payment_id merchant_id))) (\<lambda>row.
     and_then (ok_or (Internal ''Payment not found'') row) (\<lambda>row.
     if (case pay_payment_method row of None \<Rightarrow> False | Some v \<Rightarrow> pm_from_json v = None)
     then err (Internal ''panic'')
     else (let x = new_dispute dispute_id payment_id merchant_id amount (pay_currency row) reason_code
                     acquirer_dispute_id now in
       and_then (sql (insert_stmt (\<lambda>t. insert_dispute_row x))) (\<lambda>_.
       and_then (sql (update_stmt (\<lambda>t. set_payments payment_id (disputed_row t)))) (\<lambda>_.
       and_then (read_lib (\<lambda>l. dispute_to_json l x)) (\<lambda>payload.
       and_then (insert_outbox_event ''dispute'' (di_id x) ''dispute.created'' payload ''rustpay.payments'') (\<lambda>_.
       ok x)))))))))"

definition create_dispute :: "uuid \<Rightarrow> uuid \<Rightarrow> i64 \<Rightarrow> string \<Rightarrow> string \<Rightarrow> dispute M" where
  "create_dispute payment_id merchant_id amount reason_code acquirer_dispute_id =
     transaction (create_dispute_body payment_id merchant_id amount reason_code acquirer_dispute_id)"

end
