(* ===== verification/Settlement.thy ===== *)
theory Settlement
  imports Orchestrator
begin

text \<open>
  \<open>crates/settlement-worker/src/settler.rs\<close>: the nightly batch. For every merchant with captured
  payments one transaction adds up what was captured, takes the fee, records a settlement and
  marks the payments settled. \<open>locked\<close> is the set of payments another transaction holds:
  \<open>FOR UPDATE SKIP LOCKED\<close> passes over them.
\<close>

definition unsettled :: "(uuid \<Rightarrow> bool) \<Rightarrow> uuid \<Rightarrow> database \<Rightarrow> payment_row list" where
  "unsettled locked m d = filter (\<lambda>r. pay_merchant_id r = m \<and> pay_status r = Captured \<and>
     pay_settled_at r = None \<and> \<not> locked (pay_id r)) (payments d)"

definition total_captured :: "payment_row list \<Rightarrow> i64" where
  "total_captured rs = foldl (\<lambda>acc r. wrap64 (acc + unwrap_or (pay_captured_amount r) (pay_amount r))) 0 rs"

definition insert_settlement_row :: "settlement \<Rightarrow> database \<Rightarrow> database option" where
  "insert_settlement_row s d =
     (if \<not> list_ex (\<lambda>q. st_id q = st_id s) (settlements d) \<and> has_merchant d (st_merchant_id s)
      then Some (d\<lparr>settlements := settlements d @ [s]\<rparr>) else None)"

definition batch_settled_row :: "time \<Rightarrow> payment_row \<Rightarrow> payment_row" where
  "batch_settled_row now r = r\<lparr>pay_status := Settled, pay_settled_at := Some now, pay_updated_at := now\<rparr>"

definition settle_rows :: "uuid list \<Rightarrow> time \<Rightarrow> database \<Rightarrow> database" where
  "settle_rows ids now d = d\<lparr>payments :=
     upd_where (\<lambda>r. List.member ids (pay_id r)) (batch_settled_row now) (payments d)\<rparr>"

text \<open>\<open>available + $2\<close> and \<open>pending - $3\<close> are BIGINT arithmetic.\<close>

definition balance_row :: "i64 \<Rightarrow> i64 \<Rightarrow> merchant_balance \<Rightarrow> merchant_balance" where
  "balance_row net gross b = b\<lparr>mb_available := mb_available b + net, mb_pending := max 0 (mb_pending b - gross)\<rparr>"

definition update_balance_stmt :: "uuid \<Rightarrow> i64 \<Rightarrow> i64 \<Rightarrow> unit stmt" where
  "update_balance_stmt m net gross = (\<lambda>t d.
     if list_ex (\<lambda>b. mb_merchant_id b = m \<and>
          (\<not> i64_range (mb_available b + net) \<or> \<not> i64_range (mb_pending b - gross))) (merchant_balances d)
     then Inl OutOfRange
     else Inr ((), d\<lparr>merchant_balances :=
       upd_where (\<lambda>b. mb_merchant_id b = m) (balance_row net gross) (merchant_balances d)\<rparr>))"

definition settle_body :: "f64 \<Rightarrow> (uuid \<Rightarrow> bool) \<Rightarrow> uuid \<Rightarrow> i64 M" where
  "settle_body pct locked m =
     and_then (sql (select_stmt (unsettled locked m))) (\<lambda>rs.
     if rs = [] then ok 0
     else (let total = total_captured rs; fee = fee_of total pct; net = wrap64 (total - fee) in
       and_then new_v4 (\<lambda>settlement_id.
       and_then utc_now (\<lambda>now.
       and_then (sql (insert_stmt (\<lambda>t. insert_settlement_row
         \<lparr>st_id = settlement_id, st_merchant_id = m, st_amount = net, st_currency = INR,
          st_status = ''completed'', st_created_at = now\<rparr>))) (\<lambda>_.
       and_then (sql (update_stmt (\<lambda>t. settle_rows (map pay_id rs) now))) (\<lambda>_.
       and_then (sql (update_balance_stmt m net total)) (\<lambda>_.
       and_then (read_lib (\<lambda>l. JObj [(''settlement_id'', uuid_json l settlement_id),
         (''merchant_id'', uuid_json l m), (''total_amount'', JNum total), (''fee_amount'', JNum fee),
         (''net_amount'', JNum net), (''payment_count'', JNum (int (length rs))),
         (''timestamp'', JStr (time_show l now))])) (\<lambda>payload.
       and_then (insert_outbox_event ''settlement'' settlement_id ''settlement.completed'' payload
         ''rustpay.webhooks'') (\<lambda>_.
       ok net)))))))))"

definition settle_merchant :: "f64 \<Rightarrow> (uuid \<Rightarrow> bool) \<Rightarrow> uuid \<Rightarrow> i64 M" where
  "settle_merchant pct locked m = transaction (settle_body pct locked m)"

definition merchants_to_settle :: "database \<Rightarrow> uuid list" where
  "merchants_to_settle d = remdups (map pay_merchant_id
     (filter (\<lambda>r. pay_status r = Captured \<and> pay_settled_at r = None) (payments d)))"

fun settle_all :: "f64 \<Rightarrow> (uuid \<Rightarrow> bool) \<Rightarrow> uuid list \<Rightarrow> nat \<Rightarrow> nat M" where
  "settle_all pct locked [] settled_count = ok settled_count"
| "settle_all pct locked (m # ms) settled_count =
     match_result (settle_merchant pct locked m)
       (\<lambda>e. settle_all pct locked ms settled_count)
       (\<lambda>amount. settle_all pct locked ms (Suc settled_count))"

definition run_settlement_batch :: "f64 \<Rightarrow> (uuid \<Rightarrow> bool) \<Rightarrow> nat M" where
  "run_settlement_batch pct locked =
     and_then (sql (select_stmt merchants_to_settle)) (\<lambda>ms. settle_all pct locked ms 0)"

text \<open>The worker sleeps until the next midnight, in whole seconds.\<close>

definition secs_until_midnight :: "time \<Rightarrow> int" where
  "secs_until_midnight now =
     (let day = time_secs 86400; next_midnight = (now div day + 1) * day
      in max 0 ((next_midnight - now) div nanos))"

lemma secs_until_midnight_bounds: "0 \<le> secs_until_midnight now \<and> secs_until_midnight now \<le> 86400"
proof -
  define day where "day = time_secs 86400"
  have "day > 0" by (simp add: day_def time_secs_def)
  then have "0 \<le> now mod day" "now mod day < day" by simp_all
  moreover have "(now div day + 1) * day - now = day - now mod day"
    by (simp add: algebra_simps minus_mod_eq_mult_div [symmetric])
  ultimately show ?thesis
    by (auto simp: secs_until_midnight_def Let_def day_def [symmetric] time_secs_def)
qed

end
