(* ===== verification/Payment_Books.thy ===== *)
theory Payment_Books
  imports Dispute Settlement
begin

text \<open>
  What the payment tables and the ledger say together. \<open>books pct d\<close> is the invariant the
  transactions of the payment service, of disputes and of settlement keep: identifiers and
  idempotency keys are unique, every row is well formed, and each account holds for each
  payment exactly what the row of the payment implies. The transactions are reduced to one
  lemma, \<open>books_update\<close>: a change of one payment's row together with postings that move the
  accounts by the difference.
\<close>

section \<open>Rows\<close>

definition captured_statuses :: "payment_status list" where
  "captured_statuses = [Captured, Settled]"

definition open_statuses :: "payment_status list" where
  "open_statuses = [Created, Pending, RequiresAction, Authorized, Cancelled]"

definition row_ok :: "payment_row \<Rightarrow> bool" where
  "row_ok r \<longleftrightarrow> 0 < pay_amount r \<and> 0 \<le> pay_refunded_amount r \<and>
     pay_refunded_amount r \<le> effective_amount r \<and>
     (pay_captured_amount r = None \<longrightarrow> pay_refunded_amount r = 0 \<and> pay_status r \<notin> set captured_statuses) \<and>
     (pay_captured_amount r \<noteq> None \<longrightarrow> 0 < the (pay_captured_amount r) \<and> pay_status r \<notin> set open_statuses)"

definition captured_of :: "payment_row \<Rightarrow> int" where
  "captured_of r = unwrap_or (pay_captured_amount r) 0"

definition fee_taken :: "f64 \<Rightarrow> payment_row \<Rightarrow> int" where
  "fee_taken pct r = (case pay_captured_amount r of None \<Rightarrow> 0 | Some c \<Rightarrow> max 0 (fee_of c pct))"

text \<open>What an account holds for a payment when the ledger and the row agree.\<close>

definition expected_net :: "f64 \<Rightarrow> uuid \<Rightarrow> payment_row \<Rightarrow> int" where
  "expected_net pct a r =
     (if a = MERCHANT_PAYABLE then captured_of r - fee_taken pct r - pay_refunded_amount r
      else if a = GATEWAY_FLOAT then pay_refunded_amount r - captured_of r
      else if a = FEE_INCOME then fee_taken pct r
      else 0)"

definition refund_sum :: "uuid \<Rightarrow> database \<Rightarrow> int" where
  "refund_sum i d = sum_list (map rf_amount (filter (\<lambda>r. rf_payment_id r = i) (refunds d)))"

section \<open>The invariant\<close>

definition keys_unique :: "payment_row list \<Rightarrow> bool" where
  "keys_unique rs \<longleftrightarrow> (\<forall>r \<in> set rs. \<forall>s \<in> set rs.
     same_key (pay_merchant_id r) (pay_idempotency_key r) (pay_merchant_id s) (pay_idempotency_key s) \<longrightarrow>
     pay_id r = pay_id s)"

definition books :: "f64 \<Rightarrow> database \<Rightarrow> bool" where
  "books pct d \<longleftrightarrow> distinct (map pay_id (payments d)) \<and> keys_unique (payments d) \<and>
     (\<forall>r \<in> set (payments d). row_ok r) \<and>
     (\<forall>r \<in> set (payments d). \<forall>a. account_net a (pay_id r) d = expected_net pct a r) \<and>
     le_payment_id ` set (ledger_entries d) \<subseteq> pay_id ` set (payments d) \<and>
     (\<forall>r \<in> set (payments d). refund_sum (pay_id r) d \<le> pay_refunded_amount r) \<and>
     rf_payment_id ` set (refunds d) \<subseteq> pay_id ` set (payments d) \<and>
     by_payment.balanced d \<and> by_merchant.balanced d"

lemma keys_unique_map:
  "keys_unique rs \<longleftrightarrow>
     (\<forall>x \<in> set (map (\<lambda>r. (pay_merchant_id r, pay_idempotency_key r, pay_id r)) rs).
      \<forall>y \<in> set (map (\<lambda>r. (pay_merchant_id r, pay_idempotency_key r, pay_id r)) rs).
        same_key (fst x) (fst (snd x)) (fst y) (fst (snd y)) \<longrightarrow> snd (snd x) = snd (snd y))"
  by (simp add: keys_unique_def)

text \<open>Changes elsewhere in the database do not concern the books.\<close>

definition same_books :: "database \<Rightarrow> database \<Rightarrow> bool" where
  "same_books d d' \<longleftrightarrow> payments d' = payments d \<and> ledger_entries d' = ledger_entries d \<and> refunds d' = refunds d"

lemma same_books_refl [simp]: "same_books d d"
  by (simp add: same_books_def)

lemma entry_total_cong: "ledger_entries d' = ledger_entries d \<Longrightarrow> entry_total k ty i d' = entry_total k ty i d"
  by (simp add: entry_total_def)

lemma books_cong: "same_books d d' \<Longrightarrow> books pct d' = books pct d"
  by (simp add: same_books_def books_def by_payment.balanced_def by_merchant.balanced_def
      account_net_def entry_total_def refund_sum_def)

lemma same_books_trans: "\<lbrakk>same_books c d; same_books d e\<rbrakk> \<Longrightarrow> same_books c e"
  by (simp add: same_books_def)

text \<open>What the books see of a posting.\<close>

definition books_posted :: "posting \<Rightarrow> database \<Rightarrow> database \<Rightarrow> bool" where
  "books_posted p d d' \<longleftrightarrow> payments d' = payments d \<and> refunds d' = refunds d \<and> 0 < po_amount p \<and>
     (\<forall>a i. account_net a i d' = account_net a i d +
       (if i = po_payment_id p
        then (if a = po_credit_account p then po_amount p else 0) -
             (if a = po_debit_account p then po_amount p else 0)
        else 0)) \<and>
     le_payment_id ` set (ledger_entries d') \<subseteq> insert (po_payment_id p) (le_payment_id ` set (ledger_entries d)) \<and>
     by_payment.balanced d' = by_payment.balanced d \<and> by_merchant.balanced d' = by_merchant.balanced d"

lemma pair_posted_books:
  assumes "pair_posted l p d d'"
  shows "books_posted p d d'"
proof -
  have "le_payment_id ` set (ledger_entries d') \<subseteq> insert (po_payment_id p) (le_payment_id ` set (ledger_entries d))"
    and "payments d' = payments d" "refunds d' = refunds d" "0 < po_amount p"
    using assms by (auto simp: pair_posted_def Let_def debit_row_def credit_row_def)
  then show ?thesis
    using account_net_posted [OF assms] by_payment.post_balanced [OF assms] by_merchant.post_balanced [OF assms]
    by (simp add: books_posted_def)
qed

section \<open>Rules\<close>

lemma txp_posting:
  "(\<And>d'. books_posted p d d' \<Longrightarrow> Q () d') \<Longrightarrow> txp l (write_double_entry p) Q d"
  by (rule txp_write_double_entry) (blast dest: pair_posted_books)

lemma txp_outbox:
  "(\<And>d'. same_books d d' \<Longrightarrow> Q () d') \<Longrightarrow> txp l (insert_outbox_event ty i ev payload topic) Q d"
  unfolding insert_outbox_event_def
  by (intro txp_rules) (auto simp: insert_outbox_row_def same_books_def split: if_splits)

lemma txp_payment_payload: "(\<And>j. Q j d) \<Longrightarrow> txp l (build_payment_event_payload p) Q d"
  unfolding build_payment_event_payload_def by (intro txp_rules)

lemma txp_refund_payload: "(\<And>j. Q j d) \<Longrightarrow> txp l (build_refund_event_payload r) Q d"
  unfolding build_refund_event_payload_def by (intro txp_rules)

lemma select_payment_SomeD:
  "select_payment i m d = Some r \<Longrightarrow> r \<in> set (payments d) \<and> pay_id r = i \<and> pay_merchant_id r = m"
  by (auto simp: select_payment_def dest: find_set)

lemma txp_lock:
  "(\<And>r. \<lbrakk>r \<in> set (payments d); pay_id r = i; pay_merchant_id r = m\<rbrakk> \<Longrightarrow> Q (row_to_payment r) d) \<Longrightarrow>
     txp l (lock_payment_for_update i m) Q d"
  unfolding lock_payment_for_update_def
  by (intro txp_rules) (auto dest: select_payment_SomeD)

lemmas books_rules = txp_posting txp_outbox txp_payment_payload txp_refund_payload txp_lock

section \<open>Changing one payment\<close>

lemma key_row_unique:
  "\<lbrakk>distinct (map pay_id rs); r \<in> set rs; q \<in> set rs; pay_id q = pay_id r\<rbrakk> \<Longrightarrow> q = r"
  by (metis find_distinct_key option.inject)

lemma books_update:
  assumes b: "books pct d" and r: "r \<in> set (payments d)"
    and pd: "payments d' = upd_where P f (payments d)"
    and P: "\<And>q. q \<in> set (payments d) \<Longrightarrow> P q \<longleftrightarrow> pay_id q = pay_id r"
    and same: "\<And>q. pay_id (f q) = pay_id q" "\<And>q. pay_merchant_id (f q) = pay_merchant_id q"
      "\<And>q. pay_idempotency_key (f q) = pay_idempotency_key q"
    and ok: "row_ok (f r)"
    and net: "\<And>a j. account_net a j d' = account_net a j d +
       (if j = pay_id r then expected_net pct a (f r) - expected_net pct a r else 0)"
    and ids: "le_payment_id ` set (ledger_entries d') \<subseteq> insert (pay_id r) (le_payment_id ` set (ledger_entries d))"
    and rsum: "\<And>j. refund_sum j d' \<le> refund_sum j d +
       (if j = pay_id r then pay_refunded_amount (f r) - pay_refunded_amount r else 0)"
    and rids: "rf_payment_id ` set (refunds d') \<subseteq> insert (pay_id r) (rf_payment_id ` set (refunds d))"
    and bal: "by_payment.balanced d' = by_payment.balanced d" "by_merchant.balanced d' = by_merchant.balanced d"
  shows "books pct d'"
proof -
  have dist: "distinct (map pay_id (payments d))" and old: "\<And>q. q \<in> set (payments d) \<Longrightarrow> row_ok q"
    "\<And>q a. q \<in> set (payments d) \<Longrightarrow> account_net a (pay_id q) d = expected_net pct a q"
    "\<And>q. q \<in> set (payments d) \<Longrightarrow> refund_sum (pay_id q) d \<le> pay_refunded_amount q"
    using b by (simp_all add: books_def)
  have pids: "map pay_id (payments d') = map pay_id (payments d)"
    by (simp add: pd map_upd_where_id same)
  then have idset: "pay_id ` set (payments d') = pay_id ` set (payments d)"
    by (metis set_map)
  have rows: "q = f r \<or> q \<in> set (payments d) \<and> pay_id q \<noteq> pay_id r" if q: "q \<in> set (payments d')" for q
  proof -
    from q pd obtain q' where q': "q' \<in> set (payments d)" "q = (if P q' then f q' else q')"
      by (auto simp: in_upd_where)
    show ?thesis
    proof (cases "pay_id q' = pay_id r")
      case True
      then have "q' = r" by (rule key_row_unique [OF dist r q'(1)])
      with q' P [OF q'(1)] show ?thesis by simp
    next
      case False
      with q' P [OF q'(1)] show ?thesis by simp
    qed
  qed
  have new: "row_ok q \<and> (\<forall>a. account_net a (pay_id q) d' = expected_net pct a q) \<and>
      refund_sum (pay_id q) d' \<le> pay_refunded_amount q" if "q \<in> set (payments d')" for q
    using rows [OF that]
  proof
    assume q: "q = f r"
    show ?thesis
      using net [of _ "pay_id r"] rsum [of "pay_id r"] old(2,3) [OF r] ok by (simp add: q same)
  next
    assume q: "q \<in> set (payments d) \<and> pay_id q \<noteq> pay_id r"
    then show ?thesis
      using net [of _ "pay_id q"] rsum [of "pay_id q"] old [of q] by simp
  qed
  have keys: "keys_unique (payments d')"
    using b unfolding keys_unique_map books_def by (simp add: pd map_upd_where_id same)
  have in_ids: "pay_id r \<in> pay_id ` set (payments d)" using r by simp
  have subs: "le_payment_id ` set (ledger_entries d) \<subseteq> pay_id ` set (payments d)"
    "rf_payment_id ` set (refunds d) \<subseteq> pay_id ` set (payments d)"
    and bal': "by_payment.balanced d'" "by_merchant.balanced d'"
    using b bal by (simp_all add: books_def)
  have "le_payment_id ` set (ledger_entries d') \<subseteq> pay_id ` set (payments d)"
    by (rule subset_trans [OF ids]) (use subs(1) in_ids in \<open>simp only: insert_subset\<close>)
  moreover have "rf_payment_id ` set (refunds d') \<subseteq> pay_id ` set (payments d)"
    by (rule subset_trans [OF rids]) (use subs(2) in_ids in \<open>simp only: insert_subset\<close>)
  ultimately show ?thesis
    unfolding books_def idset pids using dist keys new bal' by (intro conjI ballI allI) (simp_all only:)
qed

end
