(* ===== verification/Payment_Steps.thy ===== *)
theory Payment_Steps
  imports Payment_Books
begin

text \<open>Every transaction of the payment services keeps the books.\<close>

section \<open>Admission\<close>

lemma books_insert:
  assumes b: "books pct d" and new: "payment_insertable d r"
    and fresh: "\<not> list_ex (\<lambda>q. same_key (pay_merchant_id q) (pay_idempotency_key q)
       (pay_merchant_id r) (pay_idempotency_key r)) (payments d)"
    and r: "pay_status r = Created" "pay_captured_amount r = None" "pay_refunded_amount r = 0"
  shows "books pct (d\<lparr>payments := payments d @ [r]\<rparr>)"
proof -
  let ?d = "d\<lparr>payments := payments d @ [r]\<rparr>"
  have id: "pay_id r \<notin> pay_id ` set (payments d)" and pos: "0 < pay_amount r"
    using new by (auto simp: payment_insertable_def table_simps)
  have ok: "row_ok r" using pos r
    by (simp add: row_ok_def captured_statuses_def open_statuses_def effective_amount_def)
  have "pay_id r \<notin> le_payment_id ` set (ledger_entries d)"
    using b id by (auto simp: books_def)
  then have net: "account_net a (pay_id r) d = expected_net pct a r" for a
    using r by (simp add: account_net_absent expected_net_def captured_of_def fee_taken_def)
  have "rf_payment_id ` set (refunds d) \<subseteq> pay_id ` set (payments d)"
    using b by (simp add: books_def)
  then have "rf_payment_id q \<noteq> pay_id r" if "q \<in> set (refunds d)" for q
    using id that by (metis image_eqI subsetD)
  then have "filter (\<lambda>q. rf_payment_id q = pay_id r) (refunds d) = []"
    by (simp add: filter_empty_conv)
  then have rsum: "refund_sum (pay_id r) d \<le> pay_refunded_amount r"
    using r by (simp add: refund_sum_def)
  have keys: "keys_unique (payments d @ [r])"
    unfolding keys_unique_def
  proof (intro ballI impI)
    fix x y assume xy: "x \<in> set (payments d @ [r])" "y \<in> set (payments d @ [r])"
      "same_key (pay_merchant_id x) (pay_idempotency_key x) (pay_merchant_id y) (pay_idempotency_key y)"
    have "keys_unique (payments d)" using b by (simp add: books_def)
    moreover have "\<not> same_key (pay_merchant_id q) (pay_idempotency_key q) (pay_merchant_id r) (pay_idempotency_key r)"
      "\<not> same_key (pay_merchant_id r) (pay_idempotency_key r) (pay_merchant_id q) (pay_idempotency_key q)"
      if "q \<in> set (payments d)" for q
      using fresh that by (auto simp: list_ex_iff same_key_def)
    ultimately show "pay_id x = pay_id y"
      using xy unfolding keys_unique_def by (cases "x = r"; cases "y = r") simp_all
  qed
  have same: "account_net a i ?d = account_net a i d" "refund_sum i ?d = refund_sum i d"
    "by_payment.balanced ?d = by_payment.balanced d" "by_merchant.balanced ?d = by_merchant.balanced d" for a i
    by (simp_all add: account_net_def refund_sum_def by_payment.balanced_def by_merchant.balanced_def entry_total_def)
  have "\<forall>q \<in> set (payments ?d). row_ok q"
    "\<forall>q \<in> set (payments ?d). \<forall>a. account_net a (pay_id q) ?d = expected_net pct a q"
    "\<forall>q \<in> set (payments ?d). refund_sum (pay_id q) ?d \<le> pay_refunded_amount q"
    using b ok net rsum by (simp_all add: same books_def)
  then show ?thesis
    using b id keys by (simp add: books_def same subset_insertI2)
qed

lemma txp_insert_payment:
  assumes "\<And>r d'. \<lbrakk>payment_insertable d (new_payment_row p);
       \<not> list_ex (\<lambda>q. same_key (pay_merchant_id q) (pay_idempotency_key q)
         (pay_merchant_id p) (pay_idempotency_key p)) (payments d)\<rbrakk> \<Longrightarrow>
       Q (pay_id p, True) (d\<lparr>payments := payments d @ [new_payment_row p]\<rparr>)"
    and "\<And>q. \<lbrakk>q \<in> set (payments d); pay_merchant_id q = pay_merchant_id p;
       pay_idempotency_key q = pay_idempotency_key p; pay_idempotency_key p \<noteq> None\<rbrakk> \<Longrightarrow> Q (pay_id q, False) d"
  shows "txp l (insert_payment_idempotent p) Q d"
  unfolding insert_payment_idempotent_def
  by (intro txp_rules txp_sql)
    (use assms in \<open>auto simp: insert_payment_stmt_def new_payment_row_def find_by_key_def split: if_splits option.splits
      dest: find_set\<close>)

text \<open>Rows are never removed, and who owns them, what they ask for and their key never change.\<close>

definition grows :: "database \<Rightarrow> database \<Rightarrow> bool" where
  "grows d d' \<longleftrightarrow> (\<forall>r \<in> set (payments d). \<exists>q \<in> set (payments d'). pay_id q = pay_id r \<and>
     pay_merchant_id q = pay_merchant_id r \<and> pay_amount q = pay_amount r \<and>
     pay_idempotency_key q = pay_idempotency_key r)"

lemma grows_refl [simp]: "grows d d"
  by (auto simp: grows_def)

lemma grows_same: "payments d' = payments d \<Longrightarrow> grows d d'"
  by (auto simp: grows_def)

lemma grows_cong: "payments d' = payments d1 \<Longrightarrow> grows d d' = grows d d1"
  by (simp add: grows_def)

lemma grows_append: "payments d' = payments d @ rs \<Longrightarrow> grows d d'"
  by (auto simp: grows_def)

lemma grows_update:
  assumes "payments d' = upd_where P f (payments d)"
    and "\<And>q. pay_id (f q) = pay_id q" "\<And>q. pay_merchant_id (f q) = pay_merchant_id q"
      "\<And>q. pay_amount (f q) = pay_amount q" "\<And>q. pay_idempotency_key (f q) = pay_idempotency_key q"
  shows "grows d d'"
  unfolding grows_def
proof
  fix r assume "r \<in> set (payments d)"
  then have "(if P r then f r else r) \<in> set (payments d')"
    by (auto simp: assms(1) in_upd_where)
  then show "\<exists>q \<in> set (payments d'). pay_id q = pay_id r \<and> pay_merchant_id q = pay_merchant_id r \<and>
      pay_amount q = pay_amount r \<and> pay_idempotency_key q = pay_idempotency_key r"
    by (rule bexI [rotated]) (simp add: assms)
qed

text \<open>
  What admission does: a new row, or nothing and the identifier of the row that has the
  merchant's key.
\<close>

definition admitted :: "payment \<Rightarrow> database \<Rightarrow> uuid \<times> bool \<Rightarrow> database \<Rightarrow> bool" where
  "admitted p d res d' \<longleftrightarrow>
     (if snd res then fst res = pay_id p \<and> payments d' = payments d @ [new_payment_row p] \<and>
        ledger_entries d' = ledger_entries d \<and> refunds d' = refunds d
      else d' = d \<and> (\<exists>q \<in> set (payments d). pay_id q = fst res \<and>
        pay_merchant_id q = pay_merchant_id p \<and> pay_idempotency_key q = pay_idempotency_key p \<and>
        pay_idempotency_key p \<noteq> None))"

lemma txp_admit:
  assumes "books pct d" and "pay_status p = Created" "pay_captured_amount p = None"
  shows "txp l (admit_body p) (\<lambda>res d'. books pct d' \<and> admitted p d res d') d"
  unfolding admit_body_def
proof (intro txp_and_then txp_insert_payment)
  assume "payment_insertable d (new_payment_row p)" and "\<not> list_ex (\<lambda>q. same_key (pay_merchant_id q)
      (pay_idempotency_key q) (pay_merchant_id p) (pay_idempotency_key p)) (payments d)"
  then have b: "books pct (d\<lparr>payments := payments d @ [new_payment_row p]\<rparr>)"
    using assms by (intro books_insert) (simp_all add: new_payment_row_def)
  then show "txp l (case (pay_id p, True) of (actual_id, was_inserted) \<Rightarrow> if \<not> was_inserted then ok (actual_id, False)
      else and_then (build_payment_event_payload p) (\<lambda>payload.
        and_then (insert_outbox_event ''payment'' (pay_id p) ''payment.created'' payload TOPIC_PAYMENTS)
          (\<lambda>_. ok (actual_id, True)))) (\<lambda>res d'. books pct d' \<and> admitted p d res d')
      (d\<lparr>payments := payments d @ [new_payment_row p]\<rparr>)"
    by (intro txp_rules books_rules) (auto simp: admitted_def books_cong, auto simp: same_books_def)
next
  fix q assume "q \<in> set (payments d)" "pay_merchant_id q = pay_merchant_id p"
    "pay_idempotency_key q = pay_idempotency_key p" "pay_idempotency_key p \<noteq> None"
  with assms(1) show "txp l (case (pay_id q, False) of (actual_id, was_inserted) \<Rightarrow> if \<not> was_inserted then ok (actual_id, False)
      else and_then (build_payment_event_payload p) (\<lambda>payload.
        and_then (insert_outbox_event ''payment'' (pay_id p) ''payment.created'' payload TOPIC_PAYMENTS)
          (\<lambda>_. ok (actual_id, True)))) (\<lambda>res d'. books pct d' \<and> admitted p d res d') d"
    by (intro txp_rules) (auto simp: admitted_def)
qed

section \<open>Status changes\<close>

lemma books_restatus:
  assumes b: "books pct d" and pd: "payments d' = upd_where P f (payments d)"
    and rest: "ledger_entries d' = ledger_entries d" "refunds d' = refunds d"
    and same: "\<And>q. pay_id (f q) = pay_id q" "\<And>q. pay_merchant_id (f q) = pay_merchant_id q"
      "\<And>q. pay_idempotency_key (f q) = pay_idempotency_key q" "\<And>q. pay_captured_amount (f q) = pay_captured_amount q"
      "\<And>q. pay_refunded_amount (f q) = pay_refunded_amount q"
    and ok: "\<And>q. \<lbrakk>q \<in> set (payments d); P q; row_ok q\<rbrakk> \<Longrightarrow> row_ok (f q)"
  shows "books pct d'"
proof -
  have pids: "map pay_id (payments d') = map pay_id (payments d)"
    by (simp add: pd map_upd_where_id same)
  then have idset: "pay_id ` set (payments d') = pay_id ` set (payments d)"
    by (metis set_map)
  have keys: "keys_unique (payments d')"
    using b unfolding keys_unique_map books_def by (simp add: pd map_upd_where_id same)
  have cong: "account_net a i d' = account_net a i d" "refund_sum i d' = refund_sum i d"
    "by_payment.balanced d' = by_payment.balanced d" "by_merchant.balanced d' = by_merchant.balanced d" for a i
    by (simp_all add: account_net_def refund_sum_def by_payment.balanced_def by_merchant.balanced_def
        entry_total_def rest)
  have enet: "expected_net pct a (f q) = expected_net pct a q" for a q
    by (simp add: expected_net_def captured_of_def fee_taken_def same)
  have "row_ok q \<and> (\<forall>a. account_net a (pay_id q) d = expected_net pct a q) \<and>
      refund_sum (pay_id q) d \<le> pay_refunded_amount q" if "q \<in> set (payments d')" for q
  proof -
    from that pd obtain q' where q': "q' \<in> set (payments d)" "q = (if P q' then f q' else q')"
      by (auto simp: in_upd_where)
    have "row_ok q' \<and> (\<forall>a. account_net a (pay_id q') d = expected_net pct a q') \<and>
        refund_sum (pay_id q') d \<le> pay_refunded_amount q'"
      using b q'(1) by (simp add: books_def)
    with q' ok [OF q'(1)] show ?thesis by (simp add: same enet)
  qed
  then show ?thesis
    using b keys unfolding books_def idset pids cong rest by (intro conjI ballI allI) simp_all
qed

lemma row_ok_status_row [simp]:
  "row_ok r \<Longrightarrow> st \<notin> set captured_statuses \<Longrightarrow> pay_captured_amount r = None \<or> st \<notin> set open_statuses \<Longrightarrow>
     row_ok (status_row t st c m r)"
  by (auto simp: row_ok_def status_row_def effective_amount_def)

lemma row_ok_disputed [simp]: "row_ok r \<Longrightarrow> row_ok (disputed_row t r)"
  by (auto simp: row_ok_def disputed_row_def effective_amount_def captured_statuses_def open_statuses_def)

lemma row_ok_settled [simp]: "row_ok r \<Longrightarrow> pay_status r = Captured \<Longrightarrow> row_ok (batch_settled_row t r)"
  by (auto simp: row_ok_def batch_settled_row_def effective_amount_def captured_statuses_def open_statuses_def)

text \<open>\<open>kept pct d d'\<close>: the books still hold and no payment was lost.\<close>

definition kept :: "f64 \<Rightarrow> database \<Rightarrow> database \<Rightarrow> bool" where
  "kept pct d d' \<longleftrightarrow> books pct d' \<and> grows d d'"

lemma kept_same: "same_books d1 d' \<Longrightarrow> kept pct d d1 \<Longrightarrow> kept pct d d'"
  by (simp add: kept_def books_cong) (simp add: same_books_def grows_def)

lemma kept_refl: "books pct d \<Longrightarrow> kept pct d d"
  by (simp add: kept_def)

lemma kept_set_status:
  assumes "books pct d" and "st \<notin> set captured_statuses"
    and "\<And>r. \<lbrakk>r \<in> set (payments d); pay_id r = i\<rbrakk> \<Longrightarrow> pay_captured_amount r = None \<or> st \<notin> set open_statuses"
  shows "kept pct d (set_payments i (status_row t st c m) d)"
  unfolding kept_def
proof
  show "books pct (set_payments i (status_row t st c m) d)"
    by (rule books_restatus [OF assms(1), where P = "\<lambda>r. pay_id r = i" and f = "status_row t st c m"])
      (simp_all add: set_payments_def assms, simp_all add: status_row_def)
  show "grows d (set_payments i (status_row t st c m) d)"
    by (rule grows_update [where P = "\<lambda>r. pay_id r = i" and f = "status_row t st c m"])
      (simp_all add: set_payments_def status_row_def)
qed

lemma txp_fail:
  assumes "books pct d"
  shows "txp l (fail_body i code message payload) (\<lambda>_. kept pct d) d"
  unfolding fail_body_def update_payment_status_def
  by (intro txp_rules books_rules, erule kept_same)
    (rule kept_set_status [OF assms], simp_all add: captured_statuses_def open_statuses_def)

lemma txp_dispute:
  assumes "books pct d"
  shows "txp l (create_dispute_body i m amount rc aid) (\<lambda>_. kept pct d) d"
proof -
  have upd: "kept pct d (set_payments i (disputed_row t) d1)" if "same_books d d1" for t d1
  proof -
    have b: "books pct d1" using that assms by (simp add: books_cong)
    have "books pct (set_payments i (disputed_row t) d1)"
      by (rule books_restatus [OF b, where P = "\<lambda>r. pay_id r = i" and f = "disputed_row t"])
        (simp_all add: set_payments_def, simp_all add: disputed_row_def)
    moreover have "grows d1 (set_payments i (disputed_row t) d1)"
      by (rule grows_update [where P = "\<lambda>r. pay_id r = i" and f = "disputed_row t"])
        (simp_all add: set_payments_def disputed_row_def)
    ultimately show ?thesis using that by (simp add: kept_def same_books_def grows_def)
  qed
  show ?thesis
    unfolding create_dispute_body_def Let_def
    by (intro txp_rules books_rules; (erule kept_same)?; (rule upd)?)
      (auto simp: insert_dispute_row_def same_books_def split: if_splits)
qed

lemma transition_Cancelled_captured:
  "\<lbrakk>row_ok r; fst (transition (sm_new (pay_status r)) Cancelled) = Inr st\<rbrakk> \<Longrightarrow> pay_captured_amount r = None"
  by (cases "pay_status r") (auto simp: transition_def sm_new_def row_ok_def open_statuses_def)

lemma row_to_payment_sel [simp]:
  "pay_id (row_to_payment r) = pay_id r" "pay_merchant_id (row_to_payment r) = pay_merchant_id r"
  "pay_amount (row_to_payment r) = pay_amount r" "pay_status (row_to_payment r) = pay_status r"
  "pay_captured_amount (row_to_payment r) = pay_captured_amount r"
  "pay_refunded_amount (row_to_payment r) = pay_refunded_amount r"
  "pay_currency (row_to_payment r) = pay_currency r"
  "pay_capture_method (row_to_payment r) = pay_capture_method r"
  by (simp_all add: row_to_payment_def)

lemma txp_cancel:
  assumes b: "books pct d"
  shows "txp l (cancel_payment_body i m) (\<lambda>_. kept pct d) d"
  unfolding cancel_payment_body_def update_payment_status_def Let_def
proof (intro txp_rules books_rules, erule kept_same)
  fix r st t u
  assume r: "r \<in> set (payments d)" "pay_id r = i" and st: "fst (transition (sm_new (pay_status (row_to_payment r))) Cancelled) = Inr st"
  have "row_ok r" using b r by (simp add: books_def)
  then have "pay_captured_amount r = None" using st by (auto intro: transition_Cancelled_captured)
  moreover have "distinct (map pay_id (payments d))" using b by (simp add: books_def)
  ultimately have "pay_captured_amount q = None" if "q \<in> set (payments d)" "pay_id q = i" for q
    using r that key_row_unique [of "payments d" r q] by simp
  then show "kept pct d (set_payments (pay_id ((row_to_payment r)\<lparr>pay_status := st, pay_updated_at := t\<rparr>))
      (status_row u Cancelled None None) d)"
    using r kept_set_status [OF b, of Cancelled i u None None]
    by (simp add: captured_statuses_def)
qed

section \<open>Captures\<close>

text \<open>The fee posting, when there is one.\<close>

definition fee_posted :: "uuid \<Rightarrow> i64 \<Rightarrow> database \<Rightarrow> database \<Rightarrow> bool" where
  "fee_posted i fee d d' \<longleftrightarrow>
     (if fee > 0 then \<exists>p. books_posted p d d' \<and> po_payment_id p = i \<and> po_amount p = fee \<and>
        po_debit_account p = MERCHANT_PAYABLE \<and> po_credit_account p = FEE_INCOME
      else d' = d)"

lemma fee_postedI:
  "\<lbrakk>0 < fee; books_posted p d d'; po_payment_id p = i; po_amount p = fee;
     po_debit_account p = MERCHANT_PAYABLE; po_credit_account p = FEE_INCOME\<rbrakk> \<Longrightarrow> fee_posted i fee d d'"
  by (auto simp: fee_posted_def)

lemma txp_record_fee:
  assumes "\<And>d'. fee_posted (pay_id p) fee d d' \<Longrightarrow> Q () d'"
  shows "txp l (record_fee_if_positive p fee) Q d"
  unfolding record_fee_if_positive_def record_fee_def
  by (intro txp_rules books_rules; rule assms; (erule (1) fee_postedI)?) (simp_all add: fee_posted_def)

text \<open>What the fee leaves alone.\<close>

lemma fee_posted_rest:
  assumes "fee_posted i fee d d'"
  shows "payments d' = payments d" "refunds d' = refunds d"
    "le_payment_id ` set (ledger_entries d') \<subseteq> insert i (le_payment_id ` set (ledger_entries d))"
    "by_payment.balanced d' = by_payment.balanced d" "by_merchant.balanced d' = by_merchant.balanced d"
    "account_net a j d' = account_net a j d + (if j = i then
       (if a = FEE_INCOME then max 0 fee else 0) - (if a = MERCHANT_PAYABLE then max 0 fee else 0) else 0)"
proof -
  have "payments d' = payments d \<and> refunds d' = refunds d \<and>
    le_payment_id ` set (ledger_entries d') \<subseteq> insert i (le_payment_id ` set (ledger_entries d)) \<and>
    by_payment.balanced d' = by_payment.balanced d \<and> by_merchant.balanced d' = by_merchant.balanced d \<and>
    account_net a j d' = account_net a j d + (if j = i then
       (if a = FEE_INCOME then max 0 fee else 0) - (if a = MERCHANT_PAYABLE then max 0 fee else 0) else 0)"
  proof (cases "0 < fee")
    case True
    then show ?thesis using assms by (auto simp: fee_posted_def books_posted_def)
  next
    case False
    then show ?thesis using assms by (auto simp: fee_posted_def)
  qed
  then show "payments d' = payments d" "refunds d' = refunds d"
    "le_payment_id ` set (ledger_entries d') \<subseteq> insert i (le_payment_id ` set (ledger_entries d))"
    "by_payment.balanced d' = by_payment.balanced d" "by_merchant.balanced d' = by_merchant.balanced d"
    "account_net a j d' = account_net a j d + (if j = i then
       (if a = FEE_INCOME then max 0 fee else 0) - (if a = MERCHANT_PAYABLE then max 0 fee else 0) else 0)"
    by blast+
qed

lemma txp_record_capture:
  assumes "\<And>po d'. \<lbrakk>books_posted po d d'; po_payment_id po = pay_id p; po_amount po = effective_amount p;
     po_debit_account po = GATEWAY_FLOAT; po_credit_account po = MERCHANT_PAYABLE\<rbrakk> \<Longrightarrow> Q () d'"
  shows "txp l (record_capture p) Q d"
  unfolding record_capture_def
  by (intro txp_rules books_rules, erule assms) (simp_all add: effective_amount_def)

lemma books_capture:
  assumes b: "books pct d" and r: "r \<in> set (payments d)" and none: "pay_captured_amount r = None"
    and f: "pay_captured_amount (f r) = Some c" "pay_status (f r) = Captured"
    and same: "\<And>q. pay_id (f q) = pay_id q" "\<And>q. pay_merchant_id (f q) = pay_merchant_id q"
      "\<And>q. pay_idempotency_key (f q) = pay_idempotency_key q" "\<And>q. pay_amount (f q) = pay_amount q"
      "\<And>q. pay_refunded_amount (f q) = pay_refunded_amount q"
    and d1: "d1 = set_payments (pay_id r) f d"
    and cap: "books_posted po d1 d2" "po_payment_id po = pay_id r" "po_amount po = c"
      "po_debit_account po = GATEWAY_FLOAT" "po_credit_account po = MERCHANT_PAYABLE"
    and fee: "fee_posted (pay_id r) (fee_of c pct) d2 d3"
  shows "kept pct d d3"
proof -
  have rok: "row_ok r" using b r by (simp add: books_def)
  then have zero: "pay_refunded_amount r = 0" and amt: "0 < pay_amount r" using none by (auto simp: row_ok_def)
  have c: "0 < c" using cap by (simp add: books_posted_def)
  have d1d: "account_net a j d1 = account_net a j d" "by_payment.balanced d1 = by_payment.balanced d"
    "by_merchant.balanced d1 = by_merchant.balanced d" "ledger_entries d1 = ledger_entries d" for a j
    by (simp_all add: d1 set_payments_def account_net_def by_payment.balanced_def by_merchant.balanced_def entry_total_def)
  note fee' = fee_posted_rest [OF fee]
  have cap': "payments d2 = payments d1" "refunds d2 = refunds d1"
    "le_payment_id ` set (ledger_entries d2) \<subseteq> insert (pay_id r) (le_payment_id ` set (ledger_entries d1))"
    "by_payment.balanced d2 = by_payment.balanced d1" "by_merchant.balanced d2 = by_merchant.balanced d1"
    using cap(1,2) by (simp_all add: books_posted_def)
  have pd: "payments d3 = upd_where (\<lambda>q. pay_id q = pay_id r) f (payments d)" and rf: "refunds d3 = refunds d"
    by (simp_all add: fee' cap' d1 set_payments_def)
  have ok: "row_ok (f r)"
    using c f zero amt same by (simp add: row_ok_def effective_amount_def open_statuses_def)
  have new: "fee_taken pct (f r) = max 0 (fee_of c pct)" "captured_of (f r) = c"
    "fee_taken pct r = 0" "captured_of r = 0"
    using f none by (simp_all add: fee_taken_def captured_of_def)
  have net2: "account_net a j d2 = account_net a j d + (if j = pay_id r then
      (if a = MERCHANT_PAYABLE then c else 0) - (if a = GATEWAY_FLOAT then c else 0) else 0)" for a j
    using cap by (simp add: books_posted_def d1d)
  have net: "account_net a j d3 = account_net a j d +
      (if j = pay_id r then expected_net pct a (f r) - expected_net pct a r else 0)" for a j
    using net2 [of a j] fee'(6) [of a j] zero by (simp add: expected_net_def new same)
  have ids: "le_payment_id ` set (ledger_entries d3) \<subseteq> insert (pay_id r) (le_payment_id ` set (ledger_entries d))"
    using fee'(3) cap'(3) unfolding d1d by blast
  have bal: "by_payment.balanced d3 = by_payment.balanced d" "by_merchant.balanced d3 = by_merchant.balanced d"
    by (simp_all add: fee' cap' d1d)
  have "books pct d3"
    by (rule books_update [OF b r pd _ _ _ _ ok net ids _ _ bal])
      (simp_all add: same refund_sum_def rf subset_insertI)
  moreover have "grows d d3"
    by (rule grows_update [OF pd]) (simp_all add: same)
  ultimately show ?thesis by (simp add: kept_def)
qed

text \<open>A transition sequence that passes \<open>Pending\<close> starts at \<open>Created\<close>.\<close>

lemma transitions_Pending: "transitions (sm_new s) (Pending # ns) = Inr sm \<Longrightarrow> s = Created"
  by (cases s) (simp_all add: transition_def sm_new_def)

lemma transition_Captured: "fst (transition (sm_new s) Captured) = Inr t \<Longrightarrow> s = Authorized \<and> t = Captured"
  by (cases s) (simp_all add: transition_def sm_new_def)

lemma books_authorize:
  assumes b: "books pct d" and r: "r \<in> set (payments d)" "pay_status r = Created"
    and p: "pay_status p = Authorized" "pay_captured_amount p = pay_captured_amount r"
  shows "kept pct d (set_payments (pay_id r) (charge_row t p) d)"
proof -
  let ?f = "\<lambda>q. (charge_row t p q)\<lparr>pay_captured_amount := pay_captured_amount q\<rparr>"
  have rok: "row_ok r" and dist: "distinct (map pay_id (payments d))" using b r by (simp_all add: books_def)
  then have none: "pay_captured_amount r = None" using r by (auto simp: row_ok_def open_statuses_def)
  have uniq: "q = r" if "q \<in> set (payments d)" "pay_id q = pay_id r" for q
    using key_row_unique [OF dist r(1)] that by simp
  have eq: "set_payments (pay_id r) (charge_row t p) d = set_payments (pay_id r) ?f d"
  proof -
    have r': "charge_row t p r = ?f r" by (simp add: charge_row_def p)
    have "upd_where (\<lambda>q. pay_id q = pay_id r) (charge_row t p) (payments d) =
        upd_where (\<lambda>q. pay_id q = pay_id r) ?f (payments d)"
    proof (rule upd_where_cong)
      fix q assume "q \<in> set (payments d)" "pay_id q = pay_id r"
      then have q: "q = r" by (rule uniq)
      show "charge_row t p q = ?f q" unfolding q by (rule r')
    qed
    then show ?thesis by (simp add: set_payments_def)
  qed
  have okr: "row_ok (?f r)"
    using rok none by (simp add: row_ok_def charge_row_def effective_amount_def captured_statuses_def p)
  have "books pct (set_payments (pay_id r) ?f d)"
  proof (rule books_restatus [OF b, where P = "\<lambda>q. pay_id q = pay_id r" and f = ?f])
    fix q assume "q \<in> set (payments d)" "pay_id q = pay_id r"
    then have "q = r" by (rule uniq)
    with okr show "row_ok (?f q)" by simp
  qed (simp_all add: set_payments_def, simp_all add: charge_row_def)
  moreover have "grows d (set_payments (pay_id r) ?f d)"
    by (rule grows_update [where P = "\<lambda>q. pay_id q = pay_id r" and f = ?f])
      (simp_all add: set_payments_def, simp_all add: charge_row_def)
  ultimately show ?thesis by (simp add: kept_def eq)
qed

text \<open>The row of a payment in flight is the one it was admitted with.\<close>

definition in_table :: "database \<Rightarrow> payment \<Rightarrow> bool" where
  "in_table d p \<longleftrightarrow> (\<exists>r \<in> set (payments d). pay_id r = pay_id p \<and> pay_merchant_id r = pay_merchant_id p \<and>
     pay_amount r = pay_amount p)"

lemma in_table_grows: "in_table d p \<Longrightarrow> grows d d' \<Longrightarrow> in_table d' p"
  unfolding in_table_def grows_def by (metis (no_types, lifting))

lemma in_table_amount:
  assumes "books pct d" "in_table d p" "r \<in> set (payments d)" "pay_id r = pay_id p"
  shows "pay_amount p = pay_amount r"
proof -
  have "distinct (map pay_id (payments d))" using assms(1) by (simp add: books_def)
  from key_row_unique [OF this assms(3)] assms(2,4) show ?thesis by (auto simp: in_table_def)
qed

lemma txp_record_charge_captured:
  assumes b: "books (cfg_system_fee_percentage cfg) d" and r: "r \<in> set (payments d)" "pay_status r = Created"
    and p: "pay_id p = pay_id r" "pay_amount p = pay_amount r" "pay_status p = Captured"
      "pay_captured_amount p = Some (pay_amount r)"
  shows "txp l (record_charge cfg p) (\<lambda>_. kept (cfg_system_fee_percentage cfg) d) d"
proof -
  have none: "pay_captured_amount r = None"
    using b r by (auto simp: books_def row_ok_def open_statuses_def)
  show ?thesis
    unfolding record_charge_def update_payment_after_charge_def Let_def p(3) simp_thms if_True
    by (intro txp_rules txp_record_capture txp_record_fee txp_outbox txp_payment_payload, (erule kept_same)+,
        rule books_capture [OF b r(1) none, where c = "pay_amount r"])
      (simp_all add: p effective_amount_def, simp_all add: charge_row_def p)
qed

lemma txp_record_charge_authorized:
  assumes b: "books (cfg_system_fee_percentage cfg) d" and r: "r \<in> set (payments d)" "pay_status r = Created"
    and p: "pay_id p = pay_id r" "pay_status p = Authorized" "pay_captured_amount p = pay_captured_amount r"
  shows "txp l (record_charge cfg p) (\<lambda>_. kept (cfg_system_fee_percentage cfg) d) d"
  unfolding record_charge_def update_payment_after_charge_def Let_def p(2)
  by simp (intro txp_rules txp_outbox txp_payment_payload, (erule kept_same)+,
      simp add: p(1), rule books_authorize [OF b r p(2,3)])

lemma txp_finish_charge:
  assumes b: "books (cfg_system_fee_percentage cfg) d" and t: "in_table d p"
  shows "txp l (finish_charge_body cfg p aid aref) (\<lambda>_. kept (cfg_system_fee_percentage cfg) d) d"
  unfolding finish_charge_body_def charged_payment_def
  apply (intro txp_rules txp_lock)
  subgoal for r a t t'
    using in_table_amount [OF b t, of r] transitions_Pending [of "pay_status r"]
    by (auto intro!: txp_record_charge_captured [OF b, of r])
  subgoal for r a t
    using transitions_Pending [of "pay_status r"]
    by (auto intro!: txp_record_charge_authorized [OF b, of r])
  done

lemma txp_finish_capture:
  assumes b: "books (cfg_system_fee_percentage cfg) d"
  shows "txp l (finish_capture_body cfg i m amt) (\<lambda>_. kept (cfg_system_fee_percentage cfg) d) d"
  unfolding finish_capture_body_def record_manual_capture_def update_payment_after_charge_def
proof (intro txp_rules txp_lock txp_record_capture txp_record_fee txp_outbox txp_payment_payload, (erule kept_same)+)
  fix r st t t' u po d' d''
  let ?p = "(row_to_payment r)\<lparr>pay_status := st, pay_captured_at := Some t,
    pay_captured_amount := Some (unwrap_or amt (pay_amount (row_to_payment r))), pay_updated_at := t'\<rparr>"
  assume r: "r \<in> set (payments d)" and st: "fst (transition (sm_new (pay_status (row_to_payment r))) Captured) = Inr st"
    and po: "books_posted po (set_payments (pay_id ?p) (charge_row u ?p) d) d'" "po_payment_id po = pay_id ?p"
      "po_amount po = effective_amount ?p" "po_debit_account po = GATEWAY_FLOAT" "po_credit_account po = MERCHANT_PAYABLE"
    and fee: "fee_posted (pay_id ?p) (fee_of (unwrap_or (pay_captured_amount ?p) (pay_amount ?p))
      (cfg_system_fee_percentage cfg)) d' d''"
  have st': "pay_status r = Authorized" "st = Captured" using transition_Captured [OF st] by simp_all
  then have none: "pay_captured_amount r = None"
    using b r by (auto simp: books_def row_ok_def open_statuses_def)
  show "kept (cfg_system_fee_percentage cfg) d d''"
    by (rule books_capture [OF b r none, where c = "effective_amount ?p" and f = "charge_row u ?p"])
      (use po fee in \<open>simp_all add: effective_amount_def\<close>, simp_all add: charge_row_def st')
qed

section \<open>Refunds\<close>

text \<open>The refund row is inserted, or its idempotency key is taken and nothing is inserted.\<close>

definition refund_added :: "refund \<Rightarrow> database \<Rightarrow> database \<Rightarrow> bool" where
  "refund_added r d d' \<longleftrightarrow> d' = d \<or> d' = d\<lparr>refunds := refunds d @ [r]\<rparr>"

lemma txp_insert_refund:
  assumes "\<And>d'. \<lbrakk>0 < rf_amount r; refund_added (new_refund_row r) d d'\<rbrakk> \<Longrightarrow> Q () d'"
  shows "txp l (insert_refund r) Q d"
  unfolding insert_refund_def
  by (intro txp_sql) (auto simp: insert_refund_stmt_def new_refund_row_def refund_added_def
      split: if_splits intro!: assms)

lemma txp_increment:
  assumes "\<And>t q. \<lbrakk>q \<in> set (payments d); pay_id q = i; refund_fits n q\<rbrakk> \<Longrightarrow>
     Q () (d\<lparr>payments := upd_where (\<lambda>r. pay_id r = i \<and> refund_fits n r) (refund_row t n) (payments d)\<rparr>)"
  shows "txp l (increment_refunded_amount i n) Q d"
  unfolding increment_refunded_amount_def
proof (intro txp_and_then txp_sql txp_if txp_err txp_ok)
  fix t rows d' assume inc: "increment_stmt i n t d = Inr (rows, d')" and rows: "rows \<noteq> 0"
  then have "filter (\<lambda>r. pay_id r = i \<and> refund_fits n r) (payments d) \<noteq> []"
    by (auto simp: increment_stmt_def split: if_splits)
  then obtain q where "q \<in> set (payments d)" "pay_id q = i" "refund_fits n q"
    by (auto simp: filter_empty_conv)
  moreover have "d' = d\<lparr>payments := upd_where (\<lambda>r. pay_id r = i \<and> refund_fits n r) (refund_row t n) (payments d)\<rparr>"
    using inc by (auto simp: increment_stmt_def split: if_splits)
  ultimately show "Q () d'" using assms by blast
qed

lemma txp_record_refund:
  assumes "\<And>po d'. \<lbrakk>books_posted po d d'; po_payment_id po = rf_payment_id r; po_amount po = rf_amount r;
     po_debit_account po = MERCHANT_PAYABLE; po_credit_account po = GATEWAY_FLOAT\<rbrakk> \<Longrightarrow> Q () d'"
  shows "txp l (record_refund r) Q d"
  unfolding record_refund_def
  by (intro txp_rules books_rules, erule assms) simp_all

lemma books_refund:
  assumes b: "books pct d" and r: "r \<in> set (payments d)" "pay_captured_amount r \<noteq> None"
    and fits: "refund_fits n r" and n: "0 < n"
    and ref: "rf_payment_id rf = pay_id r" "rf_amount rf = n" and d1: "refund_added rf d d1"
    and d2: "d2 = d1\<lparr>payments := upd_where (\<lambda>q. pay_id q = pay_id r \<and> refund_fits n q) (refund_row t n) (payments d1)\<rparr>"
    and po: "books_posted po d2 d3" "po_payment_id po = pay_id r" "po_amount po = n"
      "po_debit_account po = MERCHANT_PAYABLE" "po_credit_account po = GATEWAY_FLOAT"
  shows "kept pct d d3"
proof -
  let ?P = "\<lambda>q. pay_id q = pay_id r \<and> refund_fits n q"
  have rok: "row_ok r" and dist: "distinct (map pay_id (payments d))" using b r by (simp_all add: books_def)
  have d1': "payments d1 = payments d" "ledger_entries d1 = ledger_entries d"
    using d1 by (auto simp: refund_added_def)
  have pd: "payments d3 = upd_where ?P (refund_row t n) (payments d)"
    using po(1) by (simp add: books_posted_def d2 d1')
  have rf: "refunds d3 = refunds d1"
    using po(1) by (simp add: books_posted_def d2)
  have P: "?P q \<longleftrightarrow> pay_id q = pay_id r" if "q \<in> set (payments d)" for q
    using key_row_unique [OF dist r(1) that] fits by auto
  have ok: "row_ok (refund_row t n r)"
    using rok fits n r(2) by (auto simp: row_ok_def refund_row_def refund_fits_def effective_amount_def)
  have d2d: "account_net a j d2 = account_net a j d" "by_payment.balanced d2 = by_payment.balanced d"
    "by_merchant.balanced d2 = by_merchant.balanced d" "ledger_entries d2 = ledger_entries d" for a j
    by (simp_all add: d2 d1' account_net_def by_payment.balanced_def by_merchant.balanced_def entry_total_def)
  have same: "fee_taken pct (refund_row t n r) = fee_taken pct r" "captured_of (refund_row t n r) = captured_of r"
    by (simp_all add: fee_taken_def captured_of_def refund_row_def)
  have net: "account_net a j d3 = account_net a j d +
      (if j = pay_id r then expected_net pct a (refund_row t n r) - expected_net pct a r else 0)" for a j
    using po by (simp add: books_posted_def d2d expected_net_def same) (simp add: refund_row_def)
  have rsum: "refund_sum j d3 \<le> refund_sum j d +
      (if j = pay_id r then pay_refunded_amount (refund_row t n r) - pay_refunded_amount r else 0)" for j
    using d1 n ref by (auto simp: refund_sum_def rf refund_added_def refund_row_def)
  have "books pct d3"
  proof (rule books_update [OF b r(1) pd P _ _ _ ok net _ rsum])
    show "le_payment_id ` set (ledger_entries d3) \<subseteq> insert (pay_id r) (le_payment_id ` set (ledger_entries d))"
      using po(1,2) by (simp add: books_posted_def d2d)
    show "rf_payment_id ` set (refunds d3) \<subseteq> insert (pay_id r) (rf_payment_id ` set (refunds d))"
      using d1 ref by (auto simp: rf refund_added_def)
    show "by_payment.balanced d3 = by_payment.balanced d" "by_merchant.balanced d3 = by_merchant.balanced d"
      using po(1) by (simp_all add: books_posted_def d2d)
  qed (simp_all add: refund_row_def)
  moreover have "grows d d3"
    by (rule grows_update [OF pd]) (simp_all add: refund_row_def)
  ultimately show ?thesis by (simp add: kept_def)
qed

lemma can_refund_row:
  "can_refund (row_to_payment r) n \<Longrightarrow> 0 < n \<and> (pay_status r = Captured \<or> pay_status r = Settled)"
  by (simp add: can_refund_def)

lemma txp_admit_refund:
  assumes b: "books pct d"
  shows "txp l (admit_refund_body i m req now rid) (\<lambda>rf d'. kept pct d d' \<and> rf_payment_id rf = i) d"
  unfolding admit_refund_body_def Let_def
proof (intro txp_rules txp_lock txp_insert_refund txp_increment txp_record_refund txp_outbox txp_refund_payload)
  fix r d1 t q po d2 j d3
  let ?n = "unwrap_or (crr_amount req) (refundable_amount (row_to_payment r))"
  let ?rf = "new_refund i m req (row_to_payment r) ?n now rid"
  assume r: "r \<in> set (payments d)" "pay_id r = i" and can: "\<not> \<not> can_refund (row_to_payment r) ?n"
    and add: "refund_added (new_refund_row ?rf) d d1"
    and q: "q \<in> set (payments d1)" "pay_id q = i" "refund_fits ?n q"
    and po: "books_posted po (d1\<lparr>payments :=
       upd_where (\<lambda>r. pay_id r = i \<and> refund_fits ?n r) (refund_row t ?n) (payments d1)\<rparr>) d2"
      "po_payment_id po = rf_payment_id ?rf" "po_amount po = rf_amount ?rf"
      "po_debit_account po = MERCHANT_PAYABLE" "po_credit_account po = GATEWAY_FLOAT"
    and d3: "same_books d2 d3"
  have rf: "0 < ?n" "pay_status r = Captured \<or> pay_status r = Settled"
    using can can_refund_row by blast+
  have cap: "pay_captured_amount r \<noteq> None"
    using b r rf by (auto simp: books_def row_ok_def captured_statuses_def)
  have "payments d1 = payments d" using add by (auto simp: refund_added_def)
  moreover have "distinct (map pay_id (payments d))" using b by (simp add: books_def)
  ultimately have "q = r" using key_row_unique [of "payments d" r q] q r by simp
  then have fits: "refund_fits ?n r" using q by simp
  have "kept pct d d2"
    by (rule books_refund [OF b r(1) cap fits rf(1) _ _ add _ po(1)])
      (use po r in \<open>simp_all add: new_refund_def new_refund_row_def\<close>)
  then show "kept pct d d3 \<and> rf_payment_id ?rf = i"
    using d3 by (auto intro: kept_same simp: new_refund_def)
qed

section \<open>Settlement\<close>

lemma books_settle:
  assumes b: "books pct d" and ids: "\<And>r. \<lbrakk>r \<in> set (payments d); pay_id r \<in> set ids\<rbrakk> \<Longrightarrow> pay_status r = Captured"
  shows "kept pct d (settle_rows ids now d)"
  unfolding kept_def
proof
  show "books pct (settle_rows ids now d)"
    by (rule books_restatus [OF b, where P = "\<lambda>r. List.member ids (pay_id r)" and f = "batch_settled_row now"])
      (simp_all add: settle_rows_def ids, simp_all add: batch_settled_row_def)
  show "grows d (settle_rows ids now d)"
    by (rule grows_update [where P = "\<lambda>r. List.member ids (pay_id r)" and f = "batch_settled_row now"])
      (simp_all add: settle_rows_def batch_settled_row_def)
qed

lemma kept_trans_same: "\<lbrakk>same_books d d1; kept pct d1 d'\<rbrakk> \<Longrightarrow> kept pct d d'"
  by (simp add: kept_def same_books_def grows_def)

lemma txp_update_balance:
  "(\<And>d'. same_books d d' \<Longrightarrow> Q () d') \<Longrightarrow> txp l (sql (update_balance_stmt m net g)) Q d"
  by (rule txp_sql) (auto simp: update_balance_stmt_def same_books_def split: if_splits)

lemma txp_insert_settlement:
  "(\<And>d'. same_books d d' \<Longrightarrow> Q () d') \<Longrightarrow> txp l (sql (insert_stmt (\<lambda>t. insert_settlement_row s))) Q d"
  by (rule txp_insert) (auto simp: insert_settlement_row_def same_books_def split: if_splits)

lemma txp_settle:
  assumes b: "books pct d"
  shows "txp l (settle_body fee_pct locked m) (\<lambda>_. kept pct d) d"
  unfolding settle_body_def Let_def
proof (intro txp_and_then txp_select txp_if txp_ok txp_new_v4 txp_utc_now txp_insert_settlement txp_update
    txp_update_balance txp_read_lib txp_outbox, goal_cases)
  case 1
  show ?case using b by (rule kept_refl)
next
  case (2 sid now d1 t d2 d3)
  have "kept pct d1 (settle_rows (map pay_id (unsettled locked m d)) now d1)"
  proof (rule books_settle)
    show "books pct d1" using b 2(2) by (simp add: books_cong)
    fix r assume r: "r \<in> set (payments d1)" "pay_id r \<in> set (map pay_id (unsettled locked m d))"
    then obtain q where q: "q \<in> set (payments d)" "pay_status q = Captured" "pay_id r = pay_id q"
      by (auto simp: unsettled_def)
    have "distinct (map pay_id (payments d))" and "r \<in> set (payments d)"
      using b r 2(2) by (simp_all add: books_def same_books_def)
    then have "r = q" using key_row_unique q by blast
    with q show "pay_status r = Captured" by simp
  qed
  then show ?case
    using 2 by (blast intro: kept_trans_same kept_same)
qed

end
