(* ===== verification/Payment_Handlers.thy ===== *)
theory Payment_Handlers
  imports Orchestrator
begin

text \<open>
  \<open>crates/payment-service/src/handlers.rs\<close>: the HTTP handlers of the payment service. The
  extractors of the framework (the merchant of the request, path, query, parsed JSON body) are
  arguments; header names are lower case, as the framework stores them. An answer is a status
  code and a body; an error becomes one by \<open>into_response\<close>.
\<close>

definition visible_ascii :: "string \<Rightarrow> bool" where
  "visible_ascii s = list_all (\<lambda>c. c = CHR 0x09 \<or> (32 \<le> (of_char c :: nat) \<and> (of_char c :: nat) < 127)) s"

text \<open>\<open>headers.get(name).and_then(|v| v.to_str().ok())\<close>.\<close>

definition header_str :: "(string \<times> string) list \<Rightarrow> string \<Rightarrow> string option" where
  "header_str headers name =
     (case map_of headers name of
        None \<Rightarrow> None | Some v \<Rightarrow> if visible_ascii v then Some v else None)"

text \<open>\<open>extract_merchant_middleware\<close> of \<open>routes.rs\<close>: the gateway has put the merchant in a header.\<close>

definition extract_merchant :: "lib \<Rightarrow> (string \<times> string) list \<Rightarrow> app_error + uuid" where
  "extract_merchant l headers =
     (case header_str headers ''x-merchant-id'' of
        None \<Rightarrow> Inl Unauthorized
      | Some s \<Rightarrow> (case uuid_parse l s of None \<Rightarrow> Inl Unauthorized | Some m \<Rightarrow> Inr m))"

definition new_request_id :: "string M" where
  "new_request_id =
     and_then new_v4 (\<lambda>i. read_lib (\<lambda>l. ''req_'' @ filter (\<lambda>c. c \<noteq> CHR ''-'') (uuid_show l i)))"

definition respond :: "nat \<Rightarrow> 'a \<Rightarrow> (nat \<times> 'a api_response) M" where
  "respond status a = and_then new_request_id (\<lambda>rid. ok (status, api_ok a rid))"

lemma respond_InrD:
  "respond st a w = (Inr (s, r), w') \<Longrightarrow> s = st \<and> ar_data r = Some a \<and> wdb w' = wdb w \<and> wlib w' = wlib w"
  by (auto simp: respond_def new_request_id_def new_v4_def read_lib_def api_ok_def elim!: and_then_InrE)

definition check_valid :: "string list \<Rightarrow> unit M" where
  "check_valid failures =
     (if failures = [] then ok () else and_then (read_lib (\<lambda>l. show_invalid l failures)) (\<lambda>s. err (Validation s)))"

text \<open>\<open>readiness\<close> of the fraud, merchant and order services.\<close>

definition readiness :: "(nat \<times> json) M" where
  "readiness = match_result (sql (select_stmt (\<lambda>d. ())))
     (\<lambda>e. ok (503, JObj [(''status'', JStr ''not_ready''), (''checks'', JObj [(''database'', JStr ''failed'')])]))
     (\<lambda>_. ok (200, JObj [(''status'', JStr ''ready''), (''checks'', JObj [(''database'', JStr ''ok'')])]))"

definition h_create_payment ::
  "payment_config \<Rightarrow> uuid \<Rightarrow> (string \<times> string) list \<Rightarrow> create_payment_request \<Rightarrow>
     (nat \<times> payment api_response) M" where
  "h_create_payment cfg merchant_id headers req =
     and_then (check_valid (validate_create_payment req)) (\<lambda>_.
     let idempotency_key = (case header_str headers ''x-idempotency-key'' of
           Some k \<Rightarrow> Some k | None \<Rightarrow> cpr_idempotency_key req)
     in and_then (create_payment cfg merchant_id req idempotency_key) (\<lambda>p. respond 201 p))"

definition h_get_payment :: "uuid \<Rightarrow> uuid \<Rightarrow> (nat \<times> payment api_response) M" where
  "h_get_payment merchant_id payment_id =
     and_then (find_payment_by_id payment_id merchant_id) (\<lambda>v.
     and_then (read_lib (\<lambda>l. payment_not_found l payment_id)) (\<lambda>e.
     and_then (ok_or e v) (\<lambda>p. respond 200 p)))"

definition h_list_payments :: "uuid \<Rightarrow> pagination_params \<Rightarrow> (nat \<times> payment paginated_response api_response) M" where
  "h_list_payments merchant_id pg = and_then (list_payments merchant_id pg) (\<lambda>ps. respond 200 ps)"

definition h_capture_payment ::
  "payment_config \<Rightarrow> uuid \<Rightarrow> uuid \<Rightarrow> i64 option \<Rightarrow> (nat \<times> payment api_response) M" where
  "h_capture_payment cfg merchant_id payment_id amount =
     (if (case amount of Some n \<Rightarrow> n \<le> 0 | None \<Rightarrow> False)
      then err (Validation ''capture amount must be positive'')
      else and_then (find_payment_by_id payment_id merchant_id) (\<lambda>v.
        and_then (read_lib (\<lambda>l. payment_not_found l payment_id)) (\<lambda>e.
        and_then (ok_or e v) (\<lambda>p.
        if pay_capture_method p \<noteq> Manual
        then err (Validation ''This payment uses automatic capture and cannot be captured manually'')
        else if pay_status p \<noteq> Authorized
        then err (InvalidStateTransition (payment_status_debug (pay_status p)) ''Captured'')
        else and_then (capture_payment cfg payment_id merchant_id amount) (\<lambda>p. respond 200 p)))))"

definition h_create_refund ::
  "payment_config \<Rightarrow> uuid \<Rightarrow> uuid \<Rightarrow> create_refund_request \<Rightarrow> (nat \<times> refund api_response) M" where
  "h_create_refund cfg merchant_id payment_id req =
     and_then (check_valid (validate_create_refund req)) (\<lambda>_.
     and_then (create_refund cfg payment_id merchant_id req) (\<lambda>r. respond 201 r))"

definition h_list_refunds :: "uuid \<Rightarrow> uuid \<Rightarrow> (nat \<times> refund list api_response) M" where
  "h_list_refunds merchant_id payment_id =
     and_then (find_refunds_for_payment payment_id merchant_id) (\<lambda>rs. respond 200 rs)"

definition h_cancel_payment :: "uuid \<Rightarrow> uuid \<Rightarrow> (nat \<times> payment api_response) M" where
  "h_cancel_payment merchant_id payment_id =
     and_then (cancel_payment payment_id merchant_id) (\<lambda>p. respond 200 p)"

end
