(* ===== verification/Payment_System.thy ===== *)
theory Payment_System
  imports Payment_Steps Payment_Handlers
begin

text \<open>
  The payment services running together. A request is a task that rests where the code awaits
  a peer between two transactions; a step runs one task to its next rest, admits a request, or
  is one of the other transactions on payments. Any interleaving of any requests is a run. A
  task may also vanish (a crash or a dropped connection), and the rest of the platform may do
  anything that leaves the payment, refund and ledger tables alone.
\<close>

section \<open>Tasks and steps\<close>

datatype task =
    Charging payment
  | Capturing uuid uuid "i64 option" "string option"
  | Refunding refund
  | Notifying refund

type_synonym system = "world \<times> task list"

text \<open>The guard of the capture handler on the requested amount.\<close>

definition capture_amount_ok :: "i64 option \<Rightarrow> bool" where
  "capture_amount_ok amount = opt_ok (\<lambda>n. 0 < n) amount"

inductive sys_step :: "payment_config \<Rightarrow> system \<Rightarrow> system \<Rightarrow> bool" for cfg where
  submit: "\<lbrakk>validate_create_payment req = []; admit_payment m req key w = (Inr (p, i, True), w')\<rbrakk>
    \<Longrightarrow> sys_step cfg (w, ts) (w', Charging p # ts)"
| replay: "\<lbrakk>validate_create_payment req = []; admit_payment m req key w = (Inr (p, i, False), w1);
      replay_payment i m w1 = (r, w')\<rbrakk> \<Longrightarrow> sys_step cfg (w, ts) (w', ts)"
| reject: "admit_payment m req key w = (Inl e, w') \<Longrightarrow> sys_step cfg (w, ts) (w', ts)"
| charge: "process_payment cfg p w = (r, w')
    \<Longrightarrow> sys_step cfg (w, us @ Charging p # vs) (w', us @ vs)"
| start_capture: "\<lbrakk>capture_amount_ok amount; check_capture i m w = (Inr p, w')\<rbrakk>
    \<Longrightarrow> sys_step cfg (w, ts) (w', Capturing i m amount (pay_idempotency_key p) # ts)"
| refuse_capture: "check_capture i m w = (Inl e, w') \<Longrightarrow> sys_step cfg (w, ts) (w', ts)"
| capture: "and_then (acquirer_capture cfg i key) (\<lambda>_. finish_capture cfg i m amount) w = (r, w')
    \<Longrightarrow> sys_step cfg (w, us @ Capturing i m amount key # vs) (w', us @ vs)"
| start_refund: "\<lbrakk>validate_create_refund req = []; admit_refund i m req w = (Inr rf, w')\<rbrakk>
    \<Longrightarrow> sys_step cfg (w, ts) (w', Refunding rf # ts)"
| refuse_refund: "admit_refund i m req w = (Inl e, w') \<Longrightarrow> sys_step cfg (w, ts) (w', ts)"
| refunded: "resolve_refund cfg rf w = (Inr u, w')
    \<Longrightarrow> sys_step cfg (w, us @ Refunding rf # vs) (w', us @ Notifying rf # vs)"
| refund_failed: "resolve_refund cfg rf w = (Inl e, w')
    \<Longrightarrow> sys_step cfg (w, us @ Refunding rf # vs) (w', us @ vs)"
| notify: "notify_refund rf w = (r, w') \<Longrightarrow> sys_step cfg (w, us @ Notifying rf # vs) (w', us @ vs)"
| cancel: "cancel_payment i m w = (r, w') \<Longrightarrow> sys_step cfg (w, ts) (w', ts)"
| dispute: "create_dispute i m amount rc aid w = (r, w') \<Longrightarrow> sys_step cfg (w, ts) (w', ts)"
| settle: "settle_merchant pct locked m w = (r, w') \<Longrightarrow> sys_step cfg (w, ts) (w', ts)"
| crash: "sys_step cfg (w, us @ t # vs) (w, us @ vs)"
| elsewhere: "\<lbrakk>same_books (wdb w) (wdb w'); tx_now w' = None\<rbrakk> \<Longrightarrow> sys_step cfg (w, ts) (w', ts)"

definition initial :: "system \<Rightarrow> bool" where
  "initial s \<longleftrightarrow> payments (wdb (fst s)) = [] \<and> refunds (wdb (fst s)) = [] \<and>
     ledger_entries (wdb (fst s)) = [] \<and> tx_now (fst s) = None \<and> snd s = []"

inductive reachable :: "payment_config \<Rightarrow> system \<Rightarrow> bool" for cfg where
  start: "initial s \<Longrightarrow> reachable cfg s"
| step: "\<lbrakk>reachable cfg s; sys_step cfg s s'\<rbrakk> \<Longrightarrow> reachable cfg s'"

inductive_cases sys_stepE: "sys_step cfg s s'"

section \<open>Sequential execution is one of the runs\<close>

lemma create_payment_as_steps:
  assumes "validate_create_payment req = []" and "create_payment cfg m req key w = (r, w')"
  shows "(sys_step cfg)\<^sup>*\<^sup>* (w, ts) (w', ts)"
proof (cases "admit_payment m req key w")
  case (Pair r1 w1)
  show ?thesis
  proof (cases r1)
    case (Inl e)
    then have "w' = w1" using assms(2) Pair by (simp add: create_payment_def and_then_def)
    then show ?thesis using reject [of m req key w e w1] Pair Inl by blast
  next
    case (Inr x)
    obtain p i b where x: "x = (p, i, b)" by (cases x)
    show ?thesis
    proof (cases b)
      case True
      then have "process_payment cfg p w1 = (r, w')"
        using assms(2) Pair Inr x by (simp add: create_payment_def and_then_def)
      then have "sys_step cfg (w1, Charging p # ts) (w', ts)"
        using charge [of cfg p w1 r w' "[]" ts] by simp
      moreover have "sys_step cfg (w, ts) (w1, Charging p # ts)"
        using submit [OF assms(1), of m key w p i w1] Pair Inr x True by simp
      ultimately show ?thesis by (meson converse_rtranclp_into_rtranclp rtranclp.rtrancl_refl)
    next
      case False
      then have "replay_payment i m w1 = (r, w')"
        using assms(2) Pair Inr x by (simp add: create_payment_def and_then_def)
      then have "sys_step cfg (w, ts) (w', ts)"
        using replay [OF assms(1), of m key w p i w1] Pair Inr x False by simp
      then show ?thesis by blast
    qed
  qed
qed

section \<open>The invariant of the system\<close>

fun task_ok :: "database \<Rightarrow> task \<Rightarrow> bool" where
  "task_ok d (Charging p) = in_table d p"
| "task_ok d _ = True"

definition sys_inv :: "payment_config \<Rightarrow> system \<Rightarrow> bool" where
  "sys_inv cfg s \<longleftrightarrow> tx_now (fst s) = None \<and> books (cfg_system_fee_percentage cfg) (wdb (fst s)) \<and>
     list_all (task_ok (wdb (fst s))) (snd s)"

lemma grows_trans: "\<lbrakk>grows c d; grows d e\<rbrakk> \<Longrightarrow> grows c e"
  unfolding grows_def by (metis (no_types, lifting))

lemma kept_trans: "\<lbrakk>kept pct c d; kept pct d e\<rbrakk> \<Longrightarrow> kept pct c e"
  by (auto simp: kept_def intro: grows_trans)

lemma kept_books: "kept pct d0 d \<Longrightarrow> books pct d"
  by (simp add: kept_def)

lemma keeps_kept:
  assumes "\<And>l d. kept pct d0 d \<Longrightarrow> txp l m (\<lambda>_. kept pct d) d"
  shows "keeps (kept pct d0) (transaction m)"
  by (rule keeps_transaction) (blast intro: txp_mono assms kept_trans)

lemma refund_sum_cong:
  assumes "map (\<lambda>r. (rf_payment_id r, rf_amount r)) (refunds d') = map (\<lambda>r. (rf_payment_id r, rf_amount r)) (refunds d)"
  shows "refund_sum k d' = refund_sum k d"
proof -
  have A: "sum_list (map rf_amount (filter (\<lambda>r. rf_payment_id r = k) rs)) =
      sum_list (map snd (filter (\<lambda>x. fst x = k) (map (\<lambda>r. (rf_payment_id r, rf_amount r)) rs)))" for rs
    by (induction rs) auto
  show ?thesis unfolding refund_sum_def A by (simp only: assms)
qed

lemma keeps_refund_status: "keeps (kept pct d0) (update_refund_status i st a f)"
proof -
  have "kept pct d0 (d\<lparr>refunds := upd_where (\<lambda>r. rf_id r = i) (refund_status_row t st a f) (refunds d)\<rparr>)"
    if "kept pct d0 d" for t d
  proof -
    let ?rs = "upd_where (\<lambda>r. rf_id r = i) (refund_status_row t st a f) (refunds d)"
    have fld: "rf_payment_id (refund_status_row t st a f r) = rf_payment_id r"
      "rf_amount (refund_status_row t st a f r) = rf_amount r" for r
      by (simp_all add: refund_status_row_def)
    have "map (\<lambda>r. (rf_payment_id r, rf_amount r)) ?rs = map (\<lambda>r. (rf_payment_id r, rf_amount r)) (refunds d)"
      by (simp add: map_upd_where_id fld)
    then have "refund_sum k (d\<lparr>refunds := ?rs\<rparr>) = refund_sum k d" for k
      by (intro refund_sum_cong) simp
    moreover have "rf_payment_id ` set ?rs = rf_payment_id ` set (refunds d)"
      using map_upd_where_id [of "\<lambda>r. rf_id r = i" rf_payment_id "refund_status_row t st a f" "refunds d"]
      by (metis fld(1) set_map)
    ultimately show ?thesis
      using that by (simp add: kept_def books_def grows_def account_net_def entry_total_def
          by_payment.balanced_def by_merchant.balanced_def)
  qed
  then show ?thesis unfolding update_refund_status_def by (intro keeps_update)
qed

lemma keeps_fail: "keeps (kept pct d0) (fail_payment i c m j)"
  unfolding fail_payment_def by (intro keeps_kept txp_fail kept_books)

lemma keeps_find: "keeps P (find_payment_by_id i m)"
  unfolding find_payment_by_id_def by (intro keeps_rules)

lemma keeps_post: "keeps P (post url h b)"
  unfolding post_def by (intro keeps_rules)

lemma keeps_body_or_internal: "keeps P (body_or_internal b)"
  unfolding body_or_internal_def by (intro keeps_rules)

lemma keeps_fraud: "keeps P (run_fraud_check cfg p)"
  unfolding run_fraud_check_def Let_def by (intro keeps_rules keeps_post)

lemma keeps_charge: "keeps P (charge_via_acquirer cfg p)"
  unfolding charge_via_acquirer_def Let_def by (intro keeps_rules keeps_post keeps_body_or_internal)

lemma keeps_acquirer_capture: "keeps P (acquirer_capture cfg i k)"
  unfolding acquirer_capture_def by (intro keeps_rules keeps_post)

lemma keeps_acquirer_refund: "keeps P (acquirer_refund cfg i n)"
  unfolding acquirer_refund_def by (intro keeps_rules keeps_post keeps_body_or_internal)

lemma keeps_case_error:
  "(\<And>c m. keeps P (f c m)) \<Longrightarrow> keeps P g \<Longrightarrow>
     keeps P (case e of AcquirerDeclined c m \<Rightarrow> f c m | _ \<Rightarrow> g)"
  "(\<And>c. keeps P (h c)) \<Longrightarrow> keeps P g \<Longrightarrow> keeps P (case e of FraudBlocked c \<Rightarrow> h c | _ \<Rightarrow> g)"
  by (cases e; simp)+

lemmas peer_rules = keeps_find keeps_fraud keeps_charge keeps_acquirer_capture keeps_acquirer_refund
  keeps_case_error keeps_fail keeps_refund_status

lemma keeps_process:
  assumes "in_table d0 p"
  shows "keeps (kept (cfg_system_fee_percentage cfg) d0) (process_payment cfg p)"
proof -
  have "keeps (kept (cfg_system_fee_percentage cfg) d0) (finish_charge cfg p a b)" for a b
    unfolding finish_charge_def
    by (rule keeps_kept, rule txp_finish_charge) (auto simp: kept_def intro: in_table_grows [OF assms])
  then show ?thesis
    unfolding process_payment_def charge_payment_def Let_def by (intro keeps_rules peer_rules)
qed

lemma keeps_capture:
  "keeps (kept (cfg_system_fee_percentage cfg) d0)
     (and_then (acquirer_capture cfg i k) (\<lambda>_. finish_capture cfg i m amount))"
  unfolding finish_capture_def
  by (intro keeps_rules(3) peer_rules keeps_kept txp_finish_capture) (simp add: kept_def)

lemma keeps_check_capture: "keeps P (check_capture i m)"
  unfolding check_capture_def by (intro keeps_rules peer_rules)

lemma keeps_replay: "keeps P (replay_payment i m)"
  unfolding replay_payment_def by (intro keeps_rules peer_rules)

lemma keeps_admit_refund: "keeps (kept pct d0) (admit_refund i m req)"
  unfolding admit_refund_def
proof (intro keeps_and_then keeps_utc_now keeps_new_v4 keeps_kept)
  fix t u l d assume "kept pct d0 d"
  then have "books pct d" by (simp add: kept_def)
  from txp_admit_refund [OF this] show "txp l (admit_refund_body i m req t u) (\<lambda>_. kept pct d) d"
    by (rule txp_mono) simp
qed

lemma keeps_resolve: "keeps (kept pct d0) (resolve_refund cfg rf)"
  unfolding resolve_refund_def Let_def by (intro keeps_rules peer_rules)

lemma keeps_notify: "keeps (kept pct d0) (notify_refund rf)"
  unfolding notify_refund_def
  by (intro keeps_kept txp_and_then txp_refund_payload txp_outbox, erule kept_same, intro kept_refl, rule kept_books)

lemma keeps_cancel: "keeps (kept pct d0) (cancel_payment i m)"
  unfolding cancel_payment_def by (intro keeps_kept txp_cancel) (simp add: kept_def)

lemma keeps_dispute: "keeps (kept pct d0) (create_dispute i m n c a)"
  unfolding create_dispute_def by (intro keeps_kept txp_dispute) (simp add: kept_def)

lemma keeps_settle: "keeps (kept pct d0) (settle_merchant fee_pct locked m)"
  unfolding settle_merchant_def by (intro keeps_kept txp_settle) (simp add: kept_def)

text \<open>Admission: the new payment is in the table, with the request's amount.\<close>

lemma admit_payment_cases:
  assumes "admit_payment m req key w = (r, w')" and "tx_now w = None" and "books pct (wdb w)"
  shows "kept pct (wdb w) (wdb w') \<and> tx_now w' = None \<and>
    (\<forall>p i b. r = Inr (p, i, b) \<longrightarrow> pay_merchant_id p = m \<and> pay_amount p = cpr_amount req \<and>
      admitted p (wdb w) (i, b) (wdb w'))"
proof -
  define p where "p = new_payment m req key (clock_src w (clock_next w)) (uuid_src w (uuid_next w))"
  define v where "v = w\<lparr>clock_next := Suc (clock_next w), uuid_next := Suc (uuid_next w)\<rparr>"
  obtain r1 w1 where tx: "transaction (admit_body p) v = (r1, w1)" by fastforce
  have v: "wdb v = wdb w" "wlib v = wlib w" "tx_now v = None" using assms(2) by (simp_all add: v_def)
  have p: "pay_status p = Created" "pay_captured_amount p = None" "pay_merchant_id p = m"
    "pay_amount p = cpr_amount req" by (simp_all add: p_def new_payment_def)
  have r: "r = map_sum id (\<lambda>(i, b). (p, i, b)) r1" "w' = w1"
    using assms(1) tx by (auto simp: admit_payment_def and_then_def utc_now_def new_v4_def Let_def p_def v_def
        ok_def split: sum.splits prod.splits)
  from txp_admit [of pct "wdb v" p "wlib v"] assms(3) v p
  have t: "txp (wlib v) (admit_body p) (\<lambda>res d'. books pct d' \<and> admitted p (wdb v) res d') (wdb v)" by simp
  from transaction_cases [OF tx t] show ?thesis
    using v r p assms(3) transaction_tx_now [of v "admit_body p"] tx
    by (auto simp: kept_def admitted_def grows_append split: sum.splits if_splits)
qed

section \<open>Every reachable system satisfies it\<close>

lemma keeps_from:
  assumes "keeps (kept (cfg_system_fee_percentage cfg) (wdb w)) m" and "m w = (r, w')" and "sys_inv cfg (w, ts)"
  shows "kept (cfg_system_fee_percentage cfg) (wdb w) (wdb w') \<and> tx_now w' = None"
  using keepsD [OF assms(1) _ kept_refl assms(2)] assms(3) by (simp add: sys_inv_def)

text \<open>The tasks of the new state were tasks before, or are in the table.\<close>

lemma step_kept:
  assumes "sys_step cfg s s'" and "sys_inv cfg s"
  shows "kept (cfg_system_fee_percentage cfg) (wdb (fst s)) (wdb (fst s')) \<and> tx_now (fst s') = None \<and>
    (\<forall>t \<in> set (snd s'). t \<in> set (snd s) \<or> task_ok (wdb (fst s')) t)"
  using assms
proof (induction rule: sys_step.induct)
  case (submit req m key w p i w' ts)
  then have "tx_now w = None" "books (cfg_system_fee_percentage cfg) (wdb w)" by (simp_all add: sys_inv_def)
  from admit_payment_cases [OF submit(2) this]
  have "kept (cfg_system_fee_percentage cfg) (wdb w) (wdb w') \<and> tx_now w' = None \<and>
      admitted p (wdb w) (i, True) (wdb w')" by blast
  moreover from this have "in_table (wdb w') p"
    by (auto simp: admitted_def in_table_def new_payment_row_def)
  ultimately show ?case by auto
next
  case (replay req m key w p i w1 r w' ts)
  then have "kept (cfg_system_fee_percentage cfg) (wdb w) (wdb w1) \<and> tx_now w1 = None"
    using admit_payment_cases [OF replay(2)] unfolding sys_inv_def fst_conv by blast
  then show ?case using keepsD [OF keeps_replay _ _ replay(3)] by auto
next
  case (reject m req key w e w' ts)
  then show ?case
    using admit_payment_cases [OF reject(1)] unfolding sys_inv_def fst_conv snd_conv by blast
next
  case (charge p w r w' us vs)
  have "in_table (wdb w) p" using charge.prems by (simp add: sys_inv_def)
  from keeps_from [OF keeps_process [OF this] charge(1) charge.prems] show ?case by auto
next
  case (start_capture amount i m w p w' ts)
  show ?case using keeps_from [OF keeps_check_capture start_capture(2) start_capture.prems] by auto
next
  case (refuse_capture i m w e w' ts)
  show ?case using keeps_from [OF keeps_check_capture refuse_capture(1) refuse_capture.prems] by auto
next
  case (capture i key m amount w r w' us vs)
  show ?case using keeps_from [OF keeps_capture capture(1) capture.prems] by auto
next
  case (start_refund req i m w rf w' ts)
  show ?case using keeps_from [OF keeps_admit_refund start_refund(2) start_refund.prems] by auto
next
  case (refuse_refund i m req w e w' ts)
  show ?case using keeps_from [OF keeps_admit_refund refuse_refund(1) refuse_refund.prems] by auto
next
  case (refunded rf w u w' us vs)
  show ?case using keeps_from [OF keeps_resolve refunded(1) refunded.prems] by auto
next
  case (refund_failed rf w e w' us vs)
  show ?case using keeps_from [OF keeps_resolve refund_failed(1) refund_failed.prems] by auto
next
  case (notify rf w r w' us vs)
  show ?case using keeps_from [OF keeps_notify notify(1) notify.prems] by auto
next
  case (cancel i m w r w' ts)
  show ?case using keeps_from [OF keeps_cancel cancel(1) cancel.prems] by auto
next
  case (dispute i m amount rc aid w r w' ts)
  show ?case using keeps_from [OF keeps_dispute dispute(1) dispute.prems] by auto
next
  case (settle pct locked m w r w' ts)
  show ?case using keeps_from [OF keeps_settle settle(1) settle.prems] by auto
next
  case (crash w us t vs)
  then show ?case by (auto simp: sys_inv_def kept_refl)
next
  case (elsewhere w w' ts)
  then show ?case by (auto simp: sys_inv_def intro: kept_same kept_refl)
qed

lemma task_ok_grows: "\<lbrakk>task_ok d t; grows d d'\<rbrakk> \<Longrightarrow> task_ok d' t"
  by (cases t) (auto intro: in_table_grows)

lemma sys_inv_step:
  assumes "sys_step cfg s s'" and "sys_inv cfg s"
  shows "sys_inv cfg s'"
proof -
  from step_kept [OF assms] have k: "kept (cfg_system_fee_percentage cfg) (wdb (fst s)) (wdb (fst s'))"
    "tx_now (fst s') = None" "\<forall>t \<in> set (snd s'). t \<in> set (snd s) \<or> task_ok (wdb (fst s')) t" by auto
  have old: "\<forall>t \<in> set (snd s). task_ok (wdb (fst s)) t" using assms(2) by (simp add: sys_inv_def list_all_iff)
  have "task_ok (wdb (fst s')) t" if "t \<in> set (snd s')" for t
    using k(3) old that task_ok_grows [of "wdb (fst s)" t "wdb (fst s')"] k(1) by (auto simp: kept_def)
  with k show ?thesis
    by (simp add: sys_inv_def list_all_iff kept_def)
qed

lemma initial_inv: "initial s \<Longrightarrow> sys_inv cfg s"
  by (simp add: initial_def sys_inv_def books_def keys_unique_def by_payment.balanced_def
      by_merchant.balanced_def entry_total_def)

lemma reachable_inv: "reachable cfg s \<Longrightarrow> sys_inv cfg s"
  by (induction rule: reachable.induct) (auto intro: initial_inv sys_inv_step)

lemma reachable_books: "reachable cfg s \<Longrightarrow> books (cfg_system_fee_percentage cfg) (wdb (fst s))"
  using reachable_inv [of cfg s] by (simp add: sys_inv_def)

lemma reachable_steps: "\<lbrakk>(sys_step cfg)\<^sup>*\<^sup>* s s'; reachable cfg s\<rbrakk> \<Longrightarrow> reachable cfg s'"
  by (induction rule: rtranclp_induct) (auto intro: reachable.step)

end
