(* ===== verification/Evaluation.thy ===== *)
theory Evaluation
  imports Samples Transactions
begin

text \<open>
  Evaluating a computation on a concrete world with the simplifier: \<open>run_defs\<close> unfolds the
  combinators, the statements and the sample world; the congruence rules \<open>lazy_congs\<close> keep the
  simplifier from evaluating the continuation of a computation before it is reached.
\<close>

section \<open>Evaluating a run\<close>

lemma and_then_run:
  "and_then m f w = (case m w of (r, w') \<Rightarrow> (case r of Inl e \<Rightarrow> (Inl e, w') | Inr a \<Rightarrow> f a w'))"
  by (simp add: and_then_def split: prod.split sum.split)

lemma match_result_run:
  "match_result m h k w = (case m w of (r, w') \<Rightarrow> (case r of Inl e \<Rightarrow> h e w' | Inr a \<Rightarrow> k a w'))"
  by (simp add: match_result_def split: prod.split sum.split)

lemma transaction_run: "transaction m w = and_then begin_tx (\<lambda>_ w. end_tx (wdb w) (m w)) w"
  by (simp add: transaction_def)

lemma sql_run: "sql f w =
    (if \<not> stmt_ok w (stmt_next w) then (Inl (db_fail w ConnectionLost), tick_stmt w)
     else (case tx_now w of
         Some t \<Rightarrow> run_stmt f t (tick_stmt w)
       | None \<Rightarrow> and_then utc_now (run_stmt f) (tick_stmt w)))"
  by (simp add: sql_def)

lemma lazy_congs:
  "w = w' \<Longrightarrow> and_then m f w = and_then m f w'"
  "w = w' \<Longrightarrow> match_result n h k w = match_result n h k w'"
  "w = w' \<Longrightarrow> transaction t w = transaction t w'"
  "w = w' \<Longrightarrow> sql q w = sql q w'"
  by simp_all

lemmas run_defs = and_then_run match_result_run transaction_run sql_run begin_tx_def end_tx_def
  tick_stmt_def utc_now_def new_v4_def run_stmt_def select_stmt_def update_stmt_def insert_stmt_def
  read_lib_def ok_def err_def ok_or_def of_result_def http_send_def commit_ok_def references_ok_def
  has_ledger_entry_def has_payment_def has_merchant_def has_order_def
  insert_ledger_row_def ledger_insertable_def insert_outbox_row_def upd_where_def i64_range_def
  sample_world_def sample_database_def empty_database_def documented_schema_def plain_lib_def
  sample_payment_row_def sample_merchant_def accepting_peer_def Let_def

end
