(* ===== verification/Payment_Properties.thy ===== *)
theory Payment_Properties
  imports Payment_System Evaluation
begin

text \<open>
  The properties of the payment services over every interleaving, and the runs that show their
  hypotheses can hold. The bundle \<open>flow_defs\<close> unfolds the orchestrator on a concrete world.
\<close>

section \<open>Evaluating a run\<close>

lemma accounts_member:
  "GATEWAY_FLOAT \<in> set seeded_accounts" "MERCHANT_PAYABLE \<in> set seeded_accounts"
  "FEE_INCOME \<in> set seeded_accounts"
  by (simp_all add: accounts_seeded [symmetric])

lemmas flow_defs = accounts_member create_payment_def admit_payment_def admit_body_def new_payment_def
  insert_payment_idempotent_def insert_payment_stmt_def payment_insertable_def insert_outbox_event_def
  build_payment_event_payload_def process_payment_def run_fraud_check_def post_def charge_payment_def
  charge_via_acquirer_def body_or_null_def body_or_internal_def str_or_def finish_charge_def
  finish_charge_body_def lock_payment_for_update_def select_payment_def charged_payment_def
  record_charge_def update_payment_after_charge_def set_payments_def charge_row_def record_capture_def
  record_fee_if_positive_def record_fee_def write_double_entry_def balance_stmt_def account_balance_def
  get_prev_hash_def latest_hash_def newest_first_def debit_row_def credit_row_def signed_amount_def
  new_payment_row_def row_to_payment_def
  pm_from_json_def upi_from_json_def sm_new_def transition_def same_key_def is_success_def uuid_json_def

section \<open>A paid payment\<close>

definition sample_config :: payment_config where
  "sample_config = \<lparr>cfg_acquirer_router_url = ''http://acquirer'', cfg_fraud_service_url = ''http://fraud'',
     cfg_system_fee_percentage = pct_default\<rparr>"

definition sample_request :: create_payment_request where
  "sample_request = \<lparr>cpr_amount = 1000, cpr_currency = INR, cpr_description = None,
     cpr_payment_method = UpiInput ''a@upi'', cpr_capture_method = None, cpr_order_id = None,
     cpr_metadata = None, cpr_idempotency_key = Some ''k''\<rparr>"

definition sample_start :: world where
  "sample_start = sample_world ((empty_database documented_schema)\<lparr>merchants := [sample_merchant]\<rparr>)"

definition sample_paid :: world where
  "sample_paid = snd (create_payment sample_config 7 sample_request None sample_start)"

lemma sample_paid_reachable: "reachable sample_config (sample_paid, [])"
proof -
  have "initial (sample_start, [])"
    by (simp add: initial_def sample_start_def sample_world_def empty_database_def)
  then have start: "reachable sample_config (sample_start, [])" by (rule reachable.start)
  have "validate_create_payment sample_request = []" by code_simp
  then have "(sys_step sample_config)\<^sup>*\<^sup>* (sample_start, []) (sample_paid, [])"
    by (rule create_payment_as_steps [where r = "fst (create_payment sample_config 7 sample_request None sample_start)"])
      (simp only: sample_paid_def prod.collapse)
  then show ?thesis using start by (rule reachable_steps)
qed

lemma fee_sample: "fee_of 1000 pct_default = 20"
  by code_simp

lemma sample_paid_rows:
  "map (\<lambda>r. (pay_id r, pay_merchant_id r, pay_status r, pay_captured_amount r, pay_refunded_amount r,
      pay_idempotency_key r)) (payments (wdb sample_paid)) = [(100, 7, Captured, Some 1000, 0, Some ''k'')]"
  by (simp add: sample_paid_def sample_start_def sample_config_def sample_request_def run_defs flow_defs
      fee_sample cong: lazy_congs)

lemma sample_paid_row:
  obtains r where "r \<in> set (payments (wdb sample_paid))" "pay_id r = 100" "pay_merchant_id r = 7"
    "pay_status r = Captured" "pay_captured_amount r = Some 1000" "pay_refunded_amount r = 0"
    "pay_idempotency_key r = Some ''k''"
  using sample_paid_rows by (auto simp: map_eq_Cons_conv)

section \<open>Properties\<close>

text \<open>
  C1. In every reachable state of the payment services, under any interleaving of requests, the
  ledger says of each payment what its row says: the merchant's account holds the captured
  amount less the fee less what was refunded, the gateway's float the opposite of captured less
  refunded, and the fee account the fee.
\<close>

theorem ledger_agrees_with_payments:
  assumes "reachable cfg s" and "r \<in> set (payments (wdb (fst s)))"
  shows "let d = wdb (fst s); captured = unwrap_or (pay_captured_amount r) 0;
           fee = (case pay_captured_amount r of None \<Rightarrow> 0
                  | Some c \<Rightarrow> max 0 (fee_of c (cfg_system_fee_percentage cfg)))
    in account_net MERCHANT_PAYABLE (pay_id r) d = captured - fee - pay_refunded_amount r \<and>
       account_net GATEWAY_FLOAT (pay_id r) d = pay_refunded_amount r - captured \<and>
       account_net FEE_INCOME (pay_id r) d = fee"
  using reachable_books [OF assms(1)] assms(2)
  by (simp add: books_def expected_net_def captured_of_def fee_taken_def Let_def)

theorem ledger_agrees_with_payments_witness:
  "account_net MERCHANT_PAYABLE 100 (wdb sample_paid) = 980 \<and>
   account_net GATEWAY_FLOAT 100 (wdb sample_paid) = - 1000 \<and>
   account_net FEE_INCOME 100 (wdb sample_paid) = 20"
proof -
  obtain r where r: "r \<in> set (payments (wdb sample_paid))" "pay_id r = 100"
    "pay_captured_amount r = Some 1000" "pay_refunded_amount r = 0"
    by (rule sample_paid_row)
  with ledger_agrees_with_payments [OF sample_paid_reachable, of r] show ?thesis
    by (simp add: Let_def sample_config_def fee_sample)
qed

text \<open>
  C3. In every reachable state the ledger balances: for every merchant, and for every payment,
  the debits and the credits recorded add up to the same amount.
\<close>

theorem ledger_always_balances:
  assumes "reachable cfg s"
  shows "entry_total le_merchant_id Debit m (wdb (fst s)) = entry_total le_merchant_id Credit m (wdb (fst s)) \<and>
    entry_total le_payment_id Debit i (wdb (fst s)) = entry_total le_payment_id Credit i (wdb (fst s))"
  using reachable_books [OF assms] by (simp add: books_def by_payment.balancedD by_merchant.balancedD)

theorem ledger_always_balances_witness:
  "entry_total le_merchant_id Debit 7 (wdb sample_paid) = entry_total le_merchant_id Credit 7 (wdb sample_paid)"
  using ledger_always_balances [OF sample_paid_reachable, of 7 100] by simp

text \<open>
  C2. In every reachable state no payment is refunded for more than it has: its refund rows add
  up to at most its refunded amount, which is at most what was captured, and only captured
  payments have refunds.
\<close>

theorem refunds_bounded_by_capture:
  assumes "reachable cfg s" and "r \<in> set (payments (wdb (fst s)))"
  shows "sum_list (map rf_amount (filter (\<lambda>q. rf_payment_id q = pay_id r) (refunds (wdb (fst s)))))
      \<le> pay_refunded_amount r \<and>
    0 \<le> pay_refunded_amount r \<and> pay_refunded_amount r \<le> effective_amount r \<and>
    (if pay_captured_amount r = None then pay_refunded_amount r = 0 else True)"
  using reachable_books [OF assms(1)] assms(2) by (simp add: books_def row_ok_def refund_sum_def)

theorem refunds_bounded_by_capture_witness:
  "\<exists>r \<in> set (payments (wdb sample_paid)). effective_amount r = 1000 \<and>
     sum_list (map rf_amount (filter (\<lambda>q. rf_payment_id q = 100) (refunds (wdb sample_paid)))) \<le> 1000"
proof -
  obtain r where r: "r \<in> set (payments (wdb sample_paid))" "pay_id r = 100"
    "pay_captured_amount r = Some 1000" "pay_refunded_amount r = 0"
    by (rule sample_paid_row)
  with refunds_bounded_by_capture [OF sample_paid_reachable, of r] show ?thesis
    by (intro bexI [of _ r]) (auto simp: effective_amount_def)
qed

text \<open>
  C4. In every reachable state two payments of one merchant with the same idempotency key are
  one payment.
\<close>

theorem one_payment_per_key:
  assumes "reachable cfg s" and "r \<in> set (payments (wdb (fst s)))" "q \<in> set (payments (wdb (fst s)))"
    and "pay_merchant_id r = pay_merchant_id q" "pay_idempotency_key r = pay_idempotency_key q"
    and "pay_idempotency_key r \<noteq> None"
  shows "r = q"
proof -
  have b: "distinct (map pay_id (payments (wdb (fst s))))" "keys_unique (payments (wdb (fst s)))"
    using reachable_books [OF assms(1)] by (simp_all add: books_def)
  then have "pay_id r = pay_id q"
    using assms(2-) unfolding keys_unique_def same_key_def by blast
  then show ?thesis using key_row_unique [OF b(1) assms(3,2)] by simp
qed

theorem one_payment_per_key_witness:
  "\<exists>r \<in> set (payments (wdb sample_paid)). pay_idempotency_key r = Some ''k'' \<and>
     filter (\<lambda>q. pay_merchant_id q = 7 \<and> pay_idempotency_key q = Some ''k'' \<and> q \<noteq> r)
       (payments (wdb sample_paid)) = []"
proof -
  obtain r where r: "r \<in> set (payments (wdb sample_paid))" "pay_id r = 100" "pay_merchant_id r = 7"
    "pay_idempotency_key r = Some ''k''"
    by (rule sample_paid_row)
  have only: "\<not> (pay_merchant_id q = 7 \<and> pay_idempotency_key q = Some ''k'' \<and> q \<noteq> r)"
    if q: "q \<in> set (payments (wdb sample_paid))" for q
  proof
    assume k: "pay_merchant_id q = 7 \<and> pay_idempotency_key q = Some ''k'' \<and> q \<noteq> r"
    have "r = q"
      by (rule one_payment_per_key [OF sample_paid_reachable]) (use r q k in \<open>simp_all only: fst_conv\<close>, simp)
    with k show False by blast
  qed
  have "filter (\<lambda>q. pay_merchant_id q = 7 \<and> pay_idempotency_key q = Some ''k'' \<and> q \<noteq> r)
      (payments (wdb sample_paid)) = []"
    using only by (simp only: filter_empty_conv) blast
  with r show ?thesis by blast
qed

end
