(* ===== verification/Circuit_Breaker.thy ===== *)
theory Circuit_Breaker
  imports Prelude
begin

text \<open>
  \<open>crates/acquirer-router/src/circuit_breaker.rs\<close>: the breaker in front of an acquirer. The
  mutex makes each operation atomic, so an operation is a function of the breaker; the reading
  of the monotonic clock is an argument. Counters are \<open>u32\<close>.
\<close>

datatype circuit_state = Closed | Open time | HalfOpen

record circuit_breaker =
  cb_state :: circuit_state
  cb_failure_count :: u32
  cb_success_count :: u32
  cb_failure_threshold :: u32
  cb_success_threshold :: u32
  cb_timeout :: int

definition new_circuit_breaker :: circuit_breaker where
  "new_circuit_breaker = \<lparr>cb_state = Closed, cb_failure_count = 0, cb_success_count = 0,
     cb_failure_threshold = 5, cb_success_threshold = 2, cb_timeout = time_secs 30\<rparr>"

definition allow_request :: "time \<Rightarrow> circuit_breaker \<Rightarrow> bool \<times> circuit_breaker" where
  "allow_request now cb = (case cb_state cb of
       Closed \<Rightarrow> (True, cb)
     | Open until \<Rightarrow>
         if now \<ge> until then (True, cb\<lparr>cb_state := HalfOpen, cb_success_count := 0\<rparr>)
         else (False, cb)
     | HalfOpen \<Rightarrow> (True, cb))"

definition record_success :: "circuit_breaker \<Rightarrow> circuit_breaker" where
  "record_success cb =
     (let cb = cb\<lparr>cb_failure_count := 0\<rparr> in
      if cb_state cb = HalfOpen then
        (let cb = cb\<lparr>cb_success_count := cb_success_count cb + 1\<rparr> in
         if cb_success_count cb \<ge> cb_success_threshold cb then cb\<lparr>cb_state := Closed\<rparr> else cb)
      else cb)"

definition record_failure :: "time \<Rightarrow> circuit_breaker \<Rightarrow> circuit_breaker" where
  "record_failure now cb =
     (let cb = cb\<lparr>cb_failure_count := cb_failure_count cb + 1\<rparr> in
      if cb_failure_count cb \<ge> cb_failure_threshold cb \<or> cb_state cb = HalfOpen
      then cb\<lparr>cb_state := Open (now + cb_timeout cb), cb_failure_count := 0\<rparr>
      else cb)"

definition is_open :: "circuit_breaker \<Rightarrow> bool" where
  "is_open cb = (case cb_state cb of Open _ \<Rightarrow> True | _ \<Rightarrow> False)"

section \<open>Histories\<close>

text \<open>What can happen to a breaker: a permission is asked for, an answer is recorded.\<close>

datatype breaker_event = Ask time | Success | Failure time

fun apply_event :: "breaker_event \<Rightarrow> circuit_breaker \<Rightarrow> circuit_breaker" where
  "apply_event (Ask now) cb = snd (allow_request now cb)"
| "apply_event Success cb = record_success cb"
| "apply_event (Failure now) cb = record_failure now cb"

definition run_events :: "breaker_event list \<Rightarrow> circuit_breaker \<Rightarrow> circuit_breaker" where
  "run_events es cb = fold apply_event es cb"

lemma run_events_simps [simp]:
  "run_events [] cb = cb" "run_events (e # es) cb = run_events es (apply_event e cb)"
  "run_events (es @ fs) cb = run_events fs (run_events es cb)"
  by (simp_all add: run_events_def)

definition default_limits :: "circuit_breaker \<Rightarrow> bool" where
  "default_limits cb \<longleftrightarrow> cb_failure_threshold cb = 5 \<and> cb_success_threshold cb = 2 \<and> cb_timeout cb = time_secs 30"

text \<open>
  Fewer failures are counted than the threshold, and a half-open breaker has counted fewer
  successes than it needs: neither counter can wrap.
\<close>

definition breaker_inv :: "circuit_breaker \<Rightarrow> bool" where
  "breaker_inv cb \<longleftrightarrow> default_limits cb \<and> cb_failure_count cb < cb_failure_threshold cb \<and>
     cb_success_count cb \<le> cb_success_threshold cb \<and>
     (cb_state cb = HalfOpen \<longrightarrow> cb_success_count cb < cb_success_threshold cb)"

lemma new_breaker_inv: "breaker_inv new_circuit_breaker"
  by (simp add: breaker_inv_def default_limits_def new_circuit_breaker_def)

lemma small_u32: "(n :: u32) < 5 \<Longrightarrow> n \<in> {0, 1, 2, 3, 4}"
proof -
  assume "n < 5"
  then have "unat n < 5" by (simp add: word_less_nat_alt)
  then have "unat n = 0 \<or> unat n = 1 \<or> unat n = 2 \<or> unat n = 3 \<or> unat n = 4" by linarith
  then show ?thesis by (elim disjE) (simp_all add: word_unat_eq_iff)
qed

lemma small_u32_2: "(n :: u32) < 2 \<Longrightarrow> n = 0 \<or> n = 1"
proof -
  assume "n < 2"
  then have "unat n < 2" by (simp add: word_less_nat_alt)
  then have "unat n = 0 \<or> unat n = 1" by linarith
  then show ?thesis by (elim disjE) (simp_all add: word_unat_eq_iff)
qed

lemma two_not_le_one [simp]: "\<not> (2 :: u32) \<le> 1"
  by (simp add: word_le_nat_alt)

lemma apply_event_inv: "breaker_inv cb \<Longrightarrow> breaker_inv (apply_event e cb)"
  by (cases e)
    (auto simp: breaker_inv_def default_limits_def allow_request_def record_success_def record_failure_def Let_def
      not_le split: circuit_state.splits dest!: small_u32 small_u32_2)

lemma run_events_inv: "breaker_inv cb \<Longrightarrow> breaker_inv (run_events es cb)"
  by (induction es arbitrary: cb) (simp_all add: apply_event_inv)

lemma reachable_breaker: "breaker_inv (run_events es new_circuit_breaker)"
  by (rule run_events_inv [OF new_breaker_inv])

section \<open>Properties\<close>


lemma unat_plus_one: "unat (n :: u32) < 5 \<Longrightarrow> unat (n + 1) = unat n + 1"
  by (simp add: unat_word_ariths)

lemma run_failures:
  "\<lbrakk>breaker_inv cb; cb_state cb = Closed; unat (cb_failure_count cb) + length ts < 5\<rbrakk> \<Longrightarrow>
     cb_state (run_events (map Failure ts) cb) = Closed \<and>
     unat (cb_failure_count (run_events (map Failure ts) cb)) = unat (cb_failure_count cb) + length ts"
proof (induction ts arbitrary: cb)
  case Nil
  then show ?case by simp
next
  case (Cons t ts)
  have lim: "cb_failure_threshold cb = 5" using Cons.prems by (simp add: breaker_inv_def default_limits_def)
  have n: "unat (cb_failure_count cb + 1) = unat (cb_failure_count cb) + 1"
    using Cons.prems(3) by (intro unat_plus_one) simp
  have "\<not> 5 \<le> cb_failure_count cb + 1"
    using Cons.prems n by (simp add: word_le_nat_alt)
  then have step: "record_failure t cb = cb\<lparr>cb_failure_count := cb_failure_count cb + 1\<rparr>"
    using Cons.prems lim by (simp add: record_failure_def Let_def)
  have "breaker_inv (apply_event (Failure t) cb)" using Cons.prems(1) by (rule apply_event_inv)
  with Cons.IH [of "apply_event (Failure t) cb"] Cons.prems n show ?case by (simp add: step)
qed

lemma breaker_opens:
  assumes "length ts = 4"
  shows "cb_state (run_events (map Failure ts) new_circuit_breaker) = Closed \<and>
    cb_state (run_events (map Failure ts @ [Failure t]) new_circuit_breaker) = Open (t + time_secs 30)"
proof -
  let ?cb = "run_events (map Failure ts) new_circuit_breaker"
  have r: "cb_state ?cb = Closed \<and> unat (cb_failure_count ?cb) = 4"
    using run_failures [OF new_breaker_inv, of ts] assms by (simp add: new_circuit_breaker_def)
  then have "cb_failure_count ?cb = 4" by (simp add: word_unat_eq_iff)
  moreover have "default_limits ?cb" using reachable_breaker [of "map Failure ts"] by (simp add: breaker_inv_def)
  ultimately show ?thesis using r by (simp add: record_failure_def Let_def default_limits_def)
qed

text \<open>
  Four failures in a row leave a new breaker closed; the fifth opens it for thirty seconds
  from that failure.
\<close>

theorem breaker_opens_on_fifth_failure:
  assumes "length ts = 4"
  shows "cb_state (run_events (map Failure ts) new_circuit_breaker) = Closed \<and>
    cb_state (run_events (map Failure ts @ [Failure t]) new_circuit_breaker) = Open (t + time_secs 30)"
  using assms by (rule breaker_opens)

theorem breaker_opens_on_fifth_failure_witness:
  "cb_state (run_events [Failure 1, Failure 2, Failure 3, Failure 4, Failure 5] new_circuit_breaker) =
     Open (5 + time_secs 30)"
  using breaker_opens_on_fifth_failure [of "[1, 2, 3, 4]" 5] by simp

text \<open>
  Whatever happened before, a permission asked for at or after the deadline and two recorded
  successes close the breaker, with no failure counted; one recorded failure instead opens it
  again at once.
\<close>

theorem breaker_recovers:
  assumes "case cb_state (run_events es new_circuit_breaker) of Open until \<Rightarrow> until \<le> now | _ \<Rightarrow> True"
  shows "(let cb = run_events (es @ [Ask now, Success, Success]) new_circuit_breaker in
      cb_state cb = Closed \<and> cb_failure_count cb = 0) \<and>
    (case cb_state (run_events es new_circuit_breaker) of Closed \<Rightarrow> True
      | _ \<Rightarrow> cb_state (run_events (es @ [Ask now, Failure t]) new_circuit_breaker) = Open (t + time_secs 30))"
  using assms reachable_breaker [of es]
  by (auto simp: Let_def allow_request_def record_success_def record_failure_def breaker_inv_def
      default_limits_def not_le split: circuit_state.splits dest!: small_u32_2)

theorem breaker_recovers_witness:
  "cb_state (run_events ([Failure 1, Failure 2, Failure 3, Failure 4, Failure 5] @ [Ask (time_secs 40), Success, Success])
     new_circuit_breaker) = Closed"
proof -
  let ?es = "[Failure 1, Failure 2, Failure 3, Failure 4, Failure 5]"
  have "cb_state (run_events ?es new_circuit_breaker) = Open (5 + time_secs 30)"
    by code_simp
  then show ?thesis
    using breaker_recovers [where es = ?es and now = "time_secs 40" and t = 0]
    by (simp only: Let_def) (simp add: time_secs_def)
qed

end
