(* ===== verification/Acquirer_Router.thy ===== *)
theory Acquirer_Router
  imports World Circuit_Breaker "HOL-Library.Multiset"
begin

text \<open>
  \<open>crates/acquirer-router/src/adapter.rs\<close> and \<open>router.rs\<close>: the interface of an acquirer as a
  record of computations, and the router that tries the acquirers in priority order behind
  their circuit breakers. The router's own state is the list of its entries; a routed call
  returns a result, the entries with their breakers updated, and the world.
\<close>

section \<open>The adapter interface\<close>

datatype charge_status = ChargeAuthorized | ChargeCaptured | ChargeDeclined | ChargePending | ChargeRequiresAction

record charge_request =
  chq_payment_id :: uuid
  chq_amount :: i64
  chq_currency :: string
  chq_payment_method :: json
  chq_capture :: bool
  chq_description :: "string option"
  chq_metadata :: json

record charge_response =
  chr_acquirer_reference :: string
  chr_status :: charge_status
  chr_acquirer_id :: string
  chr_redirect_url :: "string option"

record capture_request =
  caq_payment_id :: uuid
  caq_acquirer_reference :: string
  caq_amount :: i64

record capture_response =
  car_acquirer_reference :: string
  car_captured_amount :: i64

record refund_request =
  req_payment_id :: uuid
  req_acquirer_reference :: string
  req_amount :: i64
  req_reason :: "string option"

record refund_response =
  rer_refund_reference :: string
  rer_refunded_amount :: i64

record acquirer_adapter =
  ad_name :: string
  ad_charge :: "charge_request \<Rightarrow> charge_response M"
  ad_capture :: "capture_request \<Rightarrow> capture_response M"
  ad_refund :: "refund_request \<Rightarrow> refund_response M"
  ad_get_charge_status :: "string \<Rightarrow> charge_status M"
  ad_health_check :: "bool M"

section \<open>The router\<close>

record acquirer_entry =
  en_adapter :: acquirer_adapter
  en_breaker :: circuit_breaker
  en_priority :: u8

type_synonym 'a routed = "(app_error + 'a) \<times> acquirer_entry list \<times> world"

definition register :: "acquirer_adapter \<Rightarrow> u8 \<Rightarrow> acquirer_entry list \<Rightarrow> acquirer_entry list" where
  "register ad priority acquirers = sort_key en_priority
     (acquirers @ [\<lparr>en_adapter = ad, en_breaker = new_circuit_breaker, en_priority = priority\<rparr>])"

text \<open>\<open>Instant::now()\<close>: a reading of the clock.\<close>

definition instant_now :: "world \<Rightarrow> time \<times> world" where
  "instant_now w = (clock_src w (clock_next w), w\<lparr>clock_next := Suc (clock_next w)\<rparr>)"

definition ask_entry :: "acquirer_entry \<Rightarrow> world \<Rightarrow> bool \<times> acquirer_entry \<times> world" where
  "ask_entry e w = (let (now, w) = instant_now w; (allowed, cb) = allow_request now (en_breaker e)
     in (allowed, e\<lparr>en_breaker := cb\<rparr>, w))"

definition entry_succeeded :: "acquirer_entry \<Rightarrow> acquirer_entry" where
  "entry_succeeded e = e\<lparr>en_breaker := record_success (en_breaker e)\<rparr>"

definition entry_failed :: "acquirer_entry \<Rightarrow> world \<Rightarrow> acquirer_entry \<times> world" where
  "entry_failed e w = (let (now, w) = instant_now w in (e\<lparr>en_breaker := record_failure now (en_breaker e)\<rparr>, w))"

text \<open>
  The loop of \<open>charge\<close> over all entries; the flag of an entry says whether it is one of the
  candidates, whose breakers were not open when the call began. \<open>keep e r\<close> puts the entry back
  in front of those the rest of the loop returns.
\<close>

definition keep :: "acquirer_entry \<Rightarrow> 'a routed \<Rightarrow> 'a routed" where
  "keep e r = (case r of (x, es, w) \<Rightarrow> (x, e # es, w))"

fun charge_loop ::
  "charge_request \<Rightarrow> app_error \<Rightarrow> (bool \<times> acquirer_entry) list \<Rightarrow> world \<Rightarrow> charge_response routed" where
  "charge_loop req last_err [] w = (Inl last_err, [], w)"
| "charge_loop req last_err ((candidate, e) # es) w =
     (if \<not> candidate then keep e (charge_loop req last_err es w)
      else (case ask_entry e w of (allowed, e, w) \<Rightarrow>
        if \<not> allowed then keep e (charge_loop req last_err es w)
        else (case ad_charge (en_adapter e) req w of
            (Inr response, w) \<Rightarrow> (Inr response, entry_succeeded e # map snd es, w)
          | (Inl x, w) \<Rightarrow>
              (case x of
                 AcquirerDeclined code message \<Rightarrow> (Inl (AcquirerDeclined code message), e # map snd es, w)
               | _ \<Rightarrow> (case entry_failed e w of (e, w) \<Rightarrow> keep e (charge_loop req x es w))))))"

definition candidates :: "acquirer_entry list \<Rightarrow> (bool \<times> acquirer_entry) list" where
  "candidates acquirers = map (\<lambda>e. (\<not> is_open (en_breaker e), e)) acquirers"

definition route_charge :: "charge_request \<Rightarrow> acquirer_entry list \<Rightarrow> world \<Rightarrow> charge_response routed" where
  "route_charge req acquirers w =
     (if filter fst (candidates acquirers) = [] then (Inl AllAcquirersFailed, acquirers, w)
      else charge_loop req AllAcquirersFailed (candidates acquirers) w)"

text \<open>
  \<open>capture\<close> and \<open>refund\<close>: the first acquirer whose breaker allows a request gets it, and its
  answer, success or error, is the answer.
\<close>

fun route_first :: "(acquirer_adapter \<Rightarrow> 'b M) \<Rightarrow> acquirer_entry list \<Rightarrow> world \<Rightarrow> 'b routed" where
  "route_first call [] w = (Inl AllAcquirersFailed, [], w)"
| "route_first call (e # es) w =
     (case ask_entry e w of (allowed, e, w) \<Rightarrow>
        if \<not> allowed then keep e (route_first call es w)
        else (case call (en_adapter e) w of
            (Inr resp, w) \<Rightarrow> (Inr resp, entry_succeeded e # es, w)
          | (Inl x, w) \<Rightarrow> (case entry_failed e w of (e, w) \<Rightarrow> (Inl x, e # es, w))))"

definition route_capture :: "capture_request \<Rightarrow> acquirer_entry list \<Rightarrow> world \<Rightarrow> capture_response routed" where
  "route_capture req = route_first (\<lambda>ad. ad_capture ad req)"

definition route_refund :: "refund_request \<Rightarrow> acquirer_entry list \<Rightarrow> world \<Rightarrow> refund_response routed" where
  "route_refund req = route_first (\<lambda>ad. ad_refund ad req)"

section \<open>Lemmas\<close>

lemma keep_eq [simp]: "keep e (x, es, w) = (x, e # es, w)"
  by (simp add: keep_def)

lemma keep_eq_iff: "keep e r = (x, es, w) \<longleftrightarrow> (\<exists>es'. r = (x, es', w) \<and> es = e # es')"
  by (cases r) auto

text \<open>Registration keeps the entries of equal priority in the order they were registered.\<close>

lemma filter_sort_key: "filter (\<lambda>x. key k = key x) (sort_key key xs) = filter (\<lambda>x. key k = key x) xs"
  using sort_key_stable [of key "key k" xs] by (simp add: eq_commute)

lemma sort_key_snoc: "sort_key key (sort_key key xs @ ys) = sort_key key (xs @ ys)"
  by (rule properties_for_sort_key) (simp_all add: filter_sort_key)

definition new_entry :: "acquirer_adapter \<times> u8 \<Rightarrow> acquirer_entry" where
  "new_entry r = \<lparr>en_adapter = fst r, en_breaker = new_circuit_breaker, en_priority = snd r\<rparr>"

definition register_all :: "(acquirer_adapter \<times> u8) list \<Rightarrow> acquirer_entry list" where
  "register_all rs = foldl (\<lambda>es r. register (fst r) (snd r) es) [] rs"

lemma register_all_sorted: "register_all rs = sort_key en_priority (map new_entry rs)"
proof (induction rs rule: rev_induct)
  case Nil
  then show ?case by (simp add: register_all_def)
next
  case (snoc r rs)
  then show ?case
    by (simp add: register_all_def register_def new_entry_def [symmetric] sort_key_snoc)
qed

text \<open>The relation between an entry before and after a call: only the breaker moves, by its own operations.\<close>

inductive breaker_moves :: "circuit_breaker \<Rightarrow> circuit_breaker \<Rightarrow> bool" where
  moves_refl: "breaker_moves cb cb"
| moves_step: "breaker_moves cb cb' \<Longrightarrow> breaker_moves cb (apply_event e cb')"

lemma breaker_moves_inv: "breaker_moves cb cb' \<Longrightarrow> breaker_inv cb \<Longrightarrow> breaker_inv cb'"
  by (induction rule: breaker_moves.induct) (simp_all add: apply_event_inv)

definition entry_moves :: "acquirer_entry \<Rightarrow> acquirer_entry \<Rightarrow> bool" where
  "entry_moves e e' \<longleftrightarrow> en_adapter e' = en_adapter e \<and> en_priority e' = en_priority e \<and>
     breaker_moves (en_breaker e) (en_breaker e')"

lemma entry_moves_refl [simp, intro]: "entry_moves e e"
  by (simp add: entry_moves_def moves_refl)

lemma entry_moves_step:
  assumes "entry_moves e e'"
  shows "entry_moves e (e'\<lparr>en_breaker := apply_event ev (en_breaker e')\<rparr>)"
  using assms by (simp add: entry_moves_def moves_step)

lemma ask_entry_moves: "\<lbrakk>ask_entry e w = (a, e', w'); entry_moves d e\<rbrakk> \<Longrightarrow> entry_moves d e'"
  using entry_moves_step [of d e "Ask (clock_src w (clock_next w))"]
  by (auto simp: ask_entry_def instant_now_def Let_def split: prod.splits)

lemma entry_failed_moves: "\<lbrakk>entry_failed e w = (e', w'); entry_moves d e\<rbrakk> \<Longrightarrow> entry_moves d e'"
  using entry_moves_step [of d e "Failure (clock_src w (clock_next w))"]
  by (auto simp: entry_failed_def instant_now_def Let_def)

lemma entry_succeeded_moves: "entry_moves d e \<Longrightarrow> entry_moves d (entry_succeeded e)"
  using entry_moves_step [of d e Success] by (simp add: entry_succeeded_def)

section \<open>What a routed charge does to the entries\<close>

lemma candidate_allowed: "\<not> is_open (en_breaker e) \<Longrightarrow> ask_entry e w = (True, e, snd (instant_now w))"
  by (simp add: ask_entry_def instant_now_def Let_def is_open_def allow_request_def split: circuit_state.splits)

text \<open>
  An answer ends the loop: a response, or a decline. \<open>answered x\<close> says that \<open>x\<close> is one.
\<close>

fun answered :: "app_error + charge_response \<Rightarrow> bool" where
  "answered (Inr _) = True"
| "answered (Inl (AcquirerDeclined _ _)) = True"
| "answered (Inl _) = False"

lemma answered_InlD: "answered (Inl x) \<Longrightarrow> \<exists>c m. x = AcquirerDeclined c m"
  by (cases x) simp_all

text \<open>The step of the loop at a candidate, by what its acquirer answers.\<close>

lemma charge_loop_answer:
  assumes "\<not> is_open (en_breaker e)" and "ad_charge (en_adapter e) req (snd (instant_now w)) = (x, v)" and "answered x"
  shows "charge_loop req d ((True, e) # cs) w =
    (x, (case x of Inr _ \<Rightarrow> entry_succeeded e | Inl _ \<Rightarrow> e) # map snd cs, v)"
  using assms by (auto simp: candidate_allowed split: sum.split dest: answered_InlD)

lemma charge_loop_failure:
  assumes "\<not> is_open (en_breaker e)" and "ad_charge (en_adapter e) req (snd (instant_now w)) = (Inl x, v)"
    and "\<not> answered (Inl x)"
  shows "charge_loop req d ((True, e) # cs) w =
    keep (fst (entry_failed e v)) (charge_loop req x cs (snd (entry_failed e v)))"
  using assms by (cases x) (simp_all add: candidate_allowed split: prod.split)

declare charge_loop.simps(2) [simp del]

lemma charge_loop_skip: "charge_loop req d ((False, e) # cs) w = keep e (charge_loop req d cs w)"
  by (simp add: charge_loop.simps)

lemma candidates_simps [simp]:
  "candidates [] = []" "candidates (e # es) = (\<not> is_open (en_breaker e), e) # candidates es"
  "map snd (candidates es) = es" "length (candidates es) = length es"
  by (simp_all add: candidates_def comp_def)

text \<open>
  The loop over the candidates of a router, from the first entry on: an open entry is passed, an
  answer ends it, a failure is recorded and the next entry gets its turn.
\<close>

lemma charge_loop_induct [consumes 1, case_names Nil Skip Answer Failure]:
  assumes "charge_loop req d (candidates es) w = (x, es', w')"
    and "\<And>d w. P d [] w (Inl d) [] w"
    and "\<And>d e es w x es' w'. \<lbrakk>is_open (en_breaker e); P d es w x es' w'\<rbrakk> \<Longrightarrow> P d (e # es) w x (e # es') w'"
    and "\<And>d e es w x v. \<lbrakk>\<not> is_open (en_breaker e); ad_charge (en_adapter e) req (snd (instant_now w)) = (x, v);
       answered x\<rbrakk> \<Longrightarrow> P d (e # es) w x ((case x of Inr _ \<Rightarrow> entry_succeeded e | Inl _ \<Rightarrow> e) # es) v"
    and "\<And>d e es w y v x es' w'. \<lbrakk>\<not> is_open (en_breaker e);
       ad_charge (en_adapter e) req (snd (instant_now w)) = (Inl y, v); \<not> answered (Inl y);
       P y es (snd (entry_failed e v)) x es' w'\<rbrakk> \<Longrightarrow> P d (e # es) w x (fst (entry_failed e v) # es') w'"
  shows "P d es w x es' w'"
  using assms(1)
proof (induction es arbitrary: d w x es' w')
  case Nil
  then show ?case using assms(2) by auto
next
  case (Cons e es)
  show ?case
  proof (cases "is_open (en_breaker e)")
    case True
    then show ?thesis using Cons assms(3) by (auto simp: charge_loop_skip keep_eq_iff)
  next
    case False
    obtain y v where y: "ad_charge (en_adapter e) req (snd (instant_now w)) = (y, v)" by fastforce
    show ?thesis
    proof (cases "answered y")
      case True
      then show ?thesis using Cons.prems False y assms(4) by (auto simp: charge_loop_answer)
    next
      case na: False
      then obtain z where "y = Inl z" by (cases y) simp_all
      then show ?thesis using Cons False y na assms(5) by (auto simp: charge_loop_failure keep_eq_iff)
    qed
  qed
qed

lemma charge_loop_moves:
  "charge_loop req d (candidates es) w = (x, es', w') \<Longrightarrow> list_all2 entry_moves es es'"
proof (induction rule: charge_loop_induct)
  case (Answer d e es w x v)
  then show ?case by (simp add: list.rel_refl entry_succeeded_moves split: sum.split)
next
  case (Failure d e es w y v x es' w')
  then show ?case using entry_failed_moves [OF prod.collapse [symmetric] entry_moves_refl] by simp
qed simp_all

lemma charge_loop_open_kept:
  "charge_loop req d (candidates es) w = (x, es', w') \<Longrightarrow>
     list_all2 (\<lambda>e e'. is_open (en_breaker e) \<longrightarrow> e' = e) es es'"
  by (induction rule: charge_loop_induct) (simp_all add: list.rel_refl split: sum.split)

lemma route_charge_loop: "route_charge req es w = charge_loop req AllAcquirersFailed (candidates es) w"
proof -
  have "filter fst (candidates es) = [] \<Longrightarrow> charge_loop req d (candidates es) w = (Inl d, es, w)" for d
    by (induction es) (auto simp: charge_loop_skip split: if_splits)
  then show ?thesis by (simp add: route_charge_def)
qed

lemma route_first_moves:
  "route_first call es w = (x, es', w') \<Longrightarrow> list_all2 entry_moves es es'"
proof (induction es arbitrary: w x es' w')
  case Nil
  then show ?case by simp
next
  case (Cons e es)
  then show ?case
    by (auto simp: list.rel_refl keep_eq_iff split: prod.splits if_splits sum.splits
      dest!: ask_entry_moves [OF _ entry_moves_refl] intro: entry_succeeded_moves entry_failed_moves)
qed

end
