(* ===== verification/Adapters.thy ===== *)
theory Adapters
  imports Acquirer_Router Orchestrator Samples
begin

text \<open>
  \<open>crates/adapters/stripe-adapter/src/lib.rs\<close>, \<open>crates/adapters/upi-adapter/src/lib.rs\<close> and the
  mock of an acquirer in \<open>acquirer-router/src/bin/mock_acquirer.rs\<close>: two values of the adapter
  record and the peer the payment service is run against. A form body is the object of its
  fields, every value a string. \<open>to_lowercase\<close> is written for ASCII, of which currency codes are.
\<close>

section \<open>Stripe\<close>

record stripe_config =
  sc_api_key :: string
  sc_base_url :: string

definition new_stripe :: "string \<Rightarrow> stripe_config" where
  "new_stripe api_key = \<lparr>sc_api_key = api_key, sc_base_url = ''https://api.stripe.com/v1''\<rparr>"

definition with_base_url :: "string \<Rightarrow> stripe_config \<Rightarrow> stripe_config" where
  "with_base_url url c = c\<lparr>sc_base_url := url\<rparr>"

definition auth_header :: "stripe_config \<Rightarrow> string \<times> string" where
  "auth_header c = (''Authorization'', ''Bearer '' @ sc_api_key c)"

definition lower_char :: "char \<Rightarrow> char" where
  "lower_char c = (if 65 \<le> (of_char c :: nat) \<and> (of_char c :: nat) \<le> 90 then char_of ((of_char c :: nat) + 32) else c)"

definition to_lowercase :: "string \<Rightarrow> string" where
  "to_lowercase s = List.map lower_char s"

definition form :: "(string \<times> string) list \<Rightarrow> json" where
  "form params = JObj (List.map (\<lambda>(k, v). (k, JStr v)) params)"

definition stripe_post :: "stripe_config \<Rightarrow> string \<Rightarrow> (string \<times> string) list \<Rightarrow> http_outcome M" where
  "stripe_post c path params = post (sc_base_url c @ path) [auth_header c] (form params)"

definition stripe_get :: "stripe_config \<Rightarrow> string \<Rightarrow> http_outcome M" where
  "stripe_get c path = http_send \<lparr>hr_method = ''GET'', hr_url = sc_base_url c @ path,
     hr_headers = [auth_header c], hr_body = JNull\<rparr>"

definition opt_list :: "('a \<Rightarrow> 'b) \<Rightarrow> 'a option \<Rightarrow> 'b list" where
  "opt_list f v = (case v of None \<Rightarrow> [] | Some x \<Rightarrow> [f x])"

definition charge_params :: "charge_request \<Rightarrow> lib \<Rightarrow> (string \<times> string) list" where
  "charge_params req l =
     [(''amount'', show_int (chq_amount req)), (''currency'', to_lowercase (chq_currency req)),
      (''confirm'', ''true''),
      (''capture_method'', if chq_capture req then ''automatic'' else ''manual''),
      (''metadata[payment_id]'', uuid_show l (chq_payment_id req))] @
     opt_list (\<lambda>token. (''payment_method'', token)) (as_str (jget (chq_payment_method req) ''token'')) @
     opt_list (\<lambda>desc. (''description'', desc)) (chq_description req)"

definition stripe_status :: "string \<Rightarrow> charge_status" where
  "stripe_status s =
     (if s = ''requires_capture'' then ChargeAuthorized
      else if s = ''succeeded'' then ChargeCaptured
      else if s = ''requires_action'' then ChargeRequiresAction
      else if s = ''processing'' then ChargePending
      else ChargeDeclined)"

definition stripe_charge :: "stripe_config \<Rightarrow> charge_request \<Rightarrow> charge_response M" where
  "stripe_charge c req =
     and_then (read_lib (charge_params req)) (\<lambda>params.
     and_then (stripe_post c ''/payment_intents'' params) (\<lambda>resp.
     case resp of
       SendError e \<Rightarrow> err (AcquirerUnavailable (''Stripe unreachable: '' @ e))
     | Response status b \<Rightarrow>
         and_then (read_lib json_error) (\<lambda>e.
         and_then (ok_or (Internal (''Failed to parse Stripe response: '' @ e)) b) (\<lambda>body.
         if \<not> is_success status then
           err (AcquirerDeclined (str_or (jget (jget body ''error'') ''code'') ''card_declined'')
                 (str_or (jget (jget body ''error'') ''message'') ''Payment declined''))
         else ok \<lparr>chr_acquirer_reference = str_or (jget body ''id'') '''',
                  chr_status = stripe_status (str_or (jget body ''status'') ''failed''),
                  chr_acquirer_id = ''stripe'',
                  chr_redirect_url = as_str (jget (jget (jget body ''next_action'') ''redirect_to_url'') ''url'')\<rparr>))))"

definition stripe_capture :: "stripe_config \<Rightarrow> capture_request \<Rightarrow> capture_response M" where
  "stripe_capture c req =
     and_then (stripe_post c (''/payment_intents/'' @ caq_acquirer_reference req @ ''/capture'')
                [(''amount_to_capture'', show_int (caq_amount req))]) (\<lambda>resp.
     case resp of
       SendError e \<Rightarrow> err (AcquirerUnavailable e)
     | Response status b \<Rightarrow>
         if \<not> is_success status then
           err (AcquirerDeclined ''capture_failed''
                 (str_or (jget (jget (body_or_null b) ''error'') ''message'') ''Capture failed''))
         else ok \<lparr>car_acquirer_reference = caq_acquirer_reference req, car_captured_amount = caq_amount req\<rparr>)"

definition stripe_reason :: "string \<Rightarrow> string" where
  "stripe_reason reason =
     (if reason = ''duplicate'' then ''duplicate''
      else if reason = ''fraudulent'' then ''fraudulent''
      else ''requested_by_customer'')"

definition stripe_refund :: "stripe_config \<Rightarrow> refund_request \<Rightarrow> refund_response M" where
  "stripe_refund c req =
     and_then (stripe_post c ''/refunds''
                ([(''payment_intent'', req_acquirer_reference req), (''amount'', show_int (req_amount req))] @
                 opt_list (\<lambda>reason. (''reason'', stripe_reason reason)) (req_reason req))) (\<lambda>resp.
     case resp of
       SendError e \<Rightarrow> err (AcquirerUnavailable e)
     | Response status b \<Rightarrow>
         if \<not> is_success status then
           err (Internal (str_or (jget (jget (body_or_null b) ''error'') ''message'') ''Refund failed''))
         else ok \<lparr>rer_refund_reference = str_or (jget (body_or_null b) ''id'') '''', rer_refunded_amount = req_amount req\<rparr>)"

definition stripe_get_charge_status :: "stripe_config \<Rightarrow> string \<Rightarrow> charge_status M" where
  "stripe_get_charge_status c reference =
     and_then (stripe_get c (''/payment_intents/'' @ reference)) (\<lambda>resp.
     case resp of
       SendError e \<Rightarrow> err (AcquirerUnavailable e)
     | Response status b \<Rightarrow> ok (stripe_status (str_or (jget (body_or_null b) ''status'') ''failed'')))"

definition stripe_health_check :: "stripe_config \<Rightarrow> bool M" where
  "stripe_health_check c = and_then (stripe_get c ''/balance'') (\<lambda>resp.
     case resp of SendError e \<Rightarrow> ok False | Response status b \<Rightarrow> ok (is_success status))"

definition stripe_adapter :: "stripe_config \<Rightarrow> acquirer_adapter" where
  "stripe_adapter c = \<lparr>ad_name = ''stripe'', ad_charge = stripe_charge c, ad_capture = stripe_capture c,
     ad_refund = stripe_refund c, ad_get_charge_status = stripe_get_charge_status c,
     ad_health_check = stripe_health_check c\<rparr>"

section \<open>UPI\<close>

definition upi_charge :: "charge_request \<Rightarrow> charge_response M" where
  "upi_charge req =
     and_then (ok_or (Validation ''UPI VPA required'') (as_str (jget (chq_payment_method req) ''vpa''))) (\<lambda>vpa.
     and_then new_v4 (\<lambda>i.
     and_then (read_lib (\<lambda>l. uuid_show l i)) (\<lambda>u.
     ok \<lparr>chr_acquirer_reference = ''upi_'' @ u, chr_status = ChargePending,
         chr_acquirer_id = ''upi'', chr_redirect_url = None\<rparr>)))"

definition upi_capture :: "capture_request \<Rightarrow> capture_response M" where
  "upi_capture req = err (Validation ''UPI payments are auto-captured'')"

definition upi_refund :: "refund_request \<Rightarrow> refund_response M" where
  "upi_refund req =
     and_then new_v4 (\<lambda>i.
     and_then (read_lib (\<lambda>l. uuid_show l i)) (\<lambda>u.
     ok \<lparr>rer_refund_reference = ''upi_refund_'' @ u, rer_refunded_amount = req_amount req\<rparr>))"

definition upi_get_charge_status :: "string \<Rightarrow> charge_status M" where
  "upi_get_charge_status reference = ok ChargePending"

definition upi_health_check :: "bool M" where
  "upi_health_check = ok True"

definition upi_adapter :: acquirer_adapter where
  "upi_adapter = \<lparr>ad_name = ''upi'', ad_charge = upi_charge, ad_capture = upi_capture,
     ad_refund = upi_refund, ad_get_charge_status = upi_get_charge_status,
     ad_health_check = upi_health_check\<rparr>"

section \<open>The mock acquirer\<close>

definition mock_charge :: "json \<Rightarrow> json M" where
  "mock_charge payload = and_then new_v4 (\<lambda>i. read_lib (\<lambda>l.
     JObj [(''acquirer_id'', JStr ''mock_acq_1''), (''reference'', JStr (uuid_show l i))]))"

definition mock_capture :: "json \<Rightarrow> nat" where
  "mock_capture payload = 200"

definition mock_refund :: "json \<Rightarrow> json M" where
  "mock_refund payload = and_then new_v4 (\<lambda>i. read_lib (\<lambda>l. JObj [(''refund_id'', JStr (uuid_show l i))]))"

section \<open>The contract of an acquirer\<close>

text \<open>
  What the router relies on: a successful charge is signed with the adapter's name, captures and
  refunds are for the requested amount, and no call touches the database.
\<close>

locale acquirer_contract =
  fixes ad :: acquirer_adapter
  assumes charge_signed: "ad_charge ad q w = (Inr r, w') \<Longrightarrow> chr_acquirer_id r = ad_name ad"
    and capture_amount: "ad_capture ad cq w = (Inr cr, w') \<Longrightarrow>
      car_captured_amount cr = caq_amount cq \<and> car_acquirer_reference cr = caq_acquirer_reference cq"
    and refund_amount: "ad_refund ad rq w = (Inr rr, w') \<Longrightarrow> rer_refunded_amount rr = req_amount rq"
    and charge_db: "ad_charge ad q w = (x, w') \<Longrightarrow> wdb w' = wdb w"
    and capture_db: "ad_capture ad cq w = (y, w') \<Longrightarrow> wdb w' = wdb w"
    and refund_db: "ad_refund ad rq w = (z, w') \<Longrightarrow> wdb w' = wdb w"

text \<open>A router is run with a set of acquirers that all keep the contract.\<close>

locale acquirer_pool =
  fixes member :: "acquirer_adapter \<Rightarrow> bool"
  assumes contract: "member ad \<Longrightarrow> acquirer_contract ad"
begin

lemma charge_loop_signed:
  assumes "charge_loop req d (candidates es) w = (x, es', w')" and "\<forall>e \<in> set es. member (en_adapter e)"
  shows "wdb w' = wdb w \<and> (\<forall>r. x = Inr r \<longrightarrow> (\<exists>e \<in> set es. chr_acquirer_id r = ad_name (en_adapter e)))"
  using assms
proof (induction rule: charge_loop_induct)
  case (Answer d e es w x v)
  then have "acquirer_contract (en_adapter e)" by (simp add: contract)
  then show ?case
    using Answer acquirer_contract.charge_db [of "en_adapter e" req _ x v]
    by (auto simp: instant_now_def dest: acquirer_contract.charge_signed)
next
  case (Failure d e es w y v x es' w')
  then have "acquirer_contract (en_adapter e)" by (simp add: contract)
  then have "wdb v = wdb w"
    using Failure acquirer_contract.charge_db [of "en_adapter e" req _ "Inl y" v]
    by (fastforce simp: instant_now_def)
  then show ?case using Failure by (auto simp: entry_failed_def instant_now_def Let_def)
qed simp_all

lemma route_first_db:
  assumes "\<And>ad w x w'. \<lbrakk>member ad; call ad w = (x, w')\<rbrakk> \<Longrightarrow> wdb w' = wdb w \<and> (\<forall>r. x = Inr r \<longrightarrow> P r)"
    and "route_first call es w = (x, es', w')" and "\<forall>e \<in> set es. member (en_adapter e)"
  shows "wdb w' = wdb w \<and> (\<forall>r. x = Inr r \<longrightarrow> P r)"
  using assms(2,3)
proof (induction es arbitrary: w x es' w')
  case Nil
  then show ?case by auto
next
  case (Cons e es)
  obtain a f v where ask: "ask_entry e w = (a, f, v)" by (metis prod_cases3)
  then have f: "en_adapter f = en_adapter e" "wdb v = wdb w"
    by (auto simp: ask_entry_def instant_now_def Let_def split: prod.splits)
  show ?case
  proof (cases a)
    case False
    then show ?thesis using Cons ask f by (fastforce simp: keep_eq_iff)
  next
    case True
    obtain y u where y: "call (en_adapter e) v = (y, u)" by fastforce
    then have "wdb u = wdb w \<and> (\<forall>r. y = Inr r \<longrightarrow> P r)"
      using assms(1) [of "en_adapter e" v y u] Cons.prems(2) f by simp
    then show ?thesis using Cons.prems(1) ask f True y
      by (cases y) (auto simp: entry_failed_def instant_now_def Let_def)
  qed
qed

lemma route_capture_amount:
  assumes "route_capture req es w = (x, es', w')" and "\<forall>e \<in> set es. member (en_adapter e)"
  shows "wdb w' = wdb w \<and> (\<forall>r. x = Inr r \<longrightarrow> car_captured_amount r = caq_amount req)"
  using assms unfolding route_capture_def
  by (rule route_first_db [rotated])
    (metis contract acquirer_contract.capture_db acquirer_contract.capture_amount)

lemma route_refund_amount:
  assumes "route_refund req es w = (x, es', w')" and "\<forall>e \<in> set es. member (en_adapter e)"
  shows "wdb w' = wdb w \<and> (\<forall>r. x = Inr r \<longrightarrow> rer_refunded_amount r = req_amount req)"
  using assms unfolding route_refund_def
  by (rule route_first_db [rotated])
    (metis contract acquirer_contract.refund_db acquirer_contract.refund_amount)

end

text \<open>The adapters of the repository keep it.\<close>

lemmas call_defs = and_then_def ok_def err_def ok_or_def read_lib_def new_v4_def http_send_def post_def
  stripe_post_def stripe_get_def

interpretation stripe: acquirer_contract "stripe_adapter c" for c
  by unfold_locales
    (auto simp: stripe_adapter_def stripe_charge_def stripe_capture_def stripe_refund_def call_defs
      split: http_outcome.splits if_splits option.splits)

interpretation upi: acquirer_contract upi_adapter
  by unfold_locales
    (auto simp: upi_adapter_def upi_charge_def upi_capture_def upi_refund_def call_defs split: option.splits)

definition rustpay_adapter :: "acquirer_adapter \<Rightarrow> bool" where
  "rustpay_adapter ad \<longleftrightarrow> ad = upi_adapter \<or> (\<exists>c. ad = stripe_adapter c)"

interpretation rustpay: acquirer_pool rustpay_adapter
  by (rule acquirer_pool.intro)
    (auto simp: rustpay_adapter_def upi.acquirer_contract_axioms stripe.acquirer_contract_axioms)

section \<open>Properties of the router\<close>

lemma register_all_adapters: "en_adapter ` set (register_all rs) = fst ` set rs"
  by (force simp: register_all_sorted new_entry_def)

text \<open>
  C16. Whatever the order of registration, the router tries the acquirers by priority, those of
  the same priority in the order they were registered, each behind a breaker of its own.
\<close>

theorem registration_is_stable_sort:
  "register_all rs = sort_key en_priority (map new_entry rs) \<and> sorted (map en_priority (register_all rs)) \<and>
   (map en_adapter (filter (\<lambda>e. en_priority e = p) (register_all rs)) = map fst (filter (\<lambda>r. snd r = p) rs))"
proof -
  have "filter (\<lambda>e. en_priority e = p) (register_all rs) = filter (\<lambda>e. en_priority e = p) (map new_entry rs)"
    by (simp add: register_all_sorted sort_key_stable)
  then show ?thesis by (simp add: register_all_sorted filter_map new_entry_def comp_def)
qed

text \<open>How a charge can end: with the answer of one entry, or with a failure recorded at every entry tried.\<close>

definition answer_at ::
  "charge_request \<Rightarrow> acquirer_entry list \<Rightarrow> app_error + charge_response \<Rightarrow> acquirer_entry list \<Rightarrow> world \<Rightarrow> bool" where
  "answer_at req es x es' w' \<longleftrightarrow> answered x \<and> (\<exists>pre e post u. es = pre @ e # post \<and> \<not> is_open (en_breaker e) \<and>
     ad_charge (en_adapter e) req u = (x, w') \<and>
     drop (length pre) es' = (case x of Inl _ \<Rightarrow> e | Inr _ \<Rightarrow> entry_succeeded e) # post)"

definition failed_at :: "charge_request \<Rightarrow> acquirer_entry \<Rightarrow> acquirer_entry \<Rightarrow> bool" where
  "failed_at req e e' \<longleftrightarrow> (\<exists>u y v. ad_charge (en_adapter e) req u = (Inl y, v) \<and> \<not> answered (Inl y) \<and>
     e' = fst (entry_failed e v))"

definition passed_or_failed :: "charge_request \<Rightarrow> acquirer_entry \<Rightarrow> acquirer_entry \<Rightarrow> bool" where
  "passed_or_failed req e e' = (if is_open (en_breaker e) then e' = e else failed_at req e e')"

definition no_answer ::
  "charge_request \<Rightarrow> app_error \<Rightarrow> acquirer_entry list \<Rightarrow> app_error + charge_response \<Rightarrow> acquirer_entry list \<Rightarrow> bool" where
  "no_answer req d es x es' \<longleftrightarrow> \<not> answered x \<and>
     list_all2 (passed_or_failed req) es es' \<and>
     (if list_all (\<lambda>e. is_open (en_breaker e)) es then x = Inl d
      else \<exists>e \<in> set es. \<exists>u v. \<not> is_open (en_breaker e) \<and> ad_charge (en_adapter e) req u = (x, v))"

lemma answer_at_Cons: "answer_at req es x es' w' \<Longrightarrow> answer_at req (e # es) x (e' # es') w'"
  unfolding answer_at_def by (metis append_Cons drop_Suc_Cons length_Cons)

lemma answer_at_here:
  "\<lbrakk>\<not> is_open (en_breaker e); ad_charge (en_adapter e) req u = (x, w'); answered x\<rbrakk> \<Longrightarrow>
     answer_at req (e # es) x ((case x of Inr _ \<Rightarrow> entry_succeeded e | Inl _ \<Rightarrow> e) # es) w'"
  unfolding answer_at_def by (auto intro!: exI [of _ "[]"])

lemma charge_loop_outcome:
  assumes "charge_loop req d (candidates es) w = (x, es', w')" and "\<not> answered (Inl d)"
  shows "answer_at req es x es' w' \<or> no_answer req d es x es'"
  using assms
proof (induction rule: charge_loop_induct)
  case (Nil d w)
  then show ?case by (simp add: no_answer_def)
next
  case (Skip d e es w x es' w')
  then show ?case by (auto simp: no_answer_def answer_at_Cons passed_or_failed_def)
next
  case (Answer d e es w x v)
  then show ?case by (simp add: answer_at_here)
next
  case (Failure d e es w y v x es' w')
  have "failed_at req e (fst (entry_failed e v))" using Failure.hyps by (auto simp: failed_at_def)
  moreover have "no_answer req y es x es' \<Longrightarrow> list_all (\<lambda>e. is_open (en_breaker e)) es \<Longrightarrow> x = Inl y"
    by (simp add: no_answer_def)
  ultimately show ?case using Failure
    by (cases "list_all (\<lambda>e. is_open (en_breaker e)) es") (auto simp: no_answer_def answer_at_Cons passed_or_failed_def; blast)+
qed


definition card_charge :: charge_request where
  "card_charge = \<lparr>chq_payment_id = 1, chq_amount = 500, chq_currency = ''INR'',
     chq_payment_method = JObj [(''token'', JStr ''tok'')], chq_capture = True, chq_description = None,
     chq_metadata = JNull\<rparr>"

lemmas route_eval = route_charge_def candidates_def register_all_def register_def new_circuit_breaker_def is_open_def
  ask_entry_def allow_request_def instant_now_def entry_succeeded_def entry_failed_def record_failure_def
  stripe_adapter_def stripe_charge_def upi_adapter_def upi_charge_def call_defs ok_or_def


text \<open>A sequence of charges.\<close>

fun route_charges :: "charge_request list \<Rightarrow> acquirer_entry list \<Rightarrow> world \<Rightarrow> acquirer_entry list" where
  "route_charges [] es w = es"
| "route_charges (req # reqs) es w = (case route_charge req es w of (x, es, w) \<Rightarrow> route_charges reqs es w)"

lemma route_charges_open:
  "list_all2 (\<lambda>e e'. is_open (en_breaker e) \<longrightarrow> e' = e) es (route_charges reqs es w)"
proof (induction reqs arbitrary: es w)
  case Nil
  then show ?case by (simp add: list.rel_refl)
next
  case (Cons req reqs)
  obtain x es' w' where r: "route_charge req es w = (x, es', w')" by (metis prod_cases3)
  then have "list_all2 (\<lambda>e e'. is_open (en_breaker e) \<longrightarrow> e' = e) es es'"
    by (simp add: route_charge_loop charge_loop_open_kept)
  from list_all2_trans [OF _ this Cons.IH [of es' w'], of "\<lambda>e e'. is_open (en_breaker e) \<longrightarrow> e' = e"] r
  show ?case by auto
qed



text \<open>A call of the router, and a sequence of calls.\<close>

datatype router_call = DoCharge charge_request | DoCapture capture_request | DoRefund refund_request

fun route_call :: "router_call \<Rightarrow> acquirer_entry list \<Rightarrow> world \<Rightarrow> acquirer_entry list \<times> world" where
  "route_call (DoCharge q) es w = snd (route_charge q es w)"
| "route_call (DoCapture q) es w = snd (route_capture q es w)"
| "route_call (DoRefund q) es w = snd (route_refund q es w)"

fun route_calls :: "router_call list \<Rightarrow> acquirer_entry list \<Rightarrow> world \<Rightarrow> acquirer_entry list \<times> world" where
  "route_calls [] es w = (es, w)"
| "route_calls (c # cs) es w = (case route_call c es w of (es, w) \<Rightarrow> route_calls cs es w)"

lemma route_call_moves:
  assumes "route_call c es w = (es', w')" shows "list_all2 entry_moves es es'"
proof (cases c)
  case (DoCharge q)
  then obtain x where "route_charge q es w = (x, es', w')" using assms by (cases "route_charge q es w") auto
  then show ?thesis by (auto simp: route_charge_loop intro: charge_loop_moves)
next
  case (DoCapture q)
  then obtain x where "route_capture q es w = (x, es', w')" using assms by (cases "route_capture q es w") auto
  then show ?thesis by (auto simp: route_capture_def intro: route_first_moves)
next
  case (DoRefund q)
  then obtain x where "route_refund q es w = (x, es', w')" using assms by (cases "route_refund q es w") auto
  then show ?thesis by (auto simp: route_refund_def intro: route_first_moves)
qed

lemma breaker_moves_trans: "breaker_moves b c \<Longrightarrow> breaker_moves a b \<Longrightarrow> breaker_moves a c"
  by (induction rule: breaker_moves.induct) (auto intro: moves_step)

lemma entry_moves_trans: "entry_moves a b \<Longrightarrow> entry_moves b c \<Longrightarrow> entry_moves a c"
  by (auto simp: entry_moves_def intro: breaker_moves_trans)

lemma route_calls_moves: "list_all2 entry_moves es (fst (route_calls cs es w))"
proof (induction cs arbitrary: es w)
  case Nil
  then show ?case by (simp add: list.rel_refl)
next
  case (Cons c cs)
  obtain es' w' where r: "route_call c es w = (es', w')" by fastforce
  from list_all2_trans [OF entry_moves_trans route_call_moves [OF r] Cons.IH] r show ?case by simp
qed

lemma entry_moves_all:
  "list_all2 entry_moves es es' \<Longrightarrow>
     map (\<lambda>e. (en_adapter e, en_priority e)) es' = map (\<lambda>e. (en_adapter e, en_priority e)) es \<and>
     (list_all (\<lambda>e. breaker_inv (en_breaker e)) es \<longrightarrow> list_all (\<lambda>e. breaker_inv (en_breaker e)) es')"
  by (induction rule: list_all2_induct) (auto simp: entry_moves_def intro: breaker_moves_inv)


text \<open>
  The acquirers of the repository keep their contract through the router: a routed charge
  that succeeds is signed with the name of a registered acquirer, a routed capture or refund that
  succeeds is for the requested amount, and none of them touches the database.
\<close>

theorem routed_answers_honour_the_request:
  assumes "\<forall>r \<in> set rs. rustpay_adapter (fst r)" and "map en_adapter es = map en_adapter (register_all rs)"
  shows "(case route_charge req es w of (x, _, w') \<Rightarrow> wdb w' = wdb w \<and>
      (case x of Inl _ \<Rightarrow> True | Inr r \<Rightarrow> chr_acquirer_id r \<in> (ad_name \<circ> fst) ` set rs)) \<and>
    (case route_capture cap es w of (x, _, w') \<Rightarrow> wdb w' = wdb w \<and>
      (case x of Inl _ \<Rightarrow> True | Inr r \<Rightarrow> car_captured_amount r = caq_amount cap)) \<and>
    (case route_refund ref es w of (x, _, w') \<Rightarrow> wdb w' = wdb w \<and>
      (case x of Inl _ \<Rightarrow> True | Inr r \<Rightarrow> rer_refunded_amount r = req_amount ref))"
proof -
  have ads: "en_adapter ` set es = fst ` set rs"
    using assms(2) register_all_adapters [of rs] by (metis list.set_map)
  then have mem: "\<forall>e \<in> set es. rustpay_adapter (en_adapter e)" using assms(1) by force
  have charge: "wdb w' = wdb w \<and> (case x of Inl _ \<Rightarrow> True | Inr r \<Rightarrow> chr_acquirer_id r \<in> (ad_name \<circ> fst) ` set rs)"
    if "route_charge req es w = (x, es', w')" for x es' w'
  proof -
    have "wdb w' = wdb w \<and> (\<forall>r. x = Inr r \<longrightarrow> (\<exists>e \<in> set es. chr_acquirer_id r = ad_name (en_adapter e)))"
      using that by (intro rustpay.charge_loop_signed [OF _ mem]) (simp add: route_charge_loop)
    moreover have "en_adapter e \<in> fst ` set rs" if "e \<in> set es" for e using ads that by blast
    ultimately show ?thesis by (force split: sum.split)
  qed
  have capture: "wdb w' = wdb w \<and> (case x of Inl _ \<Rightarrow> True | Inr r \<Rightarrow> car_captured_amount r = caq_amount cap)"
    if "route_capture cap es w = (x, es', w')" for x es' w'
    using rustpay.route_capture_amount [OF that mem] by (simp split: sum.split)
  have refund: "wdb w' = wdb w \<and> (case x of Inl _ \<Rightarrow> True | Inr r \<Rightarrow> rer_refunded_amount r = req_amount ref)"
    if "route_refund ref es w = (x, es', w')" for x es' w'
    using rustpay.route_refund_amount [OF that mem] by (simp split: sum.split)
  obtain x1 es1 w1 where r1: "route_charge req es w = (x1, es1, w1)" by (rule prod_cases3)
  obtain x2 es2 w2 where r2: "route_capture cap es w = (x2, es2, w2)" by (rule prod_cases3)
  obtain x3 es3 w3 where r3: "route_refund ref es w = (x3, es3, w3)" by (rule prod_cases3)
  show ?thesis using charge [OF r1] capture [OF r2] refund [OF r3] by (simp only: r1 r2 r3 prod.case)
qed

theorem routed_answers_honour_the_request_witness:
  "case route_refund \<lparr>req_payment_id = 1, req_acquirer_reference = ''r'', req_amount = 50, req_reason = None\<rparr>
     (register_all [(upi_adapter, 1)]) (sample_world (sample_database documented_schema)) of
   (x, _, w') \<Rightarrow> (case x of Inl _ \<Rightarrow> False | Inr r \<Rightarrow> rer_refunded_amount r = 50)"
proof -
  let ?q = "\<lparr>req_payment_id = 1, req_acquirer_reference = ''r'', req_amount = 50, req_reason = None\<rparr>"
  let ?r = "route_refund ?q (register_all [(upi_adapter, 1)]) (sample_world (sample_database documented_schema))"
  have "\<exists>r. fst ?r = Inr r"
    by (simp add: route_refund_def route_eval upi_refund_def sample_world_def)
  then show ?thesis
    using routed_answers_honour_the_request [where rs = "[(upi_adapter, 1)]" and es = "register_all [(upi_adapter, 1)]"
        and req = card_charge and w = "sample_world (sample_database documented_schema)" and ref = ?q
        and cap = "\<lparr>caq_payment_id = 1, caq_acquirer_reference = [], caq_amount = 1\<rparr>"]
    by (cases ?r) (auto simp: rustpay_adapter_def)
qed

text \<open>
  Any answer of Stripe outside 2xx, a server error or a rate limit as much as a declined card,
  ends the routing as a decline: the acquirers after it are not tried and its breaker does not
  hear of it.
\<close>

theorem stripe_http_error_ends_routing:
  assumes "es = \<lparr>en_adapter = stripe_adapter c, en_breaker = cb, en_priority = p\<rparr> # rest" and "\<not> is_open cb"
    and "http_src w = (\<lambda>n q. Response status (Some body))" and "\<not> is_success status"
  shows "(case route_charge req es w of (x, es', w') \<Rightarrow> es' = es \<and>
     x = Inl (AcquirerDeclined (str_or (jget (jget body ''error'') ''code'') ''card_declined'')
                (str_or (jget (jget body ''error'') ''message'') ''Payment declined'')))"
proof -
  have "ad_charge (stripe_adapter c) req (snd (instant_now w)) =
    (Inl (AcquirerDeclined (str_or (jget (jget body ''error'') ''code'') ''card_declined'')
                (str_or (jget (jget body ''error'') ''message'') ''Payment declined'')),
     snd (ad_charge (stripe_adapter c) req (snd (instant_now w))))"
    using assms(3,4) by (simp add: stripe_adapter_def stripe_charge_def call_defs instant_now_def)
  then show ?thesis
    using charge_loop_answer [of "hd es" req w _ _ AllAcquirersFailed "candidates rest"] assms(1,2)
    by (simp add: route_charge_loop)
qed

theorem stripe_http_error_ends_routing_witness:
  "let es = [\<lparr>en_adapter = stripe_adapter (new_stripe ''sk''), en_breaker = new_circuit_breaker, en_priority = 1\<rparr>,
             \<lparr>en_adapter = upi_adapter, en_breaker = new_circuit_breaker, en_priority = 2\<rparr>];
       w = (sample_world (sample_database documented_schema))\<lparr>http_src := \<lambda>n q. Response 503 (Some JNull)\<rparr>
   in case route_charge card_charge es w of (x, es', w') \<Rightarrow>
     es' = es \<and> x = Inl (AcquirerDeclined ''card_declined'' ''Payment declined'')"
  using stripe_http_error_ends_routing [where c = "new_stripe ''sk''" and cb = new_circuit_breaker and p = 1
      and rest = "[\<lparr>en_adapter = upi_adapter, en_breaker = new_circuit_breaker, en_priority = 2\<rparr>]"
      and w = "(sample_world (sample_database documented_schema))\<lparr>http_src := \<lambda>n q. Response 503 (Some JNull)\<rparr>"
      and req = card_charge and status = 503 and body = JNull, OF refl]
  by (simp add: Let_def is_open_def new_circuit_breaker_def is_success_def str_or_def)

text \<open>The UPI adapter answers a charge without an address with a validation error, which the router counts.\<close>

lemma upi_no_vpa:
  assumes "\<not> is_open (en_breaker e)" and "en_adapter e = upi_adapter"
    and "as_str (jget (chq_payment_method req) ''vpa'') = None"
  shows "\<exists>t w'. route_charge req [e] w = (Inl (Validation ''UPI VPA required''),
    [e\<lparr>en_breaker := record_failure t (en_breaker e)\<rparr>], w')"
proof -
  let ?v = "snd (instant_now w)"
  have "ad_charge (en_adapter e) req ?v = (Inl (Validation ''UPI VPA required''), ?v)"
    using assms(2,3) by (simp add: upi_adapter_def upi_charge_def call_defs)
  from charge_loop_failure [OF assms(1) this, of AllAcquirersFailed "[]"] assms(1) show ?thesis
    by (auto simp: route_charge_loop entry_failed_def instant_now_def)
qed

lemma upi_failures:
  assumes "en_adapter e = upi_adapter" and "cb_state (en_breaker e) = Closed" and "breaker_inv (en_breaker e)"
    and "unat (cb_failure_count (en_breaker e)) + length reqs \<le> 5"
    and "\<forall>q \<in> set reqs. as_str (jget (chq_payment_method q) ''vpa'') = None"
  shows "\<exists>ts. length ts = length reqs \<and>
    route_charges reqs [e] w = [e\<lparr>en_breaker := run_events (map Failure ts) (en_breaker e)\<rparr>]"
  using assms
proof (induction reqs arbitrary: e w)
  case Nil
  then show ?case by simp
next
  case (Cons q reqs)
  have "\<not> is_open (en_breaker e)" using Cons.prems(2) by (simp add: is_open_def)
  from upi_no_vpa [OF this Cons.prems(1), of q w] Cons.prems(5) obtain t w' where
    r: "route_charge q [e] w = (Inl (Validation ''UPI VPA required''),
      [e\<lparr>en_breaker := record_failure t (en_breaker e)\<rparr>], w')" by auto
  let ?f = "e\<lparr>en_breaker := record_failure t (en_breaker e)\<rparr>"
  show ?case
  proof (cases reqs)
    case Nil
    then show ?thesis using r by (intro exI [of _ "[t]"]) simp
  next
    case (Cons q' reqs')
    then have "unat (cb_failure_count (en_breaker e)) + length [t] < 5" using Cons.prems(4) by simp
    from run_failures [OF Cons.prems(3,2) this]
    have "cb_state (en_breaker ?f) = Closed"
      "unat (cb_failure_count (en_breaker ?f)) = unat (cb_failure_count (en_breaker e)) + 1" by simp_all
    moreover have "breaker_inv (en_breaker ?f)" using apply_event_inv [OF Cons.prems(3), of "Failure t"] by simp
    ultimately obtain ts where "length ts = length reqs"
      "route_charges reqs [?f] w' = [?f\<lparr>en_breaker := run_events (map Failure ts) (en_breaker ?f)\<rparr>]"
      using Cons.IH [of ?f w'] Cons.prems by auto
    then show ?thesis using r by (intro exI [of _ "t # ts"]) simp
  qed
qed

text \<open>
  Five charges without a UPI address, which the UPI adapter rejects as invalid requests, open
  the breaker of a healthy UPI acquirer; charges with an address are then refused too.
\<close>

theorem invalid_charges_open_upi_breaker:
  assumes "length reqs = 5" and "\<forall>q \<in> set reqs. as_str (jget (chq_payment_method q) ''vpa'') = None"
  shows "let es = route_charges reqs (register_all [(upi_adapter, p)]) w
    in is_open (en_breaker (es ! 0)) \<and> fst (route_charge good es w') = Inl AllAcquirersFailed"
proof -
  let ?e = "new_entry (upi_adapter, p)"
  have reg: "register_all [(upi_adapter, p)] = [?e]" by (simp add: register_all_sorted)
  obtain ts where ts: "length ts = 5"
    "route_charges reqs [?e] w = [?e\<lparr>en_breaker := run_events (map Failure ts) new_circuit_breaker\<rparr>]"
    using upi_failures [of ?e reqs w] assms new_breaker_inv
    by (auto simp: new_entry_def new_circuit_breaker_def)
  from ts(1) obtain us t where "ts = us @ [t]" and "length us = 4" by (cases ts rule: rev_cases) auto
  then have "is_open (run_events (map Failure ts) new_circuit_breaker)"
    using breaker_opens [of us t] by (simp add: is_open_def)
  then show ?thesis using ts(2) by (simp add: reg Let_def route_charge_loop charge_loop_skip)
qed

theorem invalid_charges_open_upi_breaker_witness:
  "is_open (en_breaker (route_charges (replicate 5 card_charge) (register_all [(upi_adapter, 1)])
     (sample_world (sample_database documented_schema)) ! 0))"
  using invalid_charges_open_upi_breaker [of "replicate 5 card_charge" 1 "sample_world (sample_database documented_schema)"]
  by (simp add: Let_def card_charge_def)

section \<open>The payment service against the mock acquirer\<close>

text \<open>
  What the mock acquirer answers is what the payment service reads: a charge gives the mock's
  name and reference, a refund its identifier.
\<close>

theorem mock_acquirer_understood:
  assumes "mock_charge j u = (Inr answer, u')" and "mock_refund j' v = (Inr answer', v')" and "wlib u = wlib w"
    and "wlib v = wlib w"
  shows "fst (charge_via_acquirer cfg p (w\<lparr>http_src := \<lambda>n q. Response (mock_capture j) (Some answer)\<rparr>)) =
      Inr (''mock_acq_1'', uuid_show (wlib w) (uuid_src u (uuid_next u))) \<and>
    fst (acquirer_capture cfg i k (w\<lparr>http_src := \<lambda>n q. Response (mock_capture j) None\<rparr>)) = Inr () \<and>
    fst (acquirer_refund cfg i amount (w\<lparr>http_src := \<lambda>n q. Response (mock_capture j) (Some answer')\<rparr>)) =
      Inr (uuid_show (wlib w) (uuid_src v (uuid_next v)))"
  using assms
  by (auto simp: mock_charge_def mock_refund_def mock_capture_def charge_via_acquirer_def acquirer_capture_def
      acquirer_refund_def call_defs body_or_internal_def str_or_def is_success_def)

theorem mock_acquirer_understood_witness:
  "let w = sample_world (sample_database documented_schema);
       answer = JObj [(''acquirer_id'', JStr ''mock_acq_1''), (''reference'', JStr ''u'')]
   in mock_charge JNull w = (Inr answer, w\<lparr>uuid_next := 1\<rparr>) \<and>
      fst (charge_via_acquirer \<lparr>cfg_acquirer_router_url = ''http://a'', cfg_fraud_service_url = ''http://f'',
             cfg_system_fee_percentage = pct_default\<rparr> (row_to_payment sample_payment_row)
           (w\<lparr>http_src := \<lambda>n q. Response 200 (Some answer)\<rparr>)) = Inr (''mock_acq_1'', ''u'')"
proof -
  let ?w = "sample_world (sample_database documented_schema)"
  have "mock_charge JNull ?w = (Inr (JObj [(''acquirer_id'', JStr ''mock_acq_1''), (''reference'', JStr ''u'')]), ?w\<lparr>uuid_next := 1\<rparr>)"
    "mock_refund JNull ?w = (Inr (JObj [(''refund_id'', JStr ''u'')]), ?w\<lparr>uuid_next := 1\<rparr>)"
    by (simp_all add: mock_charge_def mock_refund_def call_defs sample_world_def plain_lib_def)
  from mock_acquirer_understood [OF this refl refl] this(1) show ?thesis
    by (simp add: Let_def mock_capture_def sample_world_def plain_lib_def)
qed

end
