(* ===== verification/Fraud.thy ===== *)
theory Fraud
  imports Payment_Handlers Evaluation
begin

text \<open>
  \<open>crates/fraud-service/src/rules.rs\<close> and \<open>handlers.rs\<close>: the three rules, the engine that runs
  them until one blocks, and the endpoint the payment service calls before a charge. A rule is a
  record of its name and its evaluation. Payment methods are stored as JSON objects whose token
  is a string, so \<open>payment_method->>'token'\<close> is that string.
\<close>

section \<open>Rules\<close>

record fraud_context =
  fx_payment_id :: uuid
  fx_merchant_id :: uuid
  fx_amount :: i64
  fx_currency :: string
  fx_card_token :: "string option"
  fx_customer_email :: "string option"
  fx_ip_address :: "string option"

record rule_result =
  rr_rule_name :: string
  rr_blocked :: bool
  rr_risk_score :: i32
  rr_reason :: "string option"

record fraud_rule =
  fr_name :: string
  fr_evaluate :: "fraud_context \<Rightarrow> rule_result M"

definition rule_passed :: "string \<Rightarrow> rule_result" where
  "rule_passed name = \<lparr>rr_rule_name = name, rr_blocked = False, rr_risk_score = 0, rr_reason = None\<rparr>"

definition row_token :: "payment_row \<Rightarrow> string option" where
  "row_token r = (case pay_payment_method r of None \<Rightarrow> None | Some v \<Rightarrow> as_str (jget v ''token''))"

definition counts_for_velocity :: "string \<Rightarrow> i64 \<Rightarrow> time \<Rightarrow> payment_row \<Rightarrow> bool" where
  "counts_for_velocity token window_minutes now r \<longleftrightarrow> row_token r = Some token \<and>
     pay_created_at r \<ge> now - window_minutes * time_secs 60 \<and>
     pay_status r \<noteq> Cancelled \<and> pay_status r \<noteq> Failed"

definition velocity_count :: "string \<Rightarrow> i64 \<Rightarrow> time \<Rightarrow> database \<Rightarrow> i64" where
  "velocity_count token window_minutes now d =
     int (length (filter (counts_for_velocity token window_minutes now) (payments d)))"

definition velocity_risk :: "i64 \<Rightarrow> i64 \<Rightarrow> i32" where
  "velocity_risk count max_payments =
     f64_to_i32 (f64_min (f64_mul (f64_div (f64_of_int count) (f64_of_int max_payments)) (FNum 100 0)) (FNum 100 0))"

definition velocity_evaluate :: "i64 \<Rightarrow> i64 \<Rightarrow> fraud_context \<Rightarrow> rule_result M" where
  "velocity_evaluate max_payments window_minutes ctx =
     (case fx_card_token ctx of
        None \<Rightarrow> ok (rule_passed ''velocity_check'')
      | Some token \<Rightarrow>
          and_then (sql (\<lambda>now d. Inr (velocity_count token window_minutes now d, d))) (\<lambda>count.
          ok \<lparr>rr_rule_name = ''velocity_check'', rr_blocked = (count \<ge> max_payments),
              rr_risk_score = velocity_risk count max_payments,
              rr_reason = (if count \<ge> max_payments
                then Some (''Card token used '' @ show_int count @ '' times in '' @ show_int window_minutes @
                           '' minutes (max '' @ show_int max_payments @ '')'')
                else None)\<rparr>))"

definition velocity_rule :: "i64 \<Rightarrow> i64 \<Rightarrow> fraud_rule" where
  "velocity_rule max_payments window_minutes =
     \<lparr>fr_name = ''velocity_check'', fr_evaluate = velocity_evaluate max_payments window_minutes\<rparr>"

definition amount_evaluate :: "i64 \<Rightarrow> fraud_context \<Rightarrow> rule_result M" where
  "amount_evaluate threshold_minor ctx =
     (let blocked = fx_amount ctx > threshold_minor in
      ok \<lparr>rr_rule_name = ''amount_threshold'', rr_blocked = blocked,
          rr_risk_score = (if blocked then 60 else 0),
          rr_reason = (if blocked
            then Some (''Amount '' @ show_int (fx_amount ctx) @ '' exceeds threshold '' @
                       show_int threshold_minor @ '' '' @ fx_currency ctx)
            else None)\<rparr>)"

definition amount_threshold_rule :: "i64 \<Rightarrow> fraud_rule" where
  "amount_threshold_rule threshold_minor =
     \<lparr>fr_name = ''amount_threshold'', fr_evaluate = amount_evaluate threshold_minor\<rparr>"

definition on_blocklist :: "uuid \<Rightarrow> string \<Rightarrow> database \<Rightarrow> bool" where
  "on_blocklist merchant_id token d \<longleftrightarrow> list_ex (\<lambda>fc. fc_merchant_id fc = merchant_id \<and> fc_blocked fc \<and>
     List.member (fc_triggered_rules fc) token) (fraud_checks d)"

definition blocklist_evaluate :: "fraud_context \<Rightarrow> rule_result M" where
  "blocklist_evaluate ctx =
     (case fx_card_token ctx of
        None \<Rightarrow> ok (rule_passed ''blocklist'')
      | Some token \<Rightarrow>
          and_then (sql (select_stmt (\<lambda>d. if on_blocklist (fx_merchant_id ctx) token d then Some True else None))) (\<lambda>blocked.
          ok \<lparr>rr_rule_name = ''blocklist'', rr_blocked = unwrap_or blocked False,
              rr_risk_score = (if blocked \<noteq> None then 100 else 0),
              rr_reason = (if blocked \<noteq> None then Some ''Card token found on blocklist'' else None)\<rparr>))"

definition blocklist_rule :: fraud_rule where
  "blocklist_rule = \<lparr>fr_name = ''blocklist'', fr_evaluate = blocklist_evaluate\<rparr>"

section \<open>Engine\<close>

record evaluation_result =
  ev_payment_id :: uuid
  ev_blocked :: bool
  ev_risk_score :: i32
  ev_decision :: string
  ev_triggered_rules :: "string list"
  ev_reasons :: "string list"

definition default_engine :: "fraud_rule list" where
  "default_engine = [velocity_rule 5 10, amount_threshold_rule 10000000, blocklist_rule]"

record engine_state =
  es_max_risk :: i32
  es_blocked :: bool
  es_triggered :: "string list"
  es_reasons :: "string list"

definition start_state :: engine_state where
  "start_state = \<lparr>es_max_risk = 0, es_blocked = False, es_triggered = [], es_reasons = []\<rparr>"

text \<open>One rule's result folded into the state; a blocking result ends the loop.\<close>

definition take_result :: "rule_result \<Rightarrow> engine_state \<Rightarrow> engine_state" where
  "take_result r s =
     (let s = (if rr_risk_score r > es_max_risk s then s\<lparr>es_max_risk := rr_risk_score r\<rparr> else s) in
      if rr_blocked r then
        s\<lparr>es_blocked := True, es_triggered := es_triggered s @ [rr_rule_name r],
          es_reasons := es_reasons s @ (case rr_reason r of None \<Rightarrow> [] | Some x \<Rightarrow> [x])\<rparr>
      else if rr_risk_score r \<ge> 40 then s\<lparr>es_triggered := es_triggered s @ [rr_rule_name r]\<rparr>
      else s)"

fun run_rules :: "fraud_rule list \<Rightarrow> fraud_context \<Rightarrow> engine_state \<Rightarrow> engine_state M" where
  "run_rules [] ctx s = ok s"
| "run_rules (rule # rules) ctx s =
     and_then (fr_evaluate rule ctx) (\<lambda>result.
     if rr_blocked result then ok (take_result result s)
     else run_rules rules ctx (take_result result s))"

definition decision_of :: "engine_state \<Rightarrow> string" where
  "decision_of s = (if es_blocked s then ''block'' else if es_max_risk s \<ge> 40 then ''review'' else ''allow'')"

definition engine_evaluate :: "fraud_rule list \<Rightarrow> fraud_context \<Rightarrow> evaluation_result M" where
  "engine_evaluate rules ctx =
     and_then (run_rules rules ctx start_state) (\<lambda>s.
     ok \<lparr>ev_payment_id = fx_payment_id ctx, ev_blocked = es_blocked s, ev_risk_score = es_max_risk s,
         ev_decision = decision_of s, ev_triggered_rules = es_triggered s, ev_reasons = es_reasons s\<rparr>)"

section \<open>Endpoint\<close>

record evaluate_risk_request =
  er_payment_id :: uuid
  er_merchant_id :: uuid
  er_amount :: i64
  er_currency :: string
  er_payment_method :: "json option"
  er_customer_email :: "string option"
  er_ip_address :: "string option"

definition validate_risk_request :: "evaluate_risk_request \<Rightarrow> string list" where
  "validate_risk_request r = failing [(''amount'', 1 \<le> er_amount r)]"

definition card_token_of :: "json \<Rightarrow> string option" where
  "card_token_of pm = (if as_str (jget pm ''type'') = Some ''card'' then as_str (jget pm ''token'') else None)"

definition risk_context :: "evaluate_risk_request \<Rightarrow> fraud_context" where
  "risk_context r = \<lparr>fx_payment_id = er_payment_id r, fx_merchant_id = er_merchant_id r,
     fx_amount = er_amount r, fx_currency = er_currency r,
     fx_card_token = (case er_payment_method r of None \<Rightarrow> None | Some pm \<Rightarrow> card_token_of pm),
     fx_customer_email = er_customer_email r, fx_ip_address = er_ip_address r\<rparr>"

definition evaluate_risk :: "fraud_rule list \<Rightarrow> evaluate_risk_request \<Rightarrow> (nat \<times> evaluation_result api_response) M" where
  "evaluate_risk rules req =
     and_then (check_valid (validate_risk_request req)) (\<lambda>_.
     match_result (engine_evaluate rules (risk_context req))
       (\<lambda>e. err (Internal (anyhow_text e)))
       (\<lambda>result. respond 200 result))"

text \<open>The request as the endpoint reads it from JSON, and its answer as JSON.\<close>

definition as_opt :: "(json \<Rightarrow> 'a option) \<Rightarrow> json \<Rightarrow> 'a option option" where
  "as_opt f j = (case j of JNull \<Rightarrow> Some None | _ \<Rightarrow> map_option Some (f j))"

definition read_uuid :: "lib \<Rightarrow> json \<Rightarrow> uuid option" where
  "read_uuid l j = (case as_str j of None \<Rightarrow> None | Some s \<Rightarrow> uuid_parse l s)"

definition risk_request_from_json :: "lib \<Rightarrow> json \<Rightarrow> evaluate_risk_request option" where
  "risk_request_from_json l j =
     (case (read_uuid l (jget j ''payment_id''), read_uuid l (jget j ''merchant_id''), as_i64 (jget j ''amount''),
            as_str (jget j ''currency''), as_opt Some (jget j ''payment_method''),
            as_opt_str (jget j ''customer_email''), as_opt_str (jget j ''ip_address'')) of
       (Some p, Some m, Some a, Some c, Some pm, Some e, Some ip) \<Rightarrow>
         Some \<lparr>er_payment_id = p, er_merchant_id = m, er_amount = a, er_currency = c,
               er_payment_method = pm, er_customer_email = e, er_ip_address = ip\<rparr>
     | _ \<Rightarrow> None)"

definition evaluation_json :: "lib \<Rightarrow> evaluation_result \<Rightarrow> json" where
  "evaluation_json l r = JObj [(''payment_id'', uuid_json l (ev_payment_id r)), (''blocked'', JBool (ev_blocked r)),
     (''risk_score'', JNum (ev_risk_score r)), (''decision'', JStr (ev_decision r)),
     (''triggered_rules'', JArr (map JStr (ev_triggered_rules r))), (''reasons'', JArr (map JStr (ev_reasons r)))]"

section \<open>The contract of a rule\<close>

text \<open>
  Every rule scores between 0 and 100, gives a reason exactly when it blocks, signs its result
  with its name and only reads the database. The engine is proved against this contract.
\<close>

locale fraud_rule_contract =
  fixes rule :: fraud_rule
  assumes result_ok: "fr_evaluate rule ctx w = (Inr r, w') \<Longrightarrow>
      0 \<le> rr_risk_score r \<and> rr_risk_score r \<le> 100 \<and> (rr_blocked r \<longleftrightarrow> rr_reason r \<noteq> None) \<and>
      rr_rule_name r = fr_name rule"
    and reads_only: "tx_now w = None \<Longrightarrow> wdb (snd (fr_evaluate rule ctx w)) = wdb w \<and> tx_now (snd (fr_evaluate rule ctx w)) = None"

text \<open>What holds of the state the engine has reached after some rules.\<close>

definition engine_inv :: "string list \<Rightarrow> engine_state \<Rightarrow> bool" where
  "engine_inv names s \<longleftrightarrow> 0 \<le> es_max_risk s \<and> es_max_risk s \<le> 100 \<and>
     set (es_triggered s) \<subseteq> set names \<and> length (es_reasons s) = (if es_blocked s then 1 else 0) \<and>
     (es_blocked s \<longrightarrow> es_triggered s \<noteq> []) \<and> (\<not> es_blocked s \<longrightarrow> (es_max_risk s \<ge> 40 \<longleftrightarrow> es_triggered s \<noteq> []))"

locale rule_engine =
  fixes rules :: "fraud_rule list"
  assumes contracts: "rule \<in> set rules \<Longrightarrow> fraud_rule_contract rule"
begin

lemma run_rules_inv:
  assumes "set rs \<subseteq> set rules" and "engine_inv (map fr_name rules) s" and "\<not> es_blocked s"
    and "run_rules rs ctx s w = (Inr s', w')"
  shows "engine_inv (map fr_name rules) s'"
  using assms
proof (induction rs arbitrary: s w)
  case Nil
  then show ?case by (simp add: ok_def)
next
  case (Cons rule rs)
  from Cons.prems(4) obtain r v where e: "fr_evaluate rule ctx w = (Inr r, v)"
    by (auto elim: and_then_InrE)
  have "fraud_rule_contract rule" using Cons.prems(1) contracts by simp
  from fraud_rule_contract.result_ok [OF this e] have r:
    "0 \<le> rr_risk_score r" "rr_risk_score r \<le> 100" "rr_blocked r \<longleftrightarrow> rr_reason r \<noteq> None" "rr_rule_name r = fr_name rule"
    by simp_all
  have name: "fr_name rule \<in> set (map fr_name rules)" using Cons.prems(1) by auto
  have inv: "engine_inv (map fr_name rules) (take_result r s)"
    using r name Cons.prems(2,3) by (auto simp: engine_inv_def take_result_def Let_def)
  show ?case
  proof (cases "rr_blocked r")
    case True
    then show ?thesis using Cons.prems(4) e inv by (simp add: and_then_def ok_def)
  next
    case False
    then have "\<not> es_blocked (take_result r s)" using Cons.prems(3) by (simp add: take_result_def Let_def)
    then show ?thesis using Cons e inv False by (simp add: and_then_def)
  qed
qed

lemma run_rules_reads_only:
  assumes "set rs \<subseteq> set rules" and "tx_now w = None"
  shows "wdb (snd (run_rules rs ctx s w)) = wdb w \<and> tx_now (snd (run_rules rs ctx s w)) = None"
  using assms
proof (induction rs arbitrary: s w)
  case Nil
  then show ?case by (simp add: ok_def)
next
  case (Cons rule rs)
  obtain x v where e: "fr_evaluate rule ctx w = (x, v)" by fastforce
  then have "wdb v = wdb w \<and> tx_now v = None"
    using fraud_rule_contract.reads_only [OF contracts, of rule w ctx] Cons.prems by simp
  then show ?case using Cons e by (cases x) (simp_all add: and_then_def ok_def)
qed

lemma engine_result:
  assumes "engine_evaluate rules ctx w = (Inr r, w')"
  shows "0 \<le> ev_risk_score r \<and> ev_risk_score r \<le> 100 \<and> set (ev_triggered_rules r) \<subseteq> fr_name ` set rules \<and>
    (ev_decision r = ''block'' \<longleftrightarrow> ev_blocked r) \<and> (ev_decision r = ''allow'' \<longleftrightarrow> ev_triggered_rules r = []) \<and>
    length (ev_reasons r) = (if ev_blocked r then 1 else 0) \<and> ev_payment_id r = fx_payment_id ctx"
proof -
  from assms obtain s v where "run_rules rules ctx start_state w = (Inr s, v)"
    and r: "r = \<lparr>ev_payment_id = fx_payment_id ctx, ev_blocked = es_blocked s, ev_risk_score = es_max_risk s,
         ev_decision = decision_of s, ev_triggered_rules = es_triggered s, ev_reasons = es_reasons s\<rparr>"
    unfolding engine_evaluate_def by (auto elim: and_then_InrE)
  then have "engine_inv (map fr_name rules) s"
    using run_rules_inv [of rules start_state ctx w s v] by (simp add: engine_inv_def start_state_def)
  then show ?thesis by (auto simp: r engine_inv_def decision_of_def)
qed

lemma engine_reads_only:
  "tx_now w = None \<Longrightarrow> wdb (snd (engine_evaluate rules ctx w)) = wdb w"
  using run_rules_reads_only [of rules w ctx start_state]
  by (auto simp: engine_evaluate_def and_then_def ok_def split: prod.splits sum.splits)

end

lemma sql_read:
  "sql (\<lambda>t d. Inr (f t d, d)) w = (x, v) \<Longrightarrow>
     (\<forall>a. x = Inr a \<longrightarrow> (\<exists>t. a = f t (wdb w))) \<and> (tx_now w = None \<longrightarrow> wdb v = wdb w \<and> tx_now v = None)"
  by (auto simp: sql_def run_stmt_def tick_stmt_def and_then_def utc_now_def split: option.splits if_splits)

lemma sql_read_then:
  "\<lbrakk>and_then (sql (\<lambda>t d. Inr (f t d, d))) (\<lambda>a. ok (g a)) w = (x, v); tx_now w = None\<rbrakk> \<Longrightarrow>
     wdb v = wdb w \<and> tx_now v = None"
  by (auto simp: and_then_def dest: sql_read split: prod.splits sum.splits)

text \<open>Risk scores are quotients capped at 100.\<close>

lemma velocity_risk_le: "velocity_risk n m \<le> 100"
  by (simp add: velocity_risk_def f64_min_cast_le)

lemma velocity_risk_nonneg: "0 \<le> n \<Longrightarrow> 0 \<le> velocity_risk n 5"
  unfolding velocity_risk_def
  using f64_mul_ge [of 0 "f64_div (f64_of_int n) (f64_of_int 5)" 100] f64_div_nonneg [of "f64_of_int n" 5]
    f64_of_int_ge [of 0 n] f64_min_cast_ge [of 0] f64_of_int_exact [of 5]
  by simp

lemma velocity_risk_full: "\<lbrakk>5 \<le> n; n < 2 ^ 53\<rbrakk> \<Longrightarrow> velocity_risk n 5 = 100"
  using f64_mul_ge [of 1 "f64_div (FNum n 0) (FNum 5 0)" 100] f64_div_ge [of n 5 1] f64_min_cast_ge [of 100]
    f64_of_int_exact [of n] f64_of_int_exact [of 5] velocity_risk_le [of n 5]
  by (intro antisym) (simp_all add: velocity_risk_def)

lemma velocity_risk_small: "n \<in> {0, 1, 2, 3, 4} \<Longrightarrow> velocity_risk n 5 = 20 * n"
  by (elim insertE) (simp_all add: velocity_risk_def f64_of_int_def f64_round_def f64_shift_def Let_def
    bitlen_rec round_shift_def f64_min_def f64_to_i32_def clamp_def f64_trunc_def)

lemma velocity_risk_table:
  assumes "0 \<le> count" and "count < 2 ^ 53"
  shows "velocity_risk count 5 = min 100 (20 * count)"
proof (cases "count < 5")
  case True
  then have "count \<in> {0, 1, 2, 3, 4}" using assms by auto
  then show ?thesis using velocity_risk_small [of count] by auto
next
  case False
  then show ?thesis using velocity_risk_full [of count] assms by simp
qed

text \<open>The three rules of the default engine keep the contract.\<close>

lemma velocity_result:
  assumes "velocity_evaluate m n ctx w = (Inr r, w')"
  shows "\<exists>count t. 0 \<le> count \<and> rr_risk_score r = (if fx_card_token ctx = None then 0 else velocity_risk count m) \<and>
    rr_blocked r = (fx_card_token ctx \<noteq> None \<and> m \<le> count) \<and> (rr_blocked r \<longleftrightarrow> rr_reason r \<noteq> None) \<and>
    rr_rule_name r = ''velocity_check'' \<and>
    (case fx_card_token ctx of None \<Rightarrow> True | Some token \<Rightarrow> count = velocity_count token n t (wdb w))"
proof (cases "fx_card_token ctx")
  case None
  then show ?thesis using assms by (auto simp: velocity_evaluate_def rule_passed_def)
next
  case (Some token)
  with assms obtain count v where "sql (\<lambda>now d. Inr (velocity_count token n now d, d)) w = (Inr count, v)"
    and r: "r = \<lparr>rr_rule_name = ''velocity_check'', rr_blocked = (count \<ge> m), rr_risk_score = velocity_risk count m,
       rr_reason = (if count \<ge> m then Some (''Card token used '' @ show_int count @ '' times in '' @ show_int n @
         '' minutes (max '' @ show_int m @ '')'') else None)\<rparr>"
    by (auto simp: velocity_evaluate_def elim!: and_then_InrE)
  from sql_read [OF this(1)] obtain t where t: "count = velocity_count token n t (wdb w)" by auto
  then have "0 \<le> count" by (simp add: velocity_count_def)
  then show ?thesis using Some r t by (intro exI [of _ count] exI [of _ t]) simp
qed

lemma blocklist_result:
  assumes "blocklist_evaluate ctx w = (Inr r, w')"
  shows "rr_blocked r = (case fx_card_token ctx of None \<Rightarrow> False
      | Some token \<Rightarrow> on_blocklist (fx_merchant_id ctx) token (wdb w)) \<and>
    rr_risk_score r = (if rr_blocked r then 100 else 0) \<and> (rr_blocked r \<longleftrightarrow> rr_reason r \<noteq> None) \<and>
    rr_rule_name r = ''blocklist''"
proof (cases "fx_card_token ctx")
  case None
  then show ?thesis using assms by (auto simp: blocklist_evaluate_def rule_passed_def)
next
  case (Some token)
  with assms obtain b v where
    "sql (select_stmt (\<lambda>d. if on_blocklist (fx_merchant_id ctx) token d then Some True else None)) w = (Inr b, v)"
    and r: "r = \<lparr>rr_rule_name = ''blocklist'', rr_blocked = unwrap_or b False,
      rr_risk_score = (if b \<noteq> None then 100 else 0),
      rr_reason = (if b \<noteq> None then Some ''Card token found on blocklist'' else None)\<rparr>"
    by (auto simp: blocklist_evaluate_def elim!: and_then_InrE)
  from sql_read [OF this(1) [unfolded select_stmt_def]] have
    "b = (if on_blocklist (fx_merchant_id ctx) token (wdb w) then Some True else None)" by simp
  then show ?thesis using Some r by (cases "on_blocklist (fx_merchant_id ctx) token (wdb w)") simp_all
qed

interpretation velocity: fraud_rule_contract "velocity_rule 5 10"
proof
  fix ctx w r w' assume "fr_evaluate (velocity_rule 5 10) ctx w = (Inr r, w')"
  then show "0 \<le> rr_risk_score r \<and> rr_risk_score r \<le> 100 \<and> (rr_blocked r \<longleftrightarrow> rr_reason r \<noteq> None) \<and>
      rr_rule_name r = fr_name (velocity_rule 5 10)"
    using velocity_result [of 5 10 ctx w r w'] velocity_risk_nonneg velocity_risk_le
    by (auto simp: velocity_rule_def)
next
  fix ctx and w :: world assume "tx_now w = None"
  then show "wdb (snd (fr_evaluate (velocity_rule 5 10) ctx w)) = wdb w \<and>
      tx_now (snd (fr_evaluate (velocity_rule 5 10) ctx w)) = None"
    by (cases "fx_card_token ctx")
      (auto simp: velocity_rule_def velocity_evaluate_def ok_def [of "rule_passed _"]
        dest: sql_read_then [OF prod.collapse [symmetric]])
qed

interpretation amount_threshold: fraud_rule_contract "amount_threshold_rule threshold" for threshold
  by unfold_locales (auto simp: amount_threshold_rule_def amount_evaluate_def Let_def ok_def)

interpretation blocklist: fraud_rule_contract blocklist_rule
proof
  fix ctx w r w' assume "fr_evaluate blocklist_rule ctx w = (Inr r, w')"
  then show "0 \<le> rr_risk_score r \<and> rr_risk_score r \<le> 100 \<and> (rr_blocked r \<longleftrightarrow> rr_reason r \<noteq> None) \<and>
      rr_rule_name r = fr_name blocklist_rule"
    using blocklist_result by (fastforce simp: blocklist_rule_def)
next
  fix ctx and w :: world assume "tx_now w = None"
  then show "wdb (snd (fr_evaluate blocklist_rule ctx w)) = wdb w \<and> tx_now (snd (fr_evaluate blocklist_rule ctx w)) = None"
    by (cases "fx_card_token ctx")
      (auto simp: blocklist_rule_def blocklist_evaluate_def select_stmt_def ok_def [of "rule_passed _"]
        dest: sql_read_then [OF prod.collapse [symmetric]])
qed

interpretation default: rule_engine default_engine
  by (rule rule_engine.intro)
    (auto simp: default_engine_def velocity.fraud_rule_contract_axioms amount_threshold.fraud_rule_contract_axioms
      blocklist.fraud_rule_contract_axioms)

section \<open>Properties\<close>

definition large_upi_payment :: fraud_context where
  "large_upi_payment = \<lparr>fx_payment_id = 9, fx_merchant_id = 7, fx_amount = 20000000, fx_currency = ''INR'',
     fx_card_token = None, fx_customer_email = None, fx_ip_address = None\<rparr>"

definition blocked_large :: evaluation_result where
  "blocked_large = \<lparr>ev_payment_id = 9, ev_blocked = True, ev_risk_score = 60, ev_decision = ''block'',
     ev_triggered_rules = [''amount_threshold''],
     ev_reasons = [''Amount '' @ show_int 20000000 @ '' exceeds threshold '' @ show_int 10000000 @ '' INR'']\<rparr>"

lemma large_upi_payment_blocked:
  "engine_evaluate default_engine large_upi_payment w = (Inr blocked_large, w)"
  by (simp add: engine_evaluate_def default_engine_def velocity_rule_def velocity_evaluate_def
    amount_threshold_rule_def amount_evaluate_def and_then_def ok_def large_upi_payment_def blocked_large_def
    rule_passed_def take_result_def start_state_def decision_of_def Let_def)



text \<open>
  The floating-point velocity score of the default engine is 20 points for each use of the
  card in the window, capped at 100.
\<close>

theorem velocity_risk_is_20_per_use:
  assumes "0 \<le> count" and "count < 2 ^ 53"
  shows "velocity_risk count 5 = min 100 (20 * count)"
  using assms by (rule velocity_risk_table)

theorem velocity_risk_is_20_per_use_witness:
  "velocity_risk 3 5 = 60 \<and> velocity_risk 7 5 = 100"
  using velocity_risk_is_20_per_use [of 3] velocity_risk_is_20_per_use [of 7] by simp

definition recent_uses :: "fraud_context \<Rightarrow> time \<Rightarrow> database \<Rightarrow> int" where
  "recent_uses ctx t d = (case fx_card_token ctx of None \<Rightarrow> 0 | Some token \<Rightarrow> velocity_count token 10 t d)"

definition blocklisted :: "fraud_context \<Rightarrow> database \<Rightarrow> bool" where
  "blocklisted ctx d = (case fx_card_token ctx of None \<Rightarrow> False
     | Some token \<Rightarrow> on_blocklist (fx_merchant_id ctx) token d)"

lemma recent_uses_bounds: "0 \<le> recent_uses ctx t d \<and> recent_uses ctx t d \<le> int (length (payments d))"
  using length_filter_le by (auto simp: recent_uses_def velocity_count_def split: option.split)

lemma velocity_default:
  assumes "velocity_evaluate 5 10 ctx w = (Inr r, w')" and "length (payments (wdb w)) < 2 ^ 53"
  shows "\<exists>t. rr_blocked r = (5 \<le> recent_uses ctx t (wdb w)) \<and> rr_risk_score r = min 100 (20 * recent_uses ctx t (wdb w))"
proof -
  from velocity_result [OF assms(1)] obtain count t where
    c: "0 \<le> count" "rr_risk_score r = (if fx_card_token ctx = None then 0 else velocity_risk count 5)"
    "rr_blocked r = (fx_card_token ctx \<noteq> None \<and> 5 \<le> count)"
    "case fx_card_token ctx of None \<Rightarrow> True | Some token \<Rightarrow> count = velocity_count token 10 t (wdb w)"
    by auto
  have "velocity_risk n 5 = min 100 (20 * n)" if "0 \<le> n" "n < 2 ^ 53" for n
    using that by (rule velocity_risk_table)
  moreover have "recent_uses ctx t (wdb w) < 2 ^ 53" using recent_uses_bounds [of ctx t "wdb w"] assms(2) by simp
  ultimately show ?thesis using c recent_uses_bounds [of ctx t "wdb w"]
    by (intro exI [of _ t]) (auto simp: recent_uses_def split: option.splits)
qed



section \<open>With the payment service\<close>

lemma jget_simps [simp]: "jget (JObj ((k, v) # kvs)) q = (if k = q then v else jget (JObj kvs) q)" "jget (JObj []) q = JNull"
  by simp_all

text \<open>
  What the payment service posts for a risk evaluation is a request the fraud service reads
  back: the payment's identifiers, amount and currency, and the token of its card, if it was paid
  with one.
\<close>

theorem fraud_request_is_understood:
  assumes "\<forall>u. uuid_parse l (uuid_show l u) = Some u" and "i64_range (pay_amount p)"
  shows "\<exists>req. risk_request_from_json l (fraud_request p l) = Some req \<and>
    risk_context req = \<lparr>fx_payment_id = pay_id p, fx_merchant_id = pay_merchant_id p, fx_amount = pay_amount p,
      fx_currency = currency_str (pay_currency p),
      fx_card_token = (case pay_payment_method p of Some (Card c) \<Rightarrow> Some (cd_token c) | _ \<Rightarrow> None),
      fx_customer_email = None, fx_ip_address = None\<rparr>"
proof -
  have "\<exists>pm. as_opt Some (jopt pm_to_json (pay_payment_method p)) = Some pm \<and>
    (case pm of None \<Rightarrow> None | Some v \<Rightarrow> card_token_of v) =
      (case pay_payment_method p of Some (Card c) \<Rightarrow> Some (cd_token c) | _ \<Rightarrow> None)"
  proof (cases "pay_payment_method p")
    case None
    then show ?thesis by (simp add: as_opt_def)
  next
    case (Some m)
    then show ?thesis by (cases m) (simp_all add: as_opt_def card_token_of_def)
  qed
  then show ?thesis using assms
    by (auto simp: fraud_request_def risk_request_from_json_def uuid_json_def read_uuid_def as_opt_str_def
        risk_context_def)
qed

theorem fraud_request_is_understood_witness:
  "\<exists>req. risk_request_from_json sample_lib (fraud_request (row_to_payment sample_payment_row) sample_lib) = Some req \<and>
     fx_amount (risk_context req) = 1000 \<and> fx_currency (risk_context req) = ''INR''"
  using fraud_request_is_understood [of sample_lib "row_to_payment sample_payment_row"]
  by (auto simp: sample_uuid_roundtrip row_to_payment_def sample_payment_row_def i64_range_def)

text \<open>
  C21. The payment service reads ''blocked'' at the top of the answer, the fraud service puts it
  under ''data'': whatever the verdict, a payment the fraud service blocks is charged all the same.
\<close>

theorem fraud_verdict_is_ignored:
  assumes "evaluate_risk rules req u = (Inr (status, answer), u')"
    and "http_src w = (\<lambda>n q. Response status (Some (api_response_json (evaluation_json l) answer)))"
  shows "fst (run_fraud_check cfg p w) = Inr ()"
  using assms(2)
  by (simp add: run_fraud_check_def post_def and_then_def read_lib_def http_send_def ok_def
    body_or_null_def api_response_json_def Let_def)

theorem fraud_verdict_is_ignored_witness:
  "\<exists>answer. ev_blocked (the (ar_data answer)) \<and>
     fst (run_fraud_check \<lparr>cfg_acquirer_router_url = ''http://a'', cfg_fraud_service_url = ''http://f'',
       cfg_system_fee_percentage = pct_default\<rparr> (row_to_payment sample_payment_row)
       ((sample_world (sample_database documented_schema))
         \<lparr>http_src := \<lambda>n q. Response 200 (Some (api_response_json (evaluation_json plain_lib) answer))\<rparr>)) = Inr ()"
proof -
  let ?w = "sample_world (sample_database documented_schema)"
  let ?req = "\<lparr>er_payment_id = 9, er_merchant_id = 7, er_amount = 20000000, er_currency = ''INR'',
    er_payment_method = None, er_customer_email = None, er_ip_address = None\<rparr>"
  have "risk_context ?req = large_upi_payment" by (simp add: risk_context_def large_upi_payment_def)
  then obtain w' where "evaluate_risk default_engine ?req ?w = (Inr (200, api_ok blocked_large ''req_u''), w')"
    by (simp add: evaluate_risk_def validate_risk_request_def failing_def check_valid_def match_result_def
      large_upi_payment_blocked respond_def new_request_id_def and_then_def new_v4_def read_lib_def ok_def
      sample_world_def plain_lib_def)
  from fraud_verdict_is_ignored [OF this, of "?w\<lparr>http_src := \<lambda>n q. Response 200
      (Some (api_response_json (evaluation_json plain_lib) (api_ok blocked_large ''req_u'')))\<rparr>" plain_lib]
  show ?thesis by (intro exI [of _ "api_ok blocked_large ''req_u''"]) (simp add: api_ok_def blocked_large_def)
qed

end
