(* ===== verification/Lease_Queue.thy ===== *)
theory Lease_Queue
  imports World "HOL-Library.Multiset"
begin

text \<open>
  A table used as a queue by several workers: a claim leases the oldest eligible rows and returns
  them, and a leased row is hidden from later claims until its lease is released. The outbox
  worker and the webhook scheduler use one such table each
  (\<open>FOR UPDATE SKIP LOCKED\<close> with a lease column); the locale states what both rely on.
\<close>

section \<open>The oldest eligible rows\<close>

text \<open>\<open>SELECT \<dots> WHERE P ORDER BY age ASC LIMIT n\<close>.\<close>

definition oldest :: "nat \<Rightarrow> ('r \<Rightarrow> int) \<Rightarrow> ('r \<Rightarrow> bool) \<Rightarrow> 'r list \<Rightarrow> 'r list" where
  "oldest n age P rs = take n (sort_key age (filter P rs))"

lemma oldest_subset: "set (oldest n age P rs) \<subseteq> {r \<in> set rs. P r}"
  using set_take_subset [of n "sort_key age (filter P rs)"] by (auto simp: oldest_def)

lemma length_oldest [simp]: "length (oldest n age P rs) = min n (length (filter P rs))"
  by (simp add: oldest_def min.commute)

lemma oldest_all: "length (filter P rs) \<le> n \<Longrightarrow> set (oldest n age P rs) = {r \<in> set rs. P r}"
  by (simp add: oldest_def)

lemma oldest_distinct: "distinct (map key rs) \<Longrightarrow> distinct (map key (oldest n age P rs))"
proof -
  assume d: "distinct (map key rs)"
  then have "distinct (filter P rs)" and "inj_on key (set rs)" by (simp_all add: distinct_map)
  then have "distinct (oldest n age P rs)" and "inj_on key (set (oldest n age P rs))"
    using oldest_subset [of n age P rs] by (auto simp: oldest_def intro: inj_on_subset)
  then show ?thesis by (simp add: distinct_map)
qed

text \<open>What is left out is no older than what is taken.\<close>

lemma oldest_age:
  assumes "r \<in> set (oldest n age P rs)" and "q \<in> set rs" and "P q" and "q \<notin> set (oldest n age P rs)"
  shows "age r \<le> age q"
proof -
  let ?s = "sort_key age (filter P rs)"
  have "q \<in> set ?s" using assms(2,3) by simp
  then have q: "q \<in> set (drop n ?s)" using assms(4) unfolding oldest_def
    by (metis Un_iff append_take_drop_id set_append)
  have "sorted (map age (take n ?s @ drop n ?s))" by simp
  then have "\<forall>x \<in> set (map age (take n ?s)). \<forall>y \<in> set (map age (drop n ?s)). x \<le> y"
    unfolding map_append sorted_append by blast
  then show ?thesis using assms(1) q by (simp add: oldest_def)
qed

section \<open>Claims\<close>

text \<open>The update that leases the chosen rows, and the rows it returns.\<close>

definition lease_rows :: "('r \<Rightarrow> 'k) \<Rightarrow> ('r \<Rightarrow> 'r) \<Rightarrow> 'r list \<Rightarrow> 'r list \<Rightarrow> 'r list" where
  "lease_rows key lease chosen rs = upd_where (\<lambda>r. key r \<in> set (map key chosen)) lease rs"

definition leased_rows :: "('r \<Rightarrow> 'k) \<Rightarrow> ('r \<Rightarrow> 'r) \<Rightarrow> 'r list \<Rightarrow> 'r list \<Rightarrow> 'r list" where
  "leased_rows key lease chosen rs = map lease (filter (\<lambda>r. key r \<in> set (map key chosen)) rs)"

locale lease_queue =
  fixes rows :: "'d \<Rightarrow> 'r list"
    and key :: "'r \<Rightarrow> 'k"
    and eligible :: "'d \<Rightarrow> time \<Rightarrow> 'r \<Rightarrow> bool"
    and lease :: "time \<Rightarrow> 'r \<Rightarrow> 'r"
    and claim :: "time \<Rightarrow> 'd \<Rightarrow> 'r list \<times> 'd"
  assumes claim_returns: "claim t d = (rs, d') \<Longrightarrow>
      set rs \<subseteq> lease t ` {r \<in> set (rows d). key r \<in> key ` {q \<in> set (rows d). eligible d t q}}"
    and claim_leases: "claim t d = (rs, d') \<Longrightarrow>
      rows d' = upd_where (\<lambda>r. key r \<in> key ` set rs) (lease t) (rows d)"
    and lease_key: "key (lease t r) = key r"
    and lease_hides: "\<not> eligible d t' (lease t r)"
begin

lemma claimed_eligible:
  assumes "claim t d = (rs, d')" and "x \<in> set rs" and "distinct (map key (rows d))"
  shows "\<exists>r \<in> set (rows d). eligible d t r \<and> x = lease t r"
proof -
  from claim_returns [OF assms(1)] assms(2) obtain r q where
    "x = lease t r" "r \<in> set (rows d)" "q \<in> set (rows d)" "eligible d t q" "key r = key q" by auto
  moreover have "r = q" using assms(3) calculation by (auto simp: distinct_map inj_on_def)
  ultimately show ?thesis by blast
qed

text \<open>Two claims in a row, by whichever workers, share no row.\<close>

lemma claims_disjoint:
  assumes "claim t d = (rs, d')" and "claim t' d' = (rs', d'')" and "distinct (map key (rows d))"
  shows "key ` set rs \<inter> key ` set rs' = {}"
proof (rule ccontr)
  assume "key ` set rs \<inter> key ` set rs' \<noteq> {}"
  then obtain x y where x: "x \<in> set rs" and y: "y \<in> set rs'" and xy: "key x = key y" by auto
  have keys: "map key (rows d') = map key (rows d)"
    by (simp add: claim_leases [OF assms(1)] map_upd_where_id lease_key)
  have "distinct (map key (rows d'))" using keys assms(3) by simp
  from claimed_eligible [OF assms(2) y this] obtain q where
    q: "q \<in> set (rows d')" "eligible d' t' q" "y = lease t' q" by blast
  have "key q = key x" unfolding xy q(3) lease_key ..
  then have kq: "key q \<in> key ` set rs" using x by (rule image_eqI)
  have "\<exists>p \<in> set (rows d). q = (if key p \<in> key ` set rs then lease t p else p)"
    using q(1) unfolding claim_leases [OF assms(1)] in_upd_where .
  then obtain p where p: "p \<in> set (rows d)" "q = (if key p \<in> key ` set rs then lease t p else p)" by (rule bexE)
  have "key q = key p" unfolding p(2) by (simp add: lease_key)
  with kq have "key p \<in> key ` set rs" by (rule back_subst)
  from trans [OF p(2) if_P [OF this]] q(2) have "eligible d' t' (lease t p)" by (rule subst)
  then show False using lease_hides by contradiction
qed

text \<open>Everything claimed is leased, nothing else is touched.\<close>

lemma unclaimed_untouched:
  "\<lbrakk>claim t d = (rs, d'); r \<in> set (rows d); key r \<notin> key ` set rs\<rbrakk> \<Longrightarrow> r \<in> set (rows d')"
  using claim_leases [of t d rs d'] by (force simp: in_upd_where)

end

text \<open>The laws hold of a claim of the oldest rows.\<close>

lemma claim_oldest_returns:
  "set (leased_rows key lease (oldest n age P rs) rs) \<subseteq> lease ` {r \<in> set rs. key r \<in> key ` {q \<in> set rs. P q}}"
  using oldest_subset [of n age P rs] by (auto simp: leased_rows_def)

lemma claim_oldest_leases:
  assumes "\<And>r. key (lease r) = key r"
  shows "lease_rows key lease (oldest n age P rs) rs =
    upd_where (\<lambda>r. key r \<in> key ` set (leased_rows key lease (oldest n age P rs) rs)) lease rs"
proof -
  have "set (oldest n age P rs) \<subseteq> set rs" using oldest_subset [of n age P rs] by blast
  then have "key ` set (leased_rows key lease (oldest n age P rs) rs) = key ` set (oldest n age P rs)"
    using assms by (auto simp: leased_rows_def image_image)
  then show ?thesis by (simp add: lease_rows_def)
qed

end
