(* ===== verification/Outbox_Worker.thy ===== *)
theory Outbox_Worker
  imports Lease_Queue Evaluation
begin

text \<open>
  \<open>crates/outbox-worker/src/worker.rs\<close>: the worker that moves the rows of the transactional
  outbox to Kafka. The broker is a parameter: what it answers to the n-th record sent, with the
  log of the records and of what became of them. Records are sent concurrently
  (\<open>buffer_unordered\<close>): \<open>sched\<close> is the order in which they complete.
\<close>

section \<open>The broker\<close>

record kafka_record =
  kr_topic :: string
  kr_key :: string
  kr_payload :: string

record kafka =
  k_answer :: "nat \<Rightarrow> kafka_record \<Rightarrow> string option"
  k_log :: "(kafka_record \<times> bool) list"

definition kafka_send :: "kafka_record \<Rightarrow> kafka \<Rightarrow> string option \<times> kafka" where
  "kafka_send r k = (let e = k_answer k (length (k_log k)) r in (e, k\<lparr>k_log := k_log k @ [(r, e = None)]\<rparr>))"

section \<open>Statements\<close>

definition MAX_FAILED_ATTEMPTS :: i32 where "MAX_FAILED_ATTEMPTS = 10"

definition lease_period :: time where "lease_period = time_secs 300"

definition stale_lock :: "time \<Rightarrow> outbox_event \<Rightarrow> bool" where
  "stale_lock now e \<longleftrightarrow> \<not> ob_published e \<and>
     (case ob_locked_at e of None \<Rightarrow> False | Some t \<Rightarrow> t < now - lease_period)"

definition reclaim_events :: "unit stmt" where
  "reclaim_events = update_stmt (\<lambda>now d. d\<lparr>outbox_events :=
     upd_where (stale_lock now) (\<lambda>e. e\<lparr>ob_locked_at := None\<rparr>) (outbox_events d)\<rparr>)"

definition publishable :: "outbox_event \<Rightarrow> bool" where
  "publishable e \<longleftrightarrow> \<not> ob_published e \<and> ob_locked_at e = None \<and> ob_failed_attempts e < MAX_FAILED_ATTEMPTS"

definition lock_event :: "time \<Rightarrow> outbox_event \<Rightarrow> outbox_event" where
  "lock_event now e = e\<lparr>ob_locked_at := Some now\<rparr>"

definition claim_events :: "nat \<Rightarrow> time \<Rightarrow> database \<Rightarrow> outbox_event list \<times> database" where
  "claim_events batch now d =
     (let chosen = oldest batch ob_created_at publishable (outbox_events d) in
      (leased_rows ob_id (lock_event now) chosen (outbox_events d),
       d\<lparr>outbox_events := lease_rows ob_id (lock_event now) chosen (outbox_events d)\<rparr>))"

definition claim_batch :: "i64 \<Rightarrow> outbox_event list stmt" where
  "claim_batch batch = (\<lambda>now d. if batch < 0 then Inl OutOfRange else Inr (claim_events (nat batch) now d))"

definition published_row :: "time \<Rightarrow> outbox_event \<Rightarrow> outbox_event" where
  "published_row now e = e\<lparr>ob_published := True, ob_published_at := Some now, ob_locked_at := None\<rparr>"

definition mark_published :: "uuid list \<Rightarrow> unit M" where
  "mark_published ids = sql (update_stmt (\<lambda>now d. d\<lparr>outbox_events :=
     upd_where (\<lambda>e. ob_id e \<in> set ids) (published_row now) (outbox_events d)\<rparr>))"

definition failed_row :: "string \<Rightarrow> outbox_event \<Rightarrow> outbox_event" where
  "failed_row error e = e\<lparr>ob_failed_attempts := ob_failed_attempts e + 1, ob_last_error := Some error,
     ob_locked_at := None\<rparr>"

text \<open>\<open>failed_attempts + 1\<close> is INTEGER arithmetic: out of range is an error of the statement.\<close>

definition mark_failed :: "uuid \<Rightarrow> string \<Rightarrow> unit M" where
  "mark_failed i error = sql (\<lambda>now d.
     if list_ex (\<lambda>e. ob_id e = i \<and> ob_failed_attempts e = 2147483647) (outbox_events d) then Inl OutOfRange
     else Inr ((), d\<lparr>outbox_events := upd_where (\<lambda>e. ob_id e = i) (failed_row error) (outbox_events d)\<rparr>))"

section \<open>One round\<close>

definition kafka_record_of :: "lib \<Rightarrow> outbox_event \<Rightarrow> kafka_record" where
  "kafka_record_of l e = \<lparr>kr_topic = ob_topic e, kr_key = uuid_show l (ob_aggregate_id e),
     kr_payload = json_print l (ob_payload e)\<rparr>"

text \<open>The events sent, those that arrived apart from those that failed.\<close>

fun publish_all :: "lib \<Rightarrow> outbox_event list \<Rightarrow> kafka \<Rightarrow> uuid list \<times> (uuid \<times> string) list \<times> kafka" where
  "publish_all l [] k = ([], [], k)"
| "publish_all l (e # es) k =
     (case kafka_send (kafka_record_of l e) k of (res, k) \<Rightarrow>
      case publish_all l es k of (published_ids, failed, k) \<Rightarrow>
        (case res of
           None \<Rightarrow> (ob_id e # published_ids, failed, k)
         | Some error \<Rightarrow> (published_ids, (ob_id e, error) # failed, k)))"

fun mark_all_failed :: "(uuid \<times> string) list \<Rightarrow> unit M" where
  "mark_all_failed [] = ok ()"
| "mark_all_failed ((i, error) # failed) = and_then (mark_failed i error) (\<lambda>_. mark_all_failed failed)"

definition record_outcomes :: "uuid list \<Rightarrow> (uuid \<times> string) list \<Rightarrow> unit M" where
  "record_outcomes published_ids failed = transaction
     (and_then (if published_ids \<noteq> [] then mark_published published_ids else ok ()) (\<lambda>_. mark_all_failed failed))"

definition claim_round :: "i64 \<Rightarrow> outbox_event list M" where
  "claim_round batch_size = and_then (sql reclaim_events) (\<lambda>_. sql (claim_batch batch_size))"

text \<open>The clock is read for the lag gauge.\<close>

definition outbox_run_once ::
  "(outbox_event list \<Rightarrow> outbox_event list) \<Rightarrow> i64 \<Rightarrow> kafka \<Rightarrow> world \<Rightarrow> (app_error + nat) \<times> kafka \<times> world" where
  "outbox_run_once sched batch_size k w =
     (case claim_round batch_size w of
        (Inl e, w) \<Rightarrow> (Inl e, k, w)
      | (Inr events, w) \<Rightarrow>
          if events = [] then (Inr 0, k, w)
          else (case utc_now w of (_, w) \<Rightarrow>
            case publish_all (wlib w) (sched events) k of (published_ids, failed, k) \<Rightarrow>
            case record_outcomes published_ids failed w of
              (Inl e, w) \<Rightarrow> (Inl e, k, w)
            | (Inr _, w) \<Rightarrow> (Inr (length published_ids), k, w)))"

section \<open>The outbox as a lease queue\<close>

lemma lock_event_simps [simp]:
  "ob_id (lock_event t e) = ob_id e" "ob_published (lock_event t e) = ob_published e"
  "ob_locked_at (lock_event t e) = Some t" "ob_failed_attempts (lock_event t e) = ob_failed_attempts e"
  "kafka_record_of l (lock_event t e) = kafka_record_of l e"
  by (simp_all add: lock_event_def kafka_record_of_def)

lemma failed_row_simps [simp]:
  "ob_id (failed_row x e) = ob_id e" "ob_published (failed_row x e) = ob_published e"
  "kafka_record_of l (failed_row x e) = kafka_record_of l e"
  by (simp_all add: failed_row_def kafka_record_of_def)

lemma published_row_simps [simp]:
  "ob_id (published_row t e) = ob_id e" "ob_published (published_row t e)"
  "kafka_record_of l (published_row t e) = kafka_record_of l e"
  by (simp_all add: published_row_def kafka_record_of_def)

lemma not_publishable_locked: "\<not> publishable (lock_event t e)"
  by (simp add: publishable_def)

interpretation outbox: lease_queue outbox_events ob_id "\<lambda>d t. publishable" lock_event "claim_events n" for n
  by unfold_locales
    (auto simp: claim_events_def Let_def not_publishable_locked simp flip: claim_oldest_leases
      dest: claim_oldest_returns [THEN subsetD])

section \<open>Workers running together\<close>

text \<open>
  Several workers, and whatever else writes to the outbox. A batch is in flight between the claim
  and the transaction that records its outcomes; a worker may stop at any point.
\<close>

datatype flight = Claimed "outbox_event list" | Sent "uuid list" "(uuid \<times> string) list"

type_synonym outbox_sys = "world \<times> kafka \<times> flight list"

definition outbox_grows :: "database \<Rightarrow> database \<Rightarrow> bool" where
  "outbox_grows d d' \<longleftrightarrow> (\<exists>new. outbox_events d' = outbox_events d @ new \<and> (\<forall>e \<in> set new. \<not> ob_published e) \<and>
     distinct (map ob_id (outbox_events d')))"

inductive outbox_step :: "outbox_sys \<Rightarrow> outbox_sys \<Rightarrow> bool" where
  append: "\<lbrakk>outbox_grows (wdb w) (wdb w'); wlib w' = wlib w; tx_now w' = None\<rbrakk>
    \<Longrightarrow> outbox_step (w, k, fs) (w', k, fs)"
| claim: "claim_round n w = (Inr events, w') \<Longrightarrow> outbox_step (w, k, fs) (w', k, Claimed events # fs)"
| no_claim: "claim_round n w = (Inl e, w') \<Longrightarrow> outbox_step (w, k, fs) (w', k, fs)"
| publish: "\<lbrakk>mset order = mset events; publish_all (wlib w) order k = (published_ids, failed, k')\<rbrakk>
    \<Longrightarrow> outbox_step (w, k, us @ Claimed events # vs) (w, k', us @ Sent published_ids failed # vs)"
| settle_batch: "record_outcomes published_ids failed w = (r, w')
    \<Longrightarrow> outbox_step (w, k, us @ Sent published_ids failed # vs) (w', k, us @ vs)"
| stop: "outbox_step (w, k, us @ f # vs) (w, k, us @ vs)"

inductive outbox_reachable :: "outbox_sys \<Rightarrow> bool" where
  start: "\<lbrakk>outbox_events (wdb w) = []; tx_now w = None\<rbrakk> \<Longrightarrow> outbox_reachable (w, k, [])"
| step: "\<lbrakk>outbox_reachable s; outbox_step s s'\<rbrakk> \<Longrightarrow> outbox_reachable s'"

inductive_cases outbox_stepE: "outbox_step s s'"

text \<open>What a row says to Kafka never changes.\<close>

definition routes :: "lib \<Rightarrow> database \<Rightarrow> (uuid \<times> kafka_record) list" where
  "routes l d = map (\<lambda>e. (ob_id e, kafka_record_of l e)) (outbox_events d)"

definition delivered :: "kafka \<Rightarrow> kafka_record \<Rightarrow> bool" where
  "delivered k r \<longleftrightarrow> (r, True) \<in> set (k_log k)"

definition rows_delivered :: "lib \<Rightarrow> kafka \<Rightarrow> database \<Rightarrow> bool" where
  "rows_delivered l k d \<longleftrightarrow> distinct (map ob_id (outbox_events d)) \<and>
     (\<forall>e \<in> set (outbox_events d). ob_published e \<longrightarrow> delivered k (kafka_record_of l e))"

fun flight_ok :: "lib \<Rightarrow> kafka \<Rightarrow> database \<Rightarrow> flight \<Rightarrow> bool" where
  "flight_ok l k d (Claimed es) = (\<forall>e \<in> set es. (ob_id e, kafka_record_of l e) \<in> set (routes l d))"
| "flight_ok l k d (Sent ids failed) = (\<forall>i \<in> set ids. \<exists>r. (i, r) \<in> set (routes l d) \<and> delivered k r)"

definition outbox_inv :: "outbox_sys \<Rightarrow> bool" where
  "outbox_inv s = (case s of (w, k, fs) \<Rightarrow> tx_now w = None \<and> rows_delivered (wlib w) k (wdb w) \<and>
     (\<forall>f \<in> set fs. flight_ok (wlib w) k (wdb w) f))"

text \<open>An operation of the worker: same routes, and every row marked by it was delivered.\<close>

definition outbox_kept :: "lib \<Rightarrow> kafka \<Rightarrow> database \<Rightarrow> database \<Rightarrow> bool" where
  "outbox_kept l k d d' \<longleftrightarrow> routes l d' = routes l d \<and> rows_delivered l k d'"

lemma routes_unique:
  "\<lbrakk>rows_delivered l k d; e \<in> set (outbox_events d); (ob_id e, r) \<in> set (routes l d)\<rbrakk> \<Longrightarrow> r = kafka_record_of l e"
  by (auto simp: rows_delivered_def routes_def distinct_map inj_on_def)

lemma outbox_kept_update:
  assumes "outbox_kept l k d0 d" and "\<And>e. ob_id (f e) = ob_id e" and "\<And>e. kafka_record_of l (f e) = kafka_record_of l e"
    and "\<And>e. \<lbrakk>e \<in> set (outbox_events d); P e; ob_published (f e)\<rbrakk> \<Longrightarrow> ob_published e \<or> delivered k (kafka_record_of l e)"
  shows "outbox_kept l k d0 (d\<lparr>outbox_events := upd_where P f (outbox_events d)\<rparr>)"
proof -
  have "delivered k (kafka_record_of l q)"
    if "q \<in> set (outbox_events d)" "ob_published (if P q then f q else q)" for q
    using assms(1) assms(4) [of q] that by (cases "P q") (auto simp: outbox_kept_def rows_delivered_def)
  then show ?thesis
    using assms(1-3) by (auto simp: outbox_kept_def routes_def rows_delivered_def map_upd_where_id in_upd_where)
qed

lemma reclaim_kept:
  "\<lbrakk>outbox_kept l k d0 d; reclaim_events t d = Inr (u, d')\<rbrakk> \<Longrightarrow> outbox_kept l k d0 d'"
  by (auto simp: reclaim_events_def update_stmt_def kafka_record_of_def intro!: outbox_kept_update)

lemma claim_kept:
  assumes "outbox_kept l k d0 d" and "claim_batch n t d = Inr (es, d')"
  shows "outbox_kept l k d0 d' \<and> (\<forall>e \<in> set es. (ob_id e, kafka_record_of l e) \<in> set (routes l d0))"
proof
  from assms(2) have c: "claim_events (nat n) t d = (es, d')" by (simp add: claim_batch_def split: if_splits)
  have "d' = d\<lparr>outbox_events := outbox_events d'\<rparr>" using c by (auto simp: claim_events_def Let_def)
  then show "outbox_kept l k d0 d'"
    using outbox_kept_update [OF assms(1), of "lock_event t"] outbox.claim_leases [OF c] by simp
  show "\<forall>e \<in> set es. (ob_id e, kafka_record_of l e) \<in> set (routes l d0)"
  proof
    fix e assume "e \<in> set es"
    with outbox.claim_returns [OF c] obtain r where "r \<in> set (outbox_events d)" "e = lock_event t r" by blast
    then have "(ob_id e, kafka_record_of l e) \<in> set (routes l d)" by (simp add: routes_def)
    then show "(ob_id e, kafka_record_of l e) \<in> set (routes l d0)" using assms(1) by (simp add: outbox_kept_def)
  qed
qed

lemma mark_published_kept:
  assumes "outbox_kept l k d0 d" and "\<forall>i \<in> set ids. \<exists>r. (i, r) \<in> set (routes l d0) \<and> delivered k r"
  shows "txp l' (mark_published ids) (\<lambda>_. outbox_kept l k d0) d"
proof -
  have "delivered k (kafka_record_of l e)" if "e \<in> set (outbox_events d)" "ob_id e \<in> set ids" for e
    using assms that routes_unique [of l k d e] by (auto simp: outbox_kept_def)
  then show ?thesis unfolding mark_published_def
    by (intro txp_update outbox_kept_update assms(1)) auto
qed

lemma mark_failed_kept:
  "outbox_kept l k d0 d \<Longrightarrow> txp l' (mark_failed i error) (\<lambda>_. outbox_kept l k d0) d"
  unfolding mark_failed_def
  by (rule txp_sql) (auto intro!: outbox_kept_update split: if_splits)

lemma mark_all_failed_kept:
  "outbox_kept l k d0 d \<Longrightarrow> txp l' (mark_all_failed failed) (\<lambda>_. outbox_kept l k d0) d"
  by (induction failed arbitrary: d rule: mark_all_failed.induct)
    (auto intro!: txp_ok txp_and_then txp_mono [OF mark_failed_kept])

lemma mark_all_failed_wlib: "mark_all_failed failed w = (x, w') \<Longrightarrow> wlib w' = wlib w"
  by (induction failed arbitrary: w rule: mark_all_failed.induct)
    (auto simp: and_then_def mark_failed_def split: prod.splits sum.splits dest!: sql_result)

lemma record_outcomes_kept:
  assumes "outbox_kept l k d0 (wdb w)" and "\<forall>i \<in> set ids. \<exists>r. (i, r) \<in> set (routes l d0) \<and> delivered k r"
    and "record_outcomes ids failed w = (x, w')" and "tx_now w = None"
  shows "outbox_kept l k d0 (wdb w') \<and> wlib w' = wlib w \<and> tx_now w' = None"
proof -
  let ?m = "and_then (if ids \<noteq> [] then mark_published ids else ok ()) (\<lambda>_. mark_all_failed failed)"
  have "txp l' ?m (\<lambda>_. outbox_kept l k d0) d" if "outbox_kept l k d0 d" for l' d
  proof (rule txp_and_then, rule txp_mono)
    show "txp l' (if ids \<noteq> [] then mark_published ids else ok ()) (\<lambda>_. outbox_kept l k d0) d"
      using that assms(2) by (simp add: txp_ok mark_published_kept)
  qed (rule mark_all_failed_kept)
  then have "keeps (outbox_kept l k d0) (transaction ?m)" by (rule keeps_transaction)
  moreover have "wlib v' = wlib v" if "?m v = (y, v')" for v y v'
    using that by (auto simp: and_then_def mark_published_def split: prod.splits sum.splits if_splits
        dest!: sql_result mark_all_failed_wlib)
  ultimately show ?thesis
    using assms keepsD [of "outbox_kept l k d0" "transaction ?m" w x w'] transaction_wlib [of ?m w x w']
    by (simp add: record_outcomes_def)
qed

lemma claim_round_kept:
  assumes "claim_round n w = (x, w')" and "outbox_kept l k d0 (wdb w)"
  shows "outbox_kept l k d0 (wdb w') \<and> wlib w' = wlib w \<and> tx_now w' = tx_now w \<and>
    (\<forall>es. x = Inr es \<longrightarrow> (\<forall>e \<in> set es. (ob_id e, kafka_record_of l e) \<in> set (routes l d0)))"
proof -
  obtain y v where y: "sql reclaim_events w = (y, v)" by fastforce
  have v: "outbox_kept l k d0 (wdb v) \<and> wlib v = wlib w \<and> tx_now v = tx_now w"
    using sql_result [OF y] assms(2) by (cases y) (auto intro: reclaim_kept)
  show ?thesis
  proof (cases y)
    case (Inl e)
    then show ?thesis using assms(1) y v by (auto simp: claim_round_def and_then_def)
  next
    case (Inr u)
    then have c: "sql (claim_batch n) v = (x, w')" using assms(1) y by (simp add: claim_round_def and_then_def)
    then show ?thesis using sql_result [OF c] v by (cases x) (auto dest: claim_kept)
  qed
qed

lemma publish_all_delivers:
  "publish_all l es k = (ids, failed, k') \<Longrightarrow>
     (\<forall>i \<in> set ids. \<exists>e \<in> set es. ob_id e = i \<and> delivered k' (kafka_record_of l e)) \<and>
     (\<forall>r. delivered k r \<longrightarrow> delivered k' r)"
proof (induction es arbitrary: k ids failed k')
  case Nil
  then show ?case by simp
next
  case (Cons e es)
  obtain x k1 where s: "kafka_send (kafka_record_of l e) k = (x, k1)" by fastforce
  obtain ids' failed' k2 where p: "publish_all l es k1 = (ids', failed', k2)" by (metis prod_cases3)
  have k2: "k2 = k'" using Cons.prems s p by (auto split: option.splits)
  have k1: "\<forall>r. delivered k r \<longrightarrow> delivered k1 r" "x = None \<longrightarrow> delivered k1 (kafka_record_of l e)"
    using s by (auto simp: kafka_send_def delivered_def Let_def)
  from Cons.IH [OF p] k2 have ih: "\<forall>i \<in> set ids'. \<exists>e \<in> set es. ob_id e = i \<and> delivered k' (kafka_record_of l e)"
    "\<forall>r. delivered k1 r \<longrightarrow> delivered k' r" by simp_all
  show ?case
  proof (cases x)
    case None
    then have "ids = ob_id e # ids'" using Cons.prems s p by simp
    then show ?thesis using ih k1 None by auto
  next
    case (Some m)
    then have "ids = ids'" using Cons.prems s p by simp
    then show ?thesis using ih k1 by auto
  qed
qed

lemma flight_ok_more:
  assumes "flight_ok l k d f" and "set (routes l d) \<subseteq> set (routes l d')" and "\<And>r. delivered k r \<Longrightarrow> delivered k' r"
  shows "flight_ok l k' d' f"
  using assms by (cases f) (simp_all, blast+)

lemma outbox_step_inv:
  assumes "outbox_step s s'" and "outbox_inv s"
  shows "outbox_inv s'"
  using assms
proof (induction rule: outbox_step.induct)
  case (append w w' k fs)
  then obtain new where new: "outbox_events (wdb w') = outbox_events (wdb w) @ new" "\<forall>e \<in> set new. \<not> ob_published e"
    "distinct (map ob_id (outbox_events (wdb w')))" by (auto simp: outbox_grows_def)
  then have "set (routes (wlib w) (wdb w)) \<subseteq> set (routes (wlib w) (wdb w'))" by (auto simp: routes_def)
  then show ?case using append new
    by (auto simp: outbox_inv_def rows_delivered_def intro: flight_ok_more)
next
  case (claim n w events w' k fs)
  have "outbox_kept (wlib w) k (wdb w) (wdb w)" using claim.prems by (simp add: outbox_inv_def outbox_kept_def)
  from claim_round_kept [OF claim.hyps this] claim.prems show ?case
    by (auto simp: outbox_inv_def outbox_kept_def intro: flight_ok_more)
next
  case (no_claim n w e w' k fs)
  have "outbox_kept (wlib w) k (wdb w) (wdb w)" using no_claim.prems by (simp add: outbox_inv_def outbox_kept_def)
  from claim_round_kept [OF no_claim.hyps this] no_claim.prems show ?case
    by (auto simp: outbox_inv_def outbox_kept_def intro: flight_ok_more)
next
  case (publish order events w k published_ids failed k' us vs)
  have d: "\<forall>i \<in> set published_ids. \<exists>e \<in> set events. ob_id e = i \<and> delivered k' (kafka_record_of (wlib w) e)"
    "\<And>r. delivered k r \<Longrightarrow> delivered k' r"
    using publish_all_delivers [OF publish.hyps(2)] mset_eq_setD [OF publish.hyps(1)] by auto
  have "rows_delivered (wlib w) k' (wdb w)" using publish.prems d(2) by (auto simp: outbox_inv_def rows_delivered_def)
  moreover have "flight_ok (wlib w) k' (wdb w) (Sent published_ids failed)"
    using publish.prems d(1) by (force simp: outbox_inv_def)
  ultimately show ?case using publish.prems d(2)
    by (auto simp: outbox_inv_def intro: flight_ok_more)
next
  case (settle_batch published_ids failed w r w' k us vs)
  have "outbox_kept (wlib w) k (wdb w) (wdb w)" using settle_batch.prems by (simp add: outbox_inv_def outbox_kept_def)
  from record_outcomes_kept [OF this _ settle_batch.hyps] settle_batch.prems show ?case
    by (auto simp: outbox_inv_def outbox_kept_def intro: flight_ok_more)
next
  case (stop w k us f vs)
  then show ?case by (auto simp: outbox_inv_def)
qed

lemma outbox_reachable_inv: "outbox_reachable s \<Longrightarrow> outbox_inv s"
proof (induction rule: outbox_reachable.induct)
  case (start w k)
  then show ?case by (simp add: outbox_inv_def rows_delivered_def)
next
  case (step s s')
  then show ?case by (blast intro: outbox_step_inv)
qed

section \<open>Draining the outbox\<close>

text \<open>Statements reach the server, the broker takes every record, and nothing is leased.\<close>

definition calm :: "kafka \<Rightarrow> world \<Rightarrow> bool" where
  "calm k w \<longleftrightarrow> (\<forall>n. stmt_ok w n) \<and> tx_now w = None \<and> commit_ok (wdb w) \<and> (\<forall>n r. k_answer k n r = None) \<and>
     distinct (map ob_id (outbox_events (wdb w))) \<and>
     (\<forall>e \<in> set (outbox_events (wdb w)). \<not> ob_published e \<longrightarrow> ob_locked_at e = None)"

definition pending :: "database \<Rightarrow> outbox_event list" where
  "pending d = filter (\<lambda>e. \<not> ob_published e \<and> ob_failed_attempts e < MAX_FAILED_ATTEMPTS) (outbox_events d)"

lemma sql_succeeds:
  assumes "\<forall>n. stmt_ok w n" and "tx_now w = None" and "f (clock_src w (clock_next w)) (wdb w) = Inr (a, d)" and "commit_ok d"
  shows "\<exists>w'. sql f w = (Inr a, w') \<and> wdb w' = d \<and> stmt_ok w' = stmt_ok w \<and> tx_now w' = None"
  using assms by (simp add: sql_def run_stmt_def tick_stmt_def and_then_def utc_now_def)

lemma commit_ok_outbox [simp]: "commit_ok (d\<lparr>outbox_events := es\<rparr>) = commit_ok d"
  by (simp add: commit_ok_def references_ok_def has_ledger_entry_def cong: option.case_cong)

lemma publish_all_accepted:
  "(\<And>n r. k_answer k n r = None) \<Longrightarrow>
     \<exists>k'. publish_all l es k = (map ob_id es, [], k') \<and> (\<forall>n r. k_answer k' n r = None)"
proof (induction es arbitrary: k)
  case Nil
  then show ?case by auto
next
  case (Cons e es)
  obtain x k1 where s: "kafka_send (kafka_record_of l e) k = (x, k1)" by fastforce
  then have "x = None" "\<And>n r. k_answer k1 n r = None" using Cons.prems by (auto simp: kafka_send_def Let_def)
  with Cons.IH [of k1] s show ?case by auto
qed

lemma record_accepted:
  assumes "\<forall>n. stmt_ok w n" and "tx_now w = None" and "commit_ok (wdb w)" and "ids \<noteq> []"
  shows "\<exists>w' t. record_outcomes ids [] w = (Inr (), w') \<and> stmt_ok w' = stmt_ok w \<and> tx_now w' = None \<and>
    wdb w' = (wdb w)\<lparr>outbox_events := upd_where (\<lambda>e. ob_id e \<in> set ids) (published_row t) (outbox_events (wdb w))\<rparr>"
  using assms
  by (auto simp: record_outcomes_def mark_published_def transaction_def begin_tx_def end_tx_def and_then_def ok_def
      sql_def run_stmt_def update_stmt_def tick_stmt_def utc_now_def Let_def)

text \<open>Publishing the chosen rows takes them, and nothing else, out of the pending ones.\<close>

lemma filter_not_chosen:
  assumes "set chosen \<subseteq> {e \<in> set es. P e}" and "distinct (map key es)" and "distinct (map key chosen)"
  shows "length (filter (\<lambda>e. P e \<and> key e \<notin> key ` set chosen) es) = length (filter P es) - length chosen"
proof -
  have inj: "inj_on key (set es)" and de: "distinct es" using assms(2) by (simp_all add: distinct_map)
  have s: "set (filter (\<lambda>e. P e \<and> key e \<notin> key ` set chosen) es) = set (filter P es) - set chosen"
    using assms(1) inj by (auto simp: inj_on_def)
  have c: "card (set chosen) = length chosen" using assms(3) by (intro distinct_card) (simp add: distinct_map)
  have p: "card (set (filter P es)) = length (filter P es)" using de by (intro distinct_card) simp
  have "length (filter (\<lambda>e. P e \<and> key e \<notin> key ` set chosen) es) =
      card (set (filter (\<lambda>e. P e \<and> key e \<notin> key ` set chosen) es))"
    using de by (intro distinct_card [symmetric]) simp
  also have "\<dots> = card (set (filter P es)) - card (set chosen)"
    unfolding s using assms(1) by (intro card_Diff_subset) auto
  finally show ?thesis by (simp only: c p)
qed

lemma calm_reclaims:
  assumes "calm k w"
  shows "reclaim_events t (wdb w) = Inr ((), wdb w)"
proof -
  have "upd_where (stale_lock t) f (outbox_events (wdb w)) = outbox_events (wdb w)" for f
    using assms by (intro upd_where_none) (auto simp: calm_def stale_lock_def)
  then show ?thesis by (simp add: reclaim_events_def update_stmt_def)
qed

text \<open>What a worker chooses when nothing is leased: pending events, as many as the batch takes.\<close>

definition chosen_events :: "i64 \<Rightarrow> world \<Rightarrow> outbox_event list" where
  "chosen_events n w = oldest (nat n) ob_created_at publishable (outbox_events (wdb w))"

lemma calm_chosen:
  assumes "calm k w"
  shows "set (chosen_events n w) \<subseteq> {e \<in> set (outbox_events (wdb w)). \<not> ob_published e \<and> ob_failed_attempts e < MAX_FAILED_ATTEMPTS}"
    and "distinct (map ob_id (chosen_events n w))"
    and "length (chosen_events n w) = min (nat n) (length (pending (wdb w)))"
proof -
  note c = assms [unfolded calm_def]
  show "set (chosen_events n w) \<subseteq> {e \<in> set (outbox_events (wdb w)). \<not> ob_published e \<and> ob_failed_attempts e < MAX_FAILED_ATTEMPTS}"
    using oldest_subset by (fastforce simp: chosen_events_def publishable_def)
  show "distinct (map ob_id (chosen_events n w))"
    unfolding chosen_events_def using c by (intro oldest_distinct) simp
  have "filter publishable (outbox_events (wdb w)) = pending (wdb w)"
    using c by (auto simp: pending_def publishable_def intro: filter_cong)
  then show "length (chosen_events n w) = min (nat n) (length (pending (wdb w)))"
    by (simp add: chosen_events_def)
qed

lemma calm_round:
  assumes calm: "calm k w" and n: "0 < n"
  obtains t events w2 where "claim_round n w = (Inr events, w2)"
    "wdb w2 = (wdb w)\<lparr>outbox_events := lease_rows ob_id (lock_event t) (chosen_events n w) (outbox_events (wdb w))\<rparr>"
    "stmt_ok w2 = stmt_ok w" "tx_now w2 = None"
    "ob_id ` set events = ob_id ` set (chosen_events n w)" "length events = length (chosen_events n w)"
proof -
  note c = calm [unfolded calm_def]
  let ?es = "outbox_events (wdb w)" and ?chosen = "chosen_events n w"
  from sql_succeeds [of w reclaim_events "()" "wdb w"] c calm_reclaims [OF calm] obtain w1 where
    w1: "sql reclaim_events w = (Inr (), w1)" "wdb w1 = wdb w" "stmt_ok w1 = stmt_ok w" "tx_now w1 = None" by auto
  define t where "t = clock_src w1 (clock_next w1)"
  define events where "events = leased_rows ob_id (lock_event t) ?chosen ?es"
  define d1 where "d1 = (wdb w)\<lparr>outbox_events := lease_rows ob_id (lock_event t) ?chosen ?es\<rparr>"
  have "claim_batch n t (wdb w1) = Inr (events, d1)"
    using n w1(2) by (simp add: claim_batch_def claim_events_def events_def d1_def chosen_events_def Let_def)
  with sql_succeeds [of w1 "claim_batch n" events d1] w1 c obtain w2 where
    w2: "sql (claim_batch n) w1 = (Inr events, w2)" "wdb w2 = d1" "stmt_ok w2 = stmt_ok w" "tx_now w2 = None"
    by (auto simp: t_def d1_def)
  have round: "claim_round n w = (Inr events, w2)" using w1 w2 by (simp add: claim_round_def and_then_def)
  have ids: "ob_id ` set events = ob_id ` set ?chosen"
    using calm_chosen(1) [OF calm, of n] by (auto simp: events_def leased_rows_def image_image)
  have "map ob_id events = map ob_id (filter (\<lambda>r. ob_id r \<in> ob_id ` set ?chosen) ?es)"
    by (simp add: events_def leased_rows_def comp_def)
  then have "distinct (map ob_id events)" using c by (simp add: distinct_map_filter)
  then have len: "length events = length ?chosen"
    using ids calm_chosen(2) [OF calm, of n] by (metis distinct_card length_map list.set_map)
  show ?thesis by (rule that [OF round w2(2) [unfolded d1_def] w2(3,4) ids len])
qed

text \<open>Publishing the chosen events takes them, and nothing else, out of the pending ones.\<close>

lemma published_pending:
  assumes calm: "calm k w"
    and rows: "outbox_events d = map (\<lambda>e. if ob_id e \<in> ob_id ` set (chosen_events n w)
        then published_row t' (lock_event t e) else e) (outbox_events (wdb w))"
  shows "length (pending d) = length (pending (wdb w)) - nat n"
proof -
  let ?chosen = "chosen_events n w" and ?open = "\<lambda>e. \<not> ob_published e \<and> ob_failed_attempts e < MAX_FAILED_ATTEMPTS"
  have "length (pending d) = length (filter (\<lambda>e. ?open e \<and> ob_id e \<notin> ob_id ` set ?chosen) (outbox_events (wdb w)))"
    by (simp add: pending_def rows filter_map comp_def) (metis (no_types, lifting) published_row_simps(2))
  also have "\<dots> = length (pending (wdb w)) - length ?chosen"
    using filter_not_chosen [of ?chosen "outbox_events (wdb w)" ?open ob_id] calm_chosen(1,2) [OF calm, of n] calm
    by (simp add: pending_def calm_def)
  finally show ?thesis using calm_chosen(3) [OF calm, of n] by (auto simp: min_def)
qed

lemma run_once_drains:
  assumes calm: "calm k w" and n: "0 < n" and sched: "\<And>xs. mset (sched xs) = mset xs"
  shows "\<exists>k' w'. outbox_run_once sched n k w = (Inr (min (nat n) (length (pending (wdb w)))), k', w') \<and>
    calm k' w' \<and> length (pending (wdb w')) = length (pending (wdb w)) - nat n"
proof -
  note c = calm [unfolded calm_def] and ch = calm_chosen [OF calm, of n]
  let ?es = "outbox_events (wdb w)" and ?chosen = "chosen_events n w"
  obtain t events w2 where round: "claim_round n w = (Inr events, w2)"
    and w2: "wdb w2 = (wdb w)\<lparr>outbox_events := lease_rows ob_id (lock_event t) ?chosen ?es\<rparr>"
      "stmt_ok w2 = stmt_ok w" "tx_now w2 = None"
    and ev: "ob_id ` set events = ob_id ` set ?chosen" "length events = length ?chosen"
    by (rule calm_round [OF calm n])
  show ?thesis
  proof (cases "events = []")
    case True
    then have none: "?chosen = []" using ev by simp
    then have "pending (wdb w) = []" using ch(3) n by (auto simp: min_def split: if_splits)
    moreover have "wdb w2 = wdb w" using none w2(1) by (simp add: lease_rows_def upd_where_def)
    ultimately show ?thesis using True round w2 calm
      by (intro exI [of _ k] exI [of _ w2]) (simp add: outbox_run_once_def calm_def)
  next
    case False
    obtain w3 u where w3: "utc_now w2 = (u, w3)" "wdb w3 = wdb w2" "stmt_ok w3 = stmt_ok w" "tx_now w3 = None" "wlib w3 = wlib w2"
      using w2 by (simp add: utc_now_def)
    obtain k' where k': "publish_all (wlib w3) (sched events) k = (map ob_id (sched events), [], k')"
      "\<forall>n r. k_answer k' n r = None"
      using publish_all_accepted [of k "wlib w3" "sched events"] c by auto
    have se: "set (sched events) = set events" "length (sched events) = length events"
      using sched [of events] by (auto dest: mset_eq_setD mset_eq_length)
    have "sched events \<noteq> []" using se False by auto
    then obtain w' t' where w': "record_outcomes (map ob_id (sched events)) [] w3 = (Inr (), w')" "stmt_ok w' = stmt_ok w"
      "tx_now w' = None" "wdb w' = (wdb w2)\<lparr>outbox_events :=
        upd_where (\<lambda>e. ob_id e \<in> ob_id ` set ?chosen) (published_row t') (outbox_events (wdb w2))\<rparr>"
      using record_accepted [of w3 "map ob_id (sched events)"] w3 c se ev w2(1) by auto
    have rows: "outbox_events (wdb w') =
      map (\<lambda>e. if ob_id e \<in> ob_id ` set ?chosen then published_row t' (lock_event t e) else e) ?es"
      by (simp add: w'(4) w2(1) lease_rows_def upd_where_def)
    have "calm k' w'" unfolding calm_def
    proof (intro conjI)
      show "commit_ok (wdb w')" using c w'(4) w2(1) by simp
      show "distinct (map ob_id (outbox_events (wdb w')))" using c by (simp add: rows comp_def if_distrib cong: if_cong)
      show "\<forall>e \<in> set (outbox_events (wdb w')). \<not> ob_published e \<longrightarrow> ob_locked_at e = None"
        using c by (auto simp: rows)
    qed (use c w' k' in auto)
    then show ?thesis using round w3 k' w'(1) ch(3) se ev(2) False published_pending [OF calm rows]
      by (intro exI [of _ k'] exI [of _ w']) (simp add: outbox_run_once_def)
  qed
qed

fun run_times ::
  "nat \<Rightarrow> (outbox_event list \<Rightarrow> outbox_event list) \<Rightarrow> i64 \<Rightarrow> kafka \<Rightarrow> world \<Rightarrow> kafka \<times> world" where
  "run_times 0 sched n k w = (k, w)"
| "run_times (Suc m) sched n k w = (case outbox_run_once sched n k w of (_, k, w) \<Rightarrow> run_times m sched n k w)"

lemma run_times_drains:
  assumes "calm k w" and "0 < n" and "\<And>xs. mset (sched xs) = mset xs" and "length (pending (wdb w)) \<le> m * nat n"
  shows "pending (wdb (snd (run_times m sched n k w))) = []"
  using assms
proof (induction m arbitrary: k w)
  case 0
  then show ?case by simp
next
  case (Suc m)
  from run_once_drains [OF Suc.prems(1-3)] obtain k' w' x where
    r: "outbox_run_once sched n k w = (x, k', w')" "calm k' w'"
    "length (pending (wdb w')) = length (pending (wdb w)) - nat n" by blast
  then have "length (pending (wdb w')) \<le> m * nat n" using Suc.prems(4) by simp
  with Suc.IH [OF r(2) Suc.prems(2,3)] r(1) show ?case by simp
qed

section \<open>A run of the worker as steps of the system\<close>

lemma run_once_reachable:
  assumes "outbox_reachable (w, k, [])" and "outbox_run_once sched n k w = (x, k', w')"
    and "\<And>xs. mset (sched xs) = mset xs"
  shows "outbox_reachable (w', k', [])"
proof -
  have inv: "outbox_inv (v, j, fs)" if "outbox_reachable (v, j, fs)" for v j fs using that by (rule outbox_reachable_inv)
  obtain y w1 where c: "claim_round n w = (y, w1)" by fastforce
  show ?thesis
  proof (cases y)
    case (Inl e)
    then show ?thesis using assms(1,2) c outbox_reachable.step [OF assms(1) no_claim [of n w e w1]]
      by (simp add: outbox_run_once_def)
  next
    case (Inr events)
    have r1: "outbox_reachable (w1, k, [Claimed events])"
      using outbox_reachable.step [OF assms(1) claim] c Inr by simp
    show ?thesis
    proof (cases "events = []")
      case True
      then show ?thesis using outbox_reachable.step [OF r1 stop [of w1 k "[]" _ "[]", simplified]] assms(2) c Inr
        by (simp add: outbox_run_once_def)
    next
      case False
      obtain u w2 where t: "utc_now w1 = (u, w2)" by fastforce
      then have "outbox_grows (wdb w1) (wdb w2) \<and> wlib w2 = wlib w1 \<and> tx_now w2 = None"
        using inv [OF r1] by (auto simp: utc_now_def outbox_grows_def outbox_inv_def rows_delivered_def)
      then have r2: "outbox_reachable (w2, k, [Claimed events])" using outbox_reachable.step [OF r1 append] by simp
      obtain ids failed k2 where p: "publish_all (wlib w2) (sched events) k = (ids, failed, k2)" by (metis prod_cases3)
      have r3: "outbox_reachable (w2, k2, [Sent ids failed])"
        using outbox_reachable.step [OF r2 publish [of _ _ _ _ _ _ _ "[]" "[]", OF assms(3) p, simplified]] .
      obtain z w3 where q: "record_outcomes ids failed w2 = (z, w3)" by fastforce
      have "outbox_reachable (w3, k2, [])"
        using outbox_reachable.step [OF r3 settle_batch [of _ _ _ _ _ _ "[]" "[]", OF q, simplified]] .
      then show ?thesis using assms(2) c Inr False t p q by (cases z) (simp_all add: outbox_run_once_def)
    qed
  qed
qed

definition sample_event :: outbox_event where
  "sample_event = \<lparr>ob_id = 1, ob_aggregate_type = ''payment'', ob_aggregate_id = 9, ob_event_type = ''payment.created'',
     ob_payload = JNull, ob_topic = ''t'', ob_published = False, ob_failed_attempts = 0, ob_last_error = None,
     ob_created_at = 0, ob_published_at = None, ob_locked_at = None\<rparr>"

definition sample_kafka :: kafka where
  "sample_kafka = \<lparr>k_answer = (\<lambda>n r. None), k_log = []\<rparr>"

definition outbox_world :: world where
  "outbox_world = sample_world ((empty_database documented_schema)\<lparr>outbox_events := [sample_event]\<rparr>)"

lemma outbox_world_reachable: "outbox_reachable (outbox_world, sample_kafka, [])"
proof -
  let ?w = "sample_world (empty_database documented_schema)"
  have "outbox_reachable (?w, sample_kafka, [])"
    by (rule outbox_reachable.start) (simp_all add: sample_world_def empty_database_def)
  moreover have "outbox_step (?w, sample_kafka, []) (outbox_world, sample_kafka, [])"
    by (rule append) (simp_all add: outbox_grows_def outbox_world_def sample_world_def empty_database_def sample_event_def)
  ultimately show ?thesis by (rule outbox_reachable.step)
qed

lemma outbox_world_calm: "calm sample_kafka outbox_world"
  by (simp add: calm_def outbox_world_def sample_world_def sample_kafka_def sample_event_def commit_ok_def
    references_ok_def empty_database_def)

lemma outbox_world_pending: "pending (wdb outbox_world) = [sample_event]"
  by (simp add: pending_def outbox_world_def sample_world_def sample_event_def MAX_FAILED_ATTEMPTS_def)

section \<open>Properties\<close>

text \<open>
  C12. No event is given up for sent: however many workers run, fail, stop or overtake each other, an outbox row
  is marked published only if Kafka has acknowledged the record of that row.
\<close>

theorem published_events_were_delivered:
  assumes "outbox_reachable (w, k, fs)" and "e \<in> set (outbox_events (wdb w))" and "ob_published e"
  shows "(kafka_record_of (wlib w) e, True) \<in> set (k_log k)"
  using outbox_reachable_inv [OF assms(1)] assms(2,3) by (auto simp: outbox_inv_def rows_delivered_def delivered_def)

theorem published_events_were_delivered_witness:
  "let (x, k, w) = outbox_run_once (\<lambda>es. es) 10 sample_kafka outbox_world
   in list_all ob_published (outbox_events (wdb w)) \<and> outbox_events (wdb w) \<noteq> [] \<and>
     (\<forall>e \<in> set (outbox_events (wdb w)). (kafka_record_of (wlib w) e, True) \<in> set (k_log k))"
proof -
  obtain x k w where r: "outbox_run_once (\<lambda>es. es) 10 sample_kafka outbox_world = (x, k, w)" by (metis prod_cases3)
  then have reach: "outbox_reachable (w, k, [])" by (rule run_once_reachable [OF outbox_world_reachable]) simp
  have "outbox_events (wdb w) \<noteq> [] \<and> list_all ob_published (outbox_events (wdb w))"
    using r by (auto simp: outbox_run_once_def claim_round_def claim_batch_def claim_events_def oldest_def publishable_def
      leased_rows_def lease_rows_def lock_event_def record_outcomes_def mark_published_def published_row_def
      reclaim_events_def stale_lock_def kafka_send_def sample_kafka_def outbox_world_def sample_event_def
      MAX_FAILED_ATTEMPTS_def run_defs cong: lazy_congs)
  then show ?thesis using published_events_were_delivered [OF reach] r by (simp add: list_all_iff)
qed

lemma leased_not_publishable:
  assumes "claim_events n t d = (es, d1)" and "reclaim_events t1 d1 = Inr ((), d2)" and "t1 \<le> t + lease_period"
    and q: "q \<in> set (outbox_events d2)" "ob_id q \<in> ob_id ` set es"
  shows "\<not> publishable q"
proof -
  have d1: "outbox_events d1 = upd_where (\<lambda>r. ob_id r \<in> ob_id ` set es) (lock_event t) (outbox_events d)"
    using assms(1) by (rule outbox.claim_leases)
  have d2: "outbox_events d2 = upd_where (stale_lock t1) (\<lambda>e. e\<lparr>ob_locked_at := None\<rparr>) (outbox_events d1)"
    using assms(2) by (auto simp: reclaim_events_def update_stmt_def)
  from q(1) obtain p where p: "p \<in> set (outbox_events d1)" "q = (if stale_lock t1 p then p\<lparr>ob_locked_at := None\<rparr> else p)"
    unfolding d2 in_upd_where by (rule bexE)
  from p(1) obtain r where r: "p = (if ob_id r \<in> ob_id ` set es then lock_event t r else r)"
    unfolding d1 in_upd_where by (rule bexE)
  have "ob_id q = ob_id r" unfolding p(2) r by simp
  then have "p = lock_event t r" using q(2) r by simp
  moreover have "\<not> stale_lock t1 (lock_event t r)" using assms(3) by (simp add: stale_lock_def)
  ultimately show ?thesis using p(2) not_publishable_locked by simp
qed

lemma batch_is_oldest:
  assumes c: "claim_events m t d = (fs, d')" and dist: "distinct (map ob_id (outbox_events d))"
    and f: "f \<in> set fs" and q: "q \<in> set (outbox_events d)" "publishable q" "ob_id q \<notin> ob_id ` set fs"
  shows "ob_created_at f \<le> ob_created_at q"
proof -
  let ?chosen = "oldest m ob_created_at publishable (outbox_events d)"
  have fs: "fs = leased_rows ob_id (lock_event t) ?chosen (outbox_events d)"
    using c by (simp add: claim_events_def Let_def)
  from f fs obtain r c where r: "f = lock_event t r" "r \<in> set (outbox_events d)" "c \<in> set ?chosen" "ob_id r = ob_id c"
    by (auto simp: leased_rows_def)
  have "c \<in> set (outbox_events d)" using subsetD [OF oldest_subset r(3)] by simp
  then have "r = c" using dist r(2,4) unfolding distinct_map by (blast dest: inj_onD)
  have "ob_id x \<in> ob_id ` set fs" if "x \<in> set ?chosen" for x
  proof -
    have "x \<in> set (outbox_events d)" using subsetD [OF oldest_subset that] by simp
    then have "lock_event t x \<in> set fs" using that by (auto simp: fs leased_rows_def)
    then have "ob_id (lock_event t x) \<in> ob_id ` set fs" by (rule imageI)
    then show ?thesis by simp
  qed
  then have "q \<notin> set ?chosen" using q(3) by blast
  with oldest_age [OF r(3) q(1,2)] show ?thesis by (simp add: r(1) \<open>r = c\<close> lock_event_def)
qed





end
