(* ===== verification/Webhook.thy ===== *)
theory Webhook
  imports Lease_Queue Crypto Orchestrator Evaluation
begin

text \<open>
  \<open>crates/webhook-service/src\<close>: the consumer of the webhook topic (\<open>consumer.rs\<close>), the
  dispatcher that turns an event into deliveries (\<open>dispatcher.rs\<close>), and the scheduler that sends
  them with back-off (\<open>retry_scheduler.rs\<close>). The tasks of a round touch different rows and are
  run one after the other; the random draw of the jitter is an argument. A panic is the error
  \<open>panicked\<close>, which no code of the service handles.
\<close>

section \<open>Consumer and dispatcher\<close>

definition CONSUMER_GROUP :: string where "CONSUMER_GROUP = ''rustpay-webhook-service''"

text \<open>\<open>WHERE merchant_id = $1 AND is_active = true AND $2 = ANY(events)\<close>.\<close>

definition subscribed :: "uuid \<Rightarrow> string \<Rightarrow> webhook_endpoint \<Rightarrow> bool" where
  "subscribed merchant_id event_type ep \<longleftrightarrow>
     we_merchant_id ep = merchant_id \<and> we_is_active ep \<and> List.member (we_events ep) event_type"

definition new_delivery :: "uuid \<Rightarrow> uuid \<Rightarrow> uuid \<Rightarrow> string \<Rightarrow> json \<Rightarrow> time \<Rightarrow> webhook_delivery" where
  "new_delivery i endpoint_id merchant_id event_type payload now =
     \<lparr>wd_id = i, wd_endpoint_id = endpoint_id, wd_merchant_id = merchant_id, wd_event_type = event_type,
      wd_payload = payload, wd_attempt_count = 0, wd_max_attempts = 10, wd_status = DeliveryPending,
      wd_last_http_status = None, wd_last_error = None, wd_next_retry_at = Some now,
      wd_processing_started_at = None, wd_dead_lettered_at = None, wd_updated_at = now\<rparr>"

definition delivery_insertable :: "database \<Rightarrow> webhook_delivery \<Rightarrow> bool" where
  "delivery_insertable d wd \<longleftrightarrow> \<not> list_ex (\<lambda>q. wd_id q = wd_id wd) (webhook_deliveries d) \<and>
     list_ex (\<lambda>ep. we_id ep = wd_endpoint_id wd) (webhook_endpoints d) \<and> has_merchant d (wd_merchant_id wd)"

definition insert_delivery :: "uuid \<Rightarrow> uuid \<Rightarrow> uuid \<Rightarrow> string \<Rightarrow> json \<Rightarrow> unit M" where
  "insert_delivery i endpoint_id merchant_id event_type payload = sql (insert_stmt (\<lambda>now d.
     let wd = new_delivery i endpoint_id merchant_id event_type payload now in
     if delivery_insertable d wd then Some (d\<lparr>webhook_deliveries := webhook_deliveries d @ [wd]\<rparr>) else None))"

fun persist_all :: "webhook_endpoint list \<Rightarrow> uuid \<Rightarrow> string \<Rightarrow> string \<Rightarrow> unit M" where
  "persist_all [] merchant_id event_type payload_str = ok ()"
| "persist_all (ep # eps) merchant_id event_type payload_str =
     and_then new_v4 (\<lambda>delivery_id.
     and_then (read_lib (\<lambda>l. unwrap_or (json_parse l payload_str) JNull)) (\<lambda>payload.
     and_then (insert_delivery delivery_id (we_id ep) merchant_id event_type payload) (\<lambda>_.
     persist_all eps merchant_id event_type payload_str)))"

text \<open>The text of the UUID parser's error is only logged.\<close>

definition persist_and_dispatch :: "json \<Rightarrow> unit M" where
  "persist_and_dispatch event =
     and_then (read_lib (\<lambda>l. uuid_parse l (str_or (jget event ''merchant_id'') ''''))) (\<lambda>parsed.
     and_then (ok_or (Internal ''invalid UUID'') parsed) (\<lambda>merchant_id.
     let event_type = str_or (jget event ''event_type'') '''' in
     and_then (sql (select_stmt (\<lambda>d. filter (subscribed merchant_id event_type) (webhook_endpoints d)))) (\<lambda>endpoints.
     if endpoints = [] then ok ()
     else and_then (read_lib (\<lambda>l. json_print l event)) (\<lambda>payload_str.
          and_then utc_now (\<lambda>now.
          persist_all endpoints merchant_id event_type payload_str)))))"

text \<open>\<open>INSERT INTO processed_events \<dots> ON CONFLICT DO NOTHING\<close>: the number of rows inserted.\<close>

definition mark_processed :: "string \<Rightarrow> nat stmt" where
  "mark_processed event_id = (\<lambda>now d.
     if List.member (processed_events d) (event_id, CONSUMER_GROUP) then Inr (0, d)
     else Inr (1, d\<lparr>processed_events := processed_events d @ [(event_id, CONSUMER_GROUP)]\<rparr>))"

definition process_message :: "string \<Rightarrow> string \<Rightarrow> bool M" where
  "process_message event_id payload =
     and_then (sql (mark_processed event_id)) (\<lambda>inserted.
     if inserted = 0 then ok True
     else and_then (read_lib (\<lambda>l. (json_parse l payload, json_error l))) (\<lambda>(parsed, e).
          and_then (ok_or (Internal e) parsed) (\<lambda>event.
          and_then (persist_and_dispatch event) (\<lambda>_. ok False))))"

section \<open>Scheduler: the queue\<close>

definition started_before :: "time \<Rightarrow> webhook_delivery \<Rightarrow> bool" where
  "started_before t wd \<longleftrightarrow> wd_status wd = DeliveryProcessing \<and>
     (case wd_processing_started_at wd of None \<Rightarrow> False | Some s \<Rightarrow> s < t)"

definition released_delivery :: "time \<Rightarrow> webhook_delivery \<Rightarrow> webhook_delivery" where
  "released_delivery now wd = wd\<lparr>wd_status := DeliveryPending, wd_processing_started_at := None, wd_updated_at := now\<rparr>"

definition delivery_lease :: time where "delivery_lease = time_secs 300"

definition set_deliveries ::
  "(webhook_delivery \<Rightarrow> bool) \<Rightarrow> (webhook_delivery \<Rightarrow> webhook_delivery) \<Rightarrow> database \<Rightarrow> database" where
  "set_deliveries P f d = d\<lparr>webhook_deliveries := upd_where P f (webhook_deliveries d)\<rparr>"

definition release_deliveries :: "unit stmt" where
  "release_deliveries = update_stmt (\<lambda>now. set_deliveries (started_before (now - delivery_lease)) (released_delivery now))"

definition deliverable :: "database \<Rightarrow> time \<Rightarrow> webhook_delivery \<Rightarrow> bool" where
  "deliverable d now wd \<longleftrightarrow> wd_status wd = DeliveryPending \<and>
     (case wd_next_retry_at wd of None \<Rightarrow> False | Some t \<Rightarrow> t \<le> now) \<and>
     wd_attempt_count wd < wd_max_attempts wd \<and>
     list_ex (\<lambda>ep. we_id ep = wd_endpoint_id wd) (webhook_endpoints d)"

definition lease_delivery :: "time \<Rightarrow> webhook_delivery \<Rightarrow> webhook_delivery" where
  "lease_delivery now wd = wd\<lparr>wd_status := DeliveryProcessing, wd_processing_started_at := Some now, wd_updated_at := now\<rparr>"

definition retry_key :: "webhook_delivery \<Rightarrow> int" where
  "retry_key wd = unwrap_or (wd_next_retry_at wd) 0"

definition claim_deliveries :: "time \<Rightarrow> database \<Rightarrow> webhook_delivery list \<times> database" where
  "claim_deliveries now d =
     (let chosen = oldest 20 retry_key (deliverable d now) (webhook_deliveries d) in
      (leased_rows wd_id (lease_delivery now) chosen (webhook_deliveries d),
       d\<lparr>webhook_deliveries := lease_rows wd_id (lease_delivery now) chosen (webhook_deliveries d)\<rparr>))"

text \<open>The claimed rows joined with their endpoints.\<close>

definition with_endpoint :: "database \<Rightarrow> webhook_delivery \<Rightarrow> (webhook_delivery \<times> webhook_endpoint) list" where
  "with_endpoint d wd = map (Pair wd) (filter (\<lambda>ep. we_id ep = wd_endpoint_id wd) (webhook_endpoints d))"

definition claim_with_endpoints :: "(webhook_delivery \<times> webhook_endpoint) list stmt" where
  "claim_with_endpoints = (\<lambda>now d. case claim_deliveries now d of
     (wds, d') \<Rightarrow> Inr (concat (map (with_endpoint d) wds), d'))"

section \<open>Scheduler: back-off\<close>

definition MAX_DELAY_SECONDS :: f64 where "MAX_DELAY_SECONDS = FNum 3600 0"
definition BASE_DELAY_SECONDS :: f64 where "BASE_DELAY_SECONDS = FNum 1 0"

text \<open>\<open>0.2\<close> as the nearest double, and its negation.\<close>

definition JITTER_FRACTION :: f64 where "JITTER_FRACTION = FNum 3602879701896397 (- 54)"
definition neg_jitter_fraction :: f64 where "neg_jitter_fraction = FNum (- 3602879701896397) (- 54)"

text \<open>\<open>2f64.powi(n)\<close>: exact while the power is a finite double.\<close>

definition powi2 :: "i32 \<Rightarrow> f64" where
  "powi2 n = (if n < 1024 then f64_round 1 n else FInf False)"

definition capped_delay :: "i32 \<Rightarrow> f64" where
  "capped_delay attempt = f64_min (f64_mul BASE_DELAY_SECONDS (powi2 (attempt - 1))) MAX_DELAY_SECONDS"

definition retry_delay :: "(f64 \<Rightarrow> f64 \<Rightarrow> f64) \<Rightarrow> i32 \<Rightarrow> i64" where
  "retry_delay gen_range attempt =
     (let capped = capped_delay attempt;
          jitter = gen_range (f64_mul neg_jitter_fraction capped) (f64_mul JITTER_FRACTION capped)
      in f64_to_i64 (f64_max (f64_add capped jitter) (FNum 1 0)))"

section \<open>Scheduler: one delivery\<close>

definition dead_letter :: "i32 \<Rightarrow> string \<Rightarrow> time \<Rightarrow> webhook_delivery \<Rightarrow> webhook_delivery" where
  "dead_letter http_status error now wd = wd\<lparr>wd_status := DeliveryDeadLettered, wd_last_http_status := Some http_status,
     wd_last_error := Some error, wd_dead_lettered_at := Some now, wd_updated_at := now\<rparr>"

text \<open>The column \<open>dead_lettered_at\<close> may not exist.\<close>

definition dead_letter_stmt :: "uuid \<Rightarrow> i32 \<Rightarrow> string \<Rightarrow> unit stmt" where
  "dead_letter_stmt i http_status error = (\<lambda>now d.
     if \<not> sch_dead_lettered_at (db_schema d) then Inl NoSuchColumn
     else Inr ((), set_deliveries (\<lambda>wd. wd_id wd = i) (dead_letter http_status error now) d))"

definition retry_row :: "i32 \<Rightarrow> string \<Rightarrow> time \<Rightarrow> time \<Rightarrow> webhook_delivery \<Rightarrow> webhook_delivery" where
  "retry_row http_status error next_retry_at now wd = wd\<lparr>wd_last_http_status := Some http_status,
     wd_last_error := Some error, wd_next_retry_at := Some next_retry_at, wd_updated_at := now\<rparr>"

definition handle_failure ::
  "(f64 \<Rightarrow> f64 \<Rightarrow> f64) \<Rightarrow> uuid \<Rightarrow> i32 \<Rightarrow> i32 \<Rightarrow> i32 \<Rightarrow> string \<Rightarrow> unit M" where
  "handle_failure gen_range delivery_id max_attempts attempt http_status error =
     (if attempt \<ge> max_attempts then sql (dead_letter_stmt delivery_id http_status error)
      else and_then utc_now (\<lambda>now.
        let next_retry_at = now + time_secs (retry_delay gen_range attempt) in
        sql (update_stmt (\<lambda>t. set_deliveries (\<lambda>wd. wd_id wd = delivery_id)
          (retry_row http_status error next_retry_at t)))))"

definition success_row :: "i32 \<Rightarrow> time \<Rightarrow> webhook_delivery \<Rightarrow> webhook_delivery" where
  "success_row http_status now wd = wd\<lparr>wd_status := DeliverySuccess, wd_last_http_status := Some http_status,
     wd_updated_at := now\<rparr>"

text \<open>\<open>attempt_count + 1\<close> is INTEGER arithmetic in the statement and \<open>i32\<close> arithmetic in the code.\<close>

definition count_attempt_stmt :: "uuid \<Rightarrow> unit stmt" where
  "count_attempt_stmt i = (\<lambda>now d.
     if list_ex (\<lambda>wd. wd_id wd = i \<and> wd_attempt_count wd = 2147483647) (webhook_deliveries d) then Inl OutOfRange
     else Inr ((), set_deliveries (\<lambda>wd. wd_id wd = i)
       (\<lambda>wd. wd\<lparr>wd_attempt_count := wd_attempt_count wd + 1, wd_updated_at := now\<rparr>) d))"

definition delivery_headers :: "lib \<Rightarrow> string \<Rightarrow> webhook_delivery \<Rightarrow> i64 \<Rightarrow> (string \<times> string) list" where
  "delivery_headers l signature wd ts =
     [(''Content-Type'', ''application/json''), (''X-RustPay-Signature'', signature),
      (''X-RustPay-Event'', wd_event_type wd), (''X-RustPay-Delivery-Id'', uuid_show l (wd_id wd)),
      (''X-RustPay-Timestamp'', show_int ts)]"

text \<open>The body is sent as the text that was signed.\<close>

definition deliver :: "(f64 \<Rightarrow> f64 \<Rightarrow> f64) \<Rightarrow> webhook_delivery \<Rightarrow> webhook_endpoint \<Rightarrow> unit M" where
  "deliver gen_range wd ep =
     and_then (read_lib (\<lambda>l. json_print l (wd_payload wd))) (\<lambda>payload_str.
     and_then utc_now (\<lambda>now.
     and_then (read_lib (\<lambda>l. (let ts = timestamp now in
       delivery_headers l (build_webhook_signature l (we_secret_enc ep) payload_str ts) wd ts))) (\<lambda>headers.
     and_then (sql (count_attempt_stmt (wd_id wd))) (\<lambda>_.
     and_then (post (we_url ep) headers (JStr payload_str)) (\<lambda>result.
     let new_attempt = wrap32 (wd_attempt_count wd + 1) in
     case result of
       Response status body \<Rightarrow>
         if is_success status then
           sql (update_stmt (\<lambda>t. set_deliveries (\<lambda>q. wd_id q = wd_id wd) (success_row (int status) t)))
         else and_then (read_lib (\<lambda>l. body_text l body)) (\<lambda>error_body.
           and_then (ok_or panicked (slice_to error_body (min (length error_body) 500))) (\<lambda>shown.
           handle_failure gen_range (wd_id wd) (wd_max_attempts wd) new_attempt (int status)
             (''HTTP '' @ show_int (int status) @ '': '' @ shown)))
     | SendError e \<Rightarrow> handle_failure gen_range (wd_id wd) (wd_max_attempts wd) new_attempt 0 e)))))"

text \<open>The error of a task is logged and not counted; a panic ends the round.\<close>

fun deliver_all :: "(f64 \<Rightarrow> f64 \<Rightarrow> f64) \<Rightarrow> (webhook_delivery \<times> webhook_endpoint) list \<Rightarrow> nat \<Rightarrow> nat M" where
  "deliver_all gen_range [] processed = ok processed"
| "deliver_all gen_range ((wd, ep) # rest) processed =
     match_result (deliver gen_range wd ep)
       (\<lambda>e. if e = panicked then err panicked else deliver_all gen_range rest processed)
       (\<lambda>_. deliver_all gen_range rest (processed + 1))"

definition scheduler_run_once :: "(f64 \<Rightarrow> f64 \<Rightarrow> f64) \<Rightarrow> nat M" where
  "scheduler_run_once gen_range =
     and_then (sql release_deliveries) (\<lambda>_.
     and_then (sql claim_with_endpoints) (\<lambda>deliveries.
     if deliveries = [] then ok 0 else deliver_all gen_range deliveries 0))"

section \<open>The deliveries as a lease queue\<close>

lemma lease_delivery_simps [simp]:
  "wd_id (lease_delivery t wd) = wd_id wd" "wd_status (lease_delivery t wd) = DeliveryProcessing"
  "wd_processing_started_at (lease_delivery t wd) = Some t"
  "wd_attempt_count (lease_delivery t wd) = wd_attempt_count wd"
  "wd_max_attempts (lease_delivery t wd) = wd_max_attempts wd"
  by (simp_all add: lease_delivery_def)

interpretation deliveries: lease_queue webhook_deliveries wd_id deliverable lease_delivery claim_deliveries
  by unfold_locales
    (auto simp: claim_deliveries_def Let_def deliverable_def simp flip: claim_oldest_leases
      dest: claim_oldest_returns [THEN subsetD])

section \<open>Events are processed at most once\<close>

definition marked :: "string \<Rightarrow> database \<Rightarrow> bool" where
  "marked event_id d \<longleftrightarrow> (event_id, CONSUMER_GROUP) \<in> set (processed_events d)"

lemma keeps_marked_persist_all: "keeps (marked i) (persist_all eps m t p)"
  by (induction eps m t p rule: persist_all.induct)
    (auto simp: insert_delivery_def marked_def Let_def intro!: keeps_rules split: if_splits)

lemma keeps_marked_dispatch: "keeps (marked i) (persist_and_dispatch event)"
  unfolding persist_and_dispatch_def Let_def
  by (intro keeps_rules keeps_marked_persist_all)

lemma mark_processed_result:
  "mark_processed i t d = Inr (n, d') \<Longrightarrow> n = (if marked i d then 0 else 1) \<and> (marked i d \<longrightarrow> d' = d) \<and> marked i d'"
  by (auto simp: mark_processed_def marked_def split: if_splits)

lemma process_message_marks:
  assumes "process_message i payload w = (x, w')" and "tx_now w = None"
  shows "tx_now w' = None \<and> (wdb w' = wdb w \<or> marked i (wdb w')) \<and>
    (marked i (wdb w) \<longrightarrow> wdb w' = wdb w \<and> (\<forall>b. x = Inr b \<longrightarrow> b))"
proof -
  obtain y v where y: "sql (mark_processed i) w = (y, v)" by fastforce
  note r = sql_result [OF y]
  show ?thesis
  proof (cases y)
    case (Inl e)
    then show ?thesis using assms y r by (auto simp: process_message_def and_then_def)
  next
    case (Inr n)
    show ?thesis
    proof (cases "marked i (wdb w)")
      case True
      then have "n = 0 \<and> wdb v = wdb w" using r Inr by (auto dest: mark_processed_result)
      then show ?thesis using assms y Inr r by (auto simp: process_message_def and_then_def ok_def)
    next
      case False
      then have n: "n = 1" and m: "marked i (wdb v)" using r Inr by (auto dest: mark_processed_result)
      let ?rest = "and_then (read_lib (\<lambda>l. (json_parse l payload, json_error l))) (\<lambda>(parsed, e).
          and_then (ok_or (Internal e) parsed) (\<lambda>event.
          and_then (persist_and_dispatch event) (\<lambda>_. ok False)))"
      have "keeps (marked i) ?rest" by (intro keeps_rules keeps_marked_dispatch)
      moreover have "?rest v = (x, w')" using assms(1) y Inr n by (simp add: process_message_def and_then_def)
      ultimately show ?thesis using m False r assms(2) keepsD [of "marked i" ?rest v x w'] by auto
    qed
  qed
qed

text \<open>
  C22. An event takes effect at most once: if processing a message changed the database at all, then
  processing it again, after whatever else was processed, changes nothing and reports it as a
  duplicate. This holds too when the first attempt failed half-way, so such an event is lost.
\<close>

theorem event_takes_effect_once:
  assumes "process_message i payload w = (x, w1)" and "tx_now w = None" and "wdb w1 \<noteq> wdb w"
    and "set (processed_events (wdb w1)) \<subseteq> set (processed_events (wdb w2))" and "tx_now w2 = None"
    and "process_message i payload' w2 = (y, w3)"
  shows "wdb w3 = wdb w2 \<and> (\<forall>b. y = Inr b \<longrightarrow> b)"
proof -
  have "marked i (wdb w1)" using process_message_marks [OF assms(1,2)] assms(3) by simp
  then have "marked i (wdb w2)" using assms(4) by (auto simp: marked_def)
  then show ?thesis using process_message_marks [OF assms(6,5)] by blast
qed

text \<open>A message that is not JSON: it fails, and stays marked.\<close>

theorem event_takes_effect_once_witness:
  "let w = sample_world (empty_database documented_schema); (x, w1) = process_message ''t-0-7'' ''{'' w;
       (y, w3) = process_message ''t-0-7'' ''{'' w1
   in isl x \<and> wdb w1 \<noteq> wdb w \<and> wdb w3 = wdb w1"
proof -
  let ?w = "sample_world (empty_database documented_schema)"
  obtain x w1 where p: "process_message ''t-0-7'' ''{'' ?w = (x, w1)" by fastforce
  obtain y w3 where q: "process_message ''t-0-7'' ''{'' w1 = (y, w3)" by fastforce
  have "isl x \<and> processed_events (wdb w1) \<noteq> [] \<and> tx_now w1 = None"
    using p by (auto simp: process_message_def mark_processed_def run_defs sample_lib_def cong: lazy_congs)
  moreover from this have "wdb w1 \<noteq> wdb ?w" by (auto simp: sample_world_def empty_database_def)
  ultimately show ?thesis using event_takes_effect_once [OF p _ _ _ _ q] p q
    by (simp add: Let_def sample_world_def)
qed

section \<open>Events of the payment service\<close>

text \<open>
  C23. The payloads the payment service puts in the outbox carry no ''event_type'', by which the
  dispatcher selects the endpoints: unless an endpoint subscribes to the empty name, no payment
  or refund event ever becomes a delivery.
\<close>

theorem payment_events_reach_no_endpoint:
  assumes "event = payment_event_json p i t l \<or> event = refund_event_json r i t l"
    and "\<forall>ep \<in> set (webhook_endpoints (wdb w)). [] \<notin> set (we_events ep)"
    and "persist_and_dispatch event w = (x, w')" and "tx_now w = None"
  shows "wdb w' = wdb w"
proof -
  have e: "str_or (jget event ''event_type'') [] = []"
    using assms(1) by (auto simp: payment_event_json_def refund_event_json_def str_or_def)
  have f: "filter (subscribed m []) (webhook_endpoints (wdb w)) = []" for m
    using assms(2) by (auto simp: subscribed_def filter_empty_conv)
  show ?thesis using assms(3,4) e f
    by (auto simp: persist_and_dispatch_def and_then_def read_lib_def ok_or_def ok_def err_def Let_def select_stmt_def
      split: option.splits prod.splits sum.splits if_splits dest!: sql_result)
qed

theorem payment_events_reach_no_endpoint_witness:
  "let d = (empty_database documented_schema)\<lparr>merchants := [sample_merchant], webhook_endpoints :=
         [\<lparr>we_id = 3, we_merchant_id = 7, we_url = ''http://m'', we_secret_enc = ''s'', we_events = [''payment.captured''],
           we_is_active = True, we_created_at = 0, we_updated_at = 0\<rparr>]\<rparr>
   in webhook_deliveries (wdb (snd (persist_and_dispatch
     (payment_event_json (row_to_payment sample_payment_row) 5 0 sample_lib) (sample_world d)))) = []"
  unfolding Let_def
  by (subst payment_events_reach_no_endpoint [OF _ _ prod.collapse [symmetric]])
    (auto simp: sample_world_def empty_database_def)

section \<open>One delivery\<close>

lemma set_deliveries_sel [simp]:
  "webhook_deliveries (set_deliveries P f d) = upd_where P f (webhook_deliveries d)"
  "webhook_endpoints (set_deliveries P f d) = webhook_endpoints d"
  "db_schema (set_deliveries P f d) = db_schema d"
  by (simp_all add: set_deliveries_def)

text \<open>What the request of an attempt looks like, whatever becomes of the attempt.\<close>

lemma handle_failure_log:
  "handle_failure g i m a s e w = (x, w') \<Longrightarrow> http_log w' = http_log w"
  by (auto simp: handle_failure_def and_then_def utc_now_def Let_def split: if_splits dest!: sql_result)

lemma deliver_log:
  assumes "deliver g wd ep w = (x, w')"
  shows "http_log w' = http_log w \<or> (\<exists>t. http_log w' = http_log w @
    [\<lparr>hr_method = ''POST'', hr_url = we_url ep,
      hr_headers = delivery_headers (wlib w) (build_webhook_signature (wlib w) (we_secret_enc ep)
        (json_print (wlib w) (wd_payload wd)) (timestamp (clock_src w t))) wd (timestamp (clock_src w t)),
      hr_body = JStr (json_print (wlib w) (wd_payload wd))\<rparr>])"
proof -
  define v where "v = w\<lparr>clock_next := Suc (clock_next w)\<rparr>"
  let ?t = "timestamp (clock_src w (clock_next w))"
  let ?s = "json_print (wlib w) (wd_payload wd)"
  let ?q = "\<lparr>hr_method = ''POST'', hr_url = we_url ep,
      hr_headers = delivery_headers (wlib w) (build_webhook_signature (wlib w) (we_secret_enc ep) ?s ?t) wd ?t,
      hr_body = JStr ?s\<rparr>"
  have lib: "wlib v = wlib w" by (simp add: v_def)
  obtain y u where y: "sql (count_attempt_stmt (wd_id wd)) v = (y, u)" by fastforce
  have u: "http_log u = http_log w" using sql_result [OF y] by (simp add: v_def)
  show ?thesis
  proof (cases y)
    case (Inl e)
    then show ?thesis using assms y u
      by (simp add: deliver_def and_then_def read_lib_def utc_now_def Let_def v_def [symmetric])
  next
    case (Inr n)
    then have "http_log w' = http_log u @ [?q]"
      using assms y
      by (auto simp: deliver_def and_then_def read_lib_def utc_now_def Let_def v_def [symmetric] lib post_def http_send_def
          ok_or_def ok_def err_def split: http_outcome.splits if_splits option.splits prod.splits sum.splits
          dest!: sql_result handle_failure_log)
    then show ?thesis using u by auto
  qed
qed


definition sample_delivery :: webhook_delivery where
  "sample_delivery = \<lparr>wd_id = 4, wd_endpoint_id = 3, wd_merchant_id = 7, wd_event_type = ''payment.captured'',
     wd_payload = JNull, wd_attempt_count = 0, wd_max_attempts = 10, wd_status = DeliveryProcessing,
     wd_last_http_status = None, wd_last_error = None, wd_next_retry_at = Some 0,
     wd_processing_started_at = Some 0, wd_dead_lettered_at = None, wd_updated_at = 0\<rparr>"

definition sample_endpoint :: webhook_endpoint where
  "sample_endpoint = \<lparr>we_id = 3, we_merchant_id = 7, we_url = ''http://m'', we_secret_enc = ''s'',
     we_events = [''payment.captured''], we_is_active = True, we_created_at = 0, we_updated_at = 0\<rparr>"

definition delivery_world :: "schema \<Rightarrow> webhook_delivery \<Rightarrow> http_outcome \<Rightarrow> world" where
  "delivery_world sch wd answer = (sample_world ((empty_database sch)\<lparr>merchants := [sample_merchant],
     webhook_endpoints := [sample_endpoint], webhook_deliveries := [wd]\<rparr>))
       \<lparr>wlib := sample_lib, clock_src := \<lambda>n. 0, http_src := \<lambda>n q. answer\<rparr>"

lemmas delivery_defs = deliver_def count_attempt_stmt_def set_deliveries_def handle_failure_def dead_letter_stmt_def
  success_row_def retry_row_def dead_letter_def post_def is_success_def


end
