(* ===== verification/Webhook_Retry.thy ===== *)
theory Webhook_Retry
  imports Webhook
begin

text \<open>
  What the retries of \<open>crates/webhook-service/src/retry_scheduler.rs\<close> come to: the bounds of the
  back-off delay, and what a failed attempt leaves behind.
\<close>

section \<open>The delay\<close>

text \<open>The random draw lies in the range it is asked for.\<close>

definition draws_in_range :: "(f64 \<Rightarrow> f64 \<Rightarrow> f64) \<Rightarrow> bool" where
  "draws_in_range g \<longleftrightarrow> (\<forall>lo hi. f64_le lo hi \<longrightarrow> f64_le lo (g lo hi) \<and> f64_le (g lo hi) hi)"

definition nominal_delay :: "i32 \<Rightarrow> int" where
  "nominal_delay attempt = (if attempt \<le> 12 then 2 ^ nat (attempt - 1) else 3600)"

lemma jittered_between:
  assumes "f64_le (FNum b E) j" and "f64_le j (FNum b' E)" and a: "f64_le (FNum a E) (FNum m e)" "f64_le (FNum m e) (FNum a E)"
    and "f64_le (FNum lo 0) (FNum (a + b) E)" and "f64_le (FNum (a + b') E) (FNum hi 0)" and "0 \<le> lo" "hi < 2 ^ 53" "1 \<le> hi" "lo \<le> hi"
  shows "max 1 lo \<le> f64_to_i64 (f64_max (f64_add (FNum m e) j) (FNum 1 0)) \<and>
     f64_to_i64 (f64_max (f64_add (FNum m e) j) (FNum 1 0)) \<le> hi"
proof -
  from assms(1,2) obtain n d where j: "j = FNum n d" by (cases j) auto
  let ?x = "f64_add (FNum m e) j"
  have ge: "f64_le (FNum lo 0) ?x"
    unfolding j by (rule f64_add_ge [OF a(1) _ assms(5)]) (use j assms in \<open>simp_all del: f64_le.simps\<close>)
  have le: "f64_le ?x (FNum hi 0)"
    unfolding j by (rule f64_add_le [OF a(2) _ assms(6)]) (use j assms in \<open>simp_all del: f64_le.simps\<close>)
  from ge le obtain k p where x: "?x = FNum k p" by (cases ?x) auto
  have one: "f64_to_i64 (FNum 1 0) = 1" by (simp add: f64_to_i64_def clamp_def f64_trunc_def)
  show ?thesis
  proof (cases "f64_le (FNum k p) (FNum 1 0)")
    case True
    have "f64_le (FNum lo 0) (FNum 1 0)" using ge True unfolding x by (rule f64_le_trans_num)
    then have "lo \<le> 1" by simp
    then show ?thesis using True one assms by (simp add: f64_max_def x)
  next
    case False
    then have "f64_le (FNum 1 0) (FNum k p)" using f64_le_linear by blast
    then have "1 \<le> f64_to_i64 (FNum k p)"
      using f64_cast_between [of 1 k p hi] le assms(8) by (simp add: x del: f64_le.simps)
    moreover have "f64_max (FNum k p) (FNum 1 0) = FNum k p" using False by (simp add: f64_max_def)
    ultimately show ?thesis using f64_cast_between [of lo k p hi] ge le assms(7,8) by (simp add: x del: f64_le.simps)
  qed
qed

text \<open>The capped delay before attempt \<open>n + 2\<close>, and the range of its jitter.\<close>

lemma capped_delay_small:
  assumes "n < 12"
  shows "capped_delay (1 + int n) = FNum 1 (int n)"
proof -
  have "powi2 (int n) = FNum 1 (int n)"
    using assms by (simp add: powi2_def f64_round_def f64_shift_def bitlen_rec)
  moreover have "(2::int) ^ n \<le> 3600"
    using power_increasing [of n 11 "2::int"] assms by simp
  ultimately show ?thesis
    using assms by (simp add: capped_delay_def BASE_DELAY_SECONDS_def MAX_DELAY_SECONDS_def f64_min_def f64_round_def f64_shift_def bitlen_rec)
qed

lemma capped_delay_large:
  assumes "12 \<le> n"
  shows "capped_delay (1 + int n) = FNum 3600 0"
proof (cases "n < 1024")
  case True
  then have p: "powi2 (int n) = FNum 1 (int n)"
    by (simp add: powi2_def f64_round_def f64_shift_def bitlen_rec)
  have "(3600::int) < 2 ^ n" using power_increasing [of 12 n "2::int"] assms by simp
  then show ?thesis using True
    by (simp add: capped_delay_def p BASE_DELAY_SECONDS_def MAX_DELAY_SECONDS_def f64_min_def f64_round_def f64_shift_def bitlen_rec)
next
  case False
  then show ?thesis
    by (simp add: capped_delay_def powi2_def BASE_DELAY_SECONDS_def MAX_DELAY_SECONDS_def f64_min_def)
qed

lemma jitter_small:
  assumes "n < 12"
  shows "f64_mul neg_jitter_fraction (FNum 1 (int n)) = FNum (- 3602879701896397) (int n - 54)"
    and "f64_mul JITTER_FRACTION (FNum 1 (int n)) = FNum 3602879701896397 (int n - 54)"
  using assms by (simp_all add: neg_jitter_fraction_def JITTER_FRACTION_def f64_round_def f64_shift_def bitlen_rec)

lemma jitter_large:
  "f64_mul neg_jitter_fraction (FNum 3600 0) = FNum (- 6333186975989760) (- 43)"
  "f64_mul JITTER_FRACTION (FNum 3600 0) = FNum 6333186975989760 (- 43)"
  by (simp_all add: neg_jitter_fraction_def JITTER_FRACTION_def f64_round_def f64_shift_def bitlen_rec round_shift_def)

lemma jitter_table: "list_all (\<lambda>n. (4 * 2 ^ n div 5) * 2 ^ (54 - n) \<le> (2 ^ 54 - 3602879701896397 :: int) \<and>
    (2 ^ 54 + 3602879701896397 :: int) \<le> ((6 * 2 ^ n + 4) div 5) * 2 ^ (54 - n)) [0..<12]"
  by (simp add: upt_rec)

lemma jitter_window:
  assumes "n < 12"
  shows "(4 * 2 ^ n div 5) * 2 ^ (54 - n) \<le> (2 ^ 54 - 3602879701896397 :: int)"
    and "(2 ^ 54 + 3602879701896397 :: int) \<le> ((6 * 2 ^ n + 4) div 5) * 2 ^ (54 - n)"
  using jitter_table assms unfolding list_all_iff set_upt by (metis atLeastLessThan_iff zero_le)+

text \<open>
  C27. Back-off: the delay before the next attempt is the doubled base, capped at an hour, give or
  take a fifth, and never less than a second.
\<close>

theorem retry_delay_bounds:
  assumes "draws_in_range g" and "1 \<le> attempt"
  shows "max 1 (4 * nominal_delay attempt div 5) \<le> retry_delay g attempt \<and>
    retry_delay g attempt \<le> (6 * nominal_delay attempt + 4) div 5"
proof -
  define n where "n = nat (attempt - 1)"
  have at: "attempt = 1 + int n" using assms(2) by (simp add: n_def)
  let ?lo = "f64_mul neg_jitter_fraction (capped_delay attempt)"
  let ?hi = "f64_mul JITTER_FRACTION (capped_delay attempt)"
  note r = assms(1) [unfolded draws_in_range_def, rule_format, of ?lo ?hi]
  show ?thesis
  proof (cases "n < 12")
    case True
    note c = capped_delay_small [OF True, folded at]
    have nom: "nominal_delay attempt = 2 ^ n" using True by (simp add: nominal_delay_def at)
    have "2 ^ n \<le> (2::int) ^ 11" using True by (intro power_increasing) auto
    then have small: "(6 * 2 ^ n + 4) div 5 < (2::int) ^ 53" by simp
    have pos: "1 \<le> (2::int) ^ n" by simp
    have order: "4 * 2 ^ n div 5 \<le> (6 * 2 ^ n + 4) div (5::int)" by (intro zdiv_mono1) (use pos in linarith)+
    have one: "1 \<le> (6 * 2 ^ n + 4) div (5::int)" using pos by linarith
    let ?E = "int n - 54"
    have E: "?E \<le> int n" "?E \<le> 0" "?E \<le> ?E" "nat (int n - ?E) = 54" "nat (0 - ?E) = 54 - n" "nat (?E - ?E) = 0"
      using True by simp_all
    have unit: "f64_le (FNum (2 ^ 54) ?E) (FNum 1 (int n))" "f64_le (FNum 1 (int n)) (FNum (2 ^ 54) ?E)"
      unfolding f64_le_common [OF E(1,3)] f64_le_common [OF E(3,1)] E by simp_all
    have window: "f64_le (FNum (4 * 2 ^ n div 5) 0) (FNum (2 ^ 54 + - 3602879701896397) ?E)"
      "f64_le (FNum (2 ^ 54 + 3602879701896397) ?E) (FNum ((6 * 2 ^ n + 4) div 5) 0)"
      unfolding f64_le_common [OF E(2,3)] f64_le_common [OF E(3,2)] E using jitter_window [OF True] by simp_all
    have nn: "0 \<le> 4 * 2 ^ n div (5::int)" using pos by linarith
    have "f64_le ?lo ?hi" using True by (simp add: c jitter_small)
    from r [OF this] have "f64_le (FNum (- 3602879701896397) (int n - 54)) (g ?lo ?hi)"
      and "f64_le (g ?lo ?hi) (FNum 3602879701896397 (int n - 54))"
      using True by (simp_all add: c jitter_small del: f64_le.simps)
    from jittered_between [OF this unit window nn small one order]
    show ?thesis by (simp only: retry_delay_def c nom Let_def)
  next
    case False
    note c = capped_delay_large [of n, folded at]
    have nom: "nominal_delay attempt = 3600" using False by (simp add: nominal_delay_def at)
    have "f64_le ?lo ?hi" using False by (simp add: c jitter_large)
    from r [OF this] have "f64_le (FNum (- 6333186975989760) (- 43)) (g ?lo ?hi)"
      and "f64_le (g ?lo ?hi) (FNum 6333186975989760 (- 43))"
      using False by (simp_all add: c jitter_large del: f64_le.simps)
    from jittered_between [OF this, of "3600 * 2 ^ 43" 3600 0 2880 4320]
    have "max 1 2880 \<le> f64_to_i64 (f64_max (f64_add (FNum 3600 0) (g ?lo ?hi)) (FNum 1 0)) \<and>
      f64_to_i64 (f64_max (f64_add (FNum 3600 0) (g ?lo ?hi)) (FNum 1 0)) \<le> 4320" by simp
    then show ?thesis using False by (simp add: retry_delay_def c nom Let_def)
  qed
qed

theorem retry_delay_bounds_witness:
  "retry_delay (\<lambda>lo hi. lo) 5 \<in> {12..20}"
proof -
  have refl: "f64_le lo lo" if "f64_le lo hi" for lo hi using that by (cases lo) simp_all
  have "draws_in_range (\<lambda>lo hi. lo)" unfolding draws_in_range_def by (blast intro: refl)
  from retry_delay_bounds [OF this, of 5] show ?thesis by (simp add: nominal_delay_def)
qed

section \<open>Failed attempts\<close>

definition refusing :: "world \<Rightarrow> bool" where
  "refusing w \<longleftrightarrow> (\<forall>n q. case http_src w n q of SendError e \<Rightarrow> True | Response st b \<Rightarrow> \<not> is_success st)"

text \<open>
  A failed attempt keeps every property of the database that counting an attempt and handling a
  failure keep.
\<close>

lemma failed_deliver_keeps:
  assumes "deliver g wd ep w = (x, w')" and "refusing w" and "P (wdb w)"
    and count: "\<And>t d d'. \<lbrakk>P d; count_attempt_stmt (wd_id wd) t d = Inr ((), d')\<rbrakk> \<Longrightarrow> P d'"
    and failure: "\<And>s e u y u'. \<lbrakk>P (wdb u); handle_failure g (wd_id wd) (wd_max_attempts wd) (wrap32 (wd_attempt_count wd + 1)) s e u = (y, u')\<rbrakk>
      \<Longrightarrow> P (wdb u')"
  shows "P (wdb w')"
proof -
  define v where "v = w\<lparr>clock_next := Suc (clock_next w)\<rparr>"
  have v: "wdb v = wdb w" "http_src v = http_src w" by (simp_all add: v_def)
  obtain y u where y: "sql (count_attempt_stmt (wd_id wd)) v = (y, u)" by fastforce
  show ?thesis
  proof (cases y)
    case (Inl e)
    then have "wdb w' = wdb u"
      using assms(1) y by (simp add: deliver_def and_then_def read_lib_def utc_now_def Let_def v_def [symmetric])
    then show ?thesis using assms(3) v sql_result [OF y] Inl by simp
  next
    case (Inr n)
    then have pu: "P (wdb u)" using count assms(3) v sql_result [OF y] by auto
    have hu: "http_src u = http_src w" using sql_http_src [OF y] v by simp
    have r: "case http_src w n q of SendError e \<Rightarrow> True | Response st b \<Rightarrow> \<not> is_success st" for n q
      using assms(2) by (simp add: refusing_def)
    define q where "q = \<lparr>hr_method = ''POST'', hr_url = we_url ep,
      hr_headers = delivery_headers (wlib w) (build_webhook_signature (wlib w) (we_secret_enc ep)
        (json_print (wlib w) (wd_payload wd)) (timestamp (clock_src w (clock_next w)))) wd (timestamp (clock_src w (clock_next w))),
      hr_body = JStr (json_print (wlib w) (wd_payload wd))\<rparr>"
    have lib: "wlib v = wlib w" by (simp add: v_def)
    show ?thesis
    proof (cases "http_src w (length (http_log u)) q")
      case (SendError e)
      then have "handle_failure g (wd_id wd) (wd_max_attempts wd) (wrap32 (wd_attempt_count wd + 1)) 0 e
          (u\<lparr>http_log := http_log u @ [q]\<rparr>) = (x, w')"
        using assms(1) y Inr
        by (simp add: deliver_def and_then_def read_lib_def utc_now_def Let_def v_def [symmetric] lib post_def
            http_send_def q_def [symmetric] hu)
      then show ?thesis using failure pu by (metis world.select_convs(1) world.surjective world.update_convs(11))
    next
      case (Response st b)
      then have "\<not> is_success st" using r [of "length (http_log u)" q] by simp
      then show ?thesis
        using assms(1) y Inr Response pu
        by (auto simp: deliver_def and_then_def read_lib_def utc_now_def Let_def v_def [symmetric] lib post_def
            http_send_def q_def [symmetric] hu ok_or_def ok_def err_def
            split: option.splits dest: failure [rotated])
    qed
  qed
qed

text \<open>The row of a delivery, as the scheduler left it when it took it.\<close>

definition in_progress :: "uuid \<Rightarrow> time \<Rightarrow> database \<Rightarrow> bool" where
  "in_progress i s d \<longleftrightarrow> (\<forall>q \<in> set (webhook_deliveries d). wd_id q = i \<longrightarrow>
     wd_status q = DeliveryProcessing \<and> wd_processing_started_at q = Some s)"

lemma in_progress_update:
  "\<lbrakk>in_progress i s d; \<And>q. wd_id (f q) = wd_id q; \<And>q. wd_status (f q) = wd_status q;
    \<And>q. wd_processing_started_at (f q) = wd_processing_started_at q\<rbrakk> \<Longrightarrow> in_progress i s (set_deliveries P f d)"
  by (auto simp: in_progress_def in_upd_where)

lemma count_in_progress:
  "\<lbrakk>in_progress i s d; count_attempt_stmt j t d = Inr ((), d')\<rbrakk> \<Longrightarrow> in_progress i s d'"
  by (auto simp: count_attempt_stmt_def intro!: in_progress_update split: if_splits)

lemma sql_in_progress:
  assumes "sql f u = (y, u')" and "in_progress k s (wdb u)"
    and step: "\<And>t r d'. f t (wdb u) = Inr (r, d') \<Longrightarrow> in_progress k s d'"
  shows "in_progress k s (wdb u')"
proof (cases y)
  case (Inl e)
  then show ?thesis using sql_result [OF assms(1)] assms(2) by simp
next
  case (Inr r)
  then obtain t where "f t (wdb u) = Inr (r, wdb u')" using assms(1) by (auto elim: sql_InrE)
  then show ?thesis by (rule step)
qed

lemma failure_in_progress:
  assumes "handle_failure g i m a st e u = (y, u')" and "in_progress k s (wdb u)"
    and "a < m \<or> \<not> sch_dead_lettered_at (db_schema (wdb u))"
  shows "in_progress k s (wdb u')"
proof (cases "a < m")
  case True
  then obtain P n v where q: "sql (update_stmt (\<lambda>t. set_deliveries P (retry_row st e n t))) v = (y, u')"
      and v: "wdb v = wdb u"
    using assms(1) by (auto simp: handle_failure_def and_then_def utc_now_def Let_def)
  show ?thesis
    by (rule sql_in_progress [OF q]) (auto simp: v assms(2) update_stmt_def retry_row_def intro: in_progress_update)
next
  case False
  then have q: "sql (dead_letter_stmt i st e) u = (y, u')" using assms(1) by (simp add: handle_failure_def)
  show ?thesis
    by (rule sql_in_progress [OF q assms(2)]) (use False assms(3) in \<open>auto simp: dead_letter_stmt_def\<close>)
qed

lemma leased_not_claimed:
  assumes "in_progress i s d" and "release_deliveries now d = Inr ((), d1)" and "now \<le> s + delivery_lease"
    and "claim_deliveries t d1 = (wds, d2)"
  shows "i \<notin> wd_id ` set wds"
proof
  assume "i \<in> wd_id ` set wds"
  then obtain x where x: "x \<in> set wds" "wd_id x = i" by auto
  have d1: "d1 = set_deliveries (started_before (now - delivery_lease)) (released_delivery now) d"
    using assms(2) by (simp add: release_deliveries_def update_stmt_def)
  from deliveries.claim_returns [OF assms(4)] x obtain q where
    q: "q \<in> set (webhook_deliveries d1)" "deliverable d1 t q" "wd_id q = i" by fastforce
  from q(1) obtain p where p: "p \<in> set (webhook_deliveries d)"
    "q = (if started_before (now - delivery_lease) p then released_delivery now p else p)"
    by (auto simp: d1 in_upd_where)
  have "wd_id p = i" using p(2) q(3) by (auto simp: released_delivery_def split: if_splits)
  then have "wd_status p = DeliveryProcessing" "wd_processing_started_at p = Some s"
    using assms(1) p(1) by (auto simp: in_progress_def)
  then have "q = p" using p(2) assms(3) by (simp add: started_before_def)
  then show False using q(2) \<open>wd_status p = DeliveryProcessing\<close> by (simp add: deliverable_def)
qed

text \<open>
  C25. The computed back-off does not take effect: a failed attempt that is to be retried leaves its
  row ''processing'', so until its five-minute lease ends no scheduler takes it again, however soon
  \<open>next_retry_at\<close> is.
\<close>

theorem failed_delivery_waits_for_its_lease:
  assumes "deliver g wd ep w = (x, w')" and "refusing w" and "in_progress (wd_id wd) s (wdb w)"
    and "0 \<le> wd_attempt_count wd" and "wd_attempt_count wd + 1 < wd_max_attempts wd" and "wd_max_attempts wd \<le> 10"
    and "release_deliveries now (wdb w') = Inr ((), d1)" and "now \<le> s + delivery_lease"
    and "claim_deliveries t d1 = (wds, d2)"
  shows "wd_id wd \<notin> wd_id ` set wds"
proof -
  have "wrap32 (wd_attempt_count wd + 1) < wd_max_attempts wd" using assms(4-6) by (simp add: wrap32_small)
  then have "in_progress (wd_id wd) s (wdb w')"
    using failed_deliver_keeps [OF assms(1,2), of "in_progress (wd_id wd) s"] assms(3)
      count_in_progress failure_in_progress by blast
  then show ?thesis using assms(7-9) by (rule leased_not_claimed)
qed

theorem failed_delivery_waits_for_its_lease_witness:
  "let w' = snd (deliver (\<lambda>a b. a) sample_delivery sample_endpoint
         (delivery_world migrated_schema sample_delivery (SendError ''timeout'')));
       d1 = set_deliveries (started_before (time_secs 200 - delivery_lease)) (released_delivery (time_secs 200)) (wdb w')
   in 4 \<notin> wd_id ` set (fst (claim_deliveries (time_secs 200) d1))"
proof -
  let ?w = "delivery_world migrated_schema sample_delivery (SendError ''timeout'')"
  obtain x w' where d: "deliver (\<lambda>a b. a) sample_delivery sample_endpoint ?w = (x, w')" by fastforce
  let ?d1 = "set_deliveries (started_before (time_secs 200 - delivery_lease)) (released_delivery (time_secs 200)) (wdb w')"
  obtain wds d2 where c: "claim_deliveries (time_secs 200) ?d1 = (wds, d2)" by fastforce
  have pre: "refusing ?w" "in_progress (wd_id sample_delivery) 0 (wdb ?w)" "0 \<le> wd_attempt_count sample_delivery"
    "wd_attempt_count sample_delivery + 1 < wd_max_attempts sample_delivery" "wd_max_attempts sample_delivery \<le> 10"
    by (simp_all add: refusing_def in_progress_def delivery_world_def sample_delivery_def sample_world_def)
  have rel: "release_deliveries (time_secs 200) (wdb w') = Inr ((), ?d1)"
    by (simp add: release_deliveries_def update_stmt_def)
  have "time_secs 200 \<le> 0 + delivery_lease" by (simp add: delivery_lease_def time_secs_def)
  from failed_delivery_waits_for_its_lease [OF d pre rel this c] have "4 \<notin> wd_id ` set wds"
    by (simp add: sample_delivery_def)
  then show ?thesis unfolding d snd_conv Let_def c fst_conv .
qed

text \<open>A row that no attempt is left for, though it is neither delivered nor dead-lettered.\<close>

definition stuck :: "uuid \<Rightarrow> database \<Rightarrow> bool" where
  "stuck i d \<longleftrightarrow> (\<forall>q \<in> set (webhook_deliveries d). wd_id q = i \<longrightarrow>
     wd_max_attempts q \<le> wd_attempt_count q \<and> wd_status q \<noteq> DeliverySuccess \<and> wd_status q \<noteq> DeliveryDeadLettered)"

text \<open>The queue part of a sequence of scheduler rounds: what they claim, and the rows they leave.\<close>

fun queue_rounds :: "(time \<times> time) list \<Rightarrow> database \<Rightarrow> webhook_delivery list \<times> database" where
  "queue_rounds [] d = ([], d)"
| "queue_rounds ((now, t) # ts) d =
     (case claim_deliveries t (set_deliveries (started_before (now - delivery_lease)) (released_delivery now) d) of
        (wds, d') \<Rightarrow> (case queue_rounds ts d' of (rest, d'') \<Rightarrow> (wds @ rest, d'')))"

lemma stuck_update:
  "\<lbrakk>stuck i d; \<And>q. wd_id (f q) = wd_id q; \<And>q. wd_max_attempts (f q) = wd_max_attempts q;
    \<And>q. wd_attempt_count q \<le> wd_attempt_count (f q);
    \<And>q. wd_status (f q) \<noteq> DeliverySuccess \<and> wd_status (f q) \<noteq> DeliveryDeadLettered \<or> wd_status (f q) = wd_status q\<rbrakk>
   \<Longrightarrow> stuck i (set_deliveries P f d)"
  by (fastforce simp: stuck_def in_upd_where split: if_splits intro: order_trans)

lemma stuck_claim:
  assumes "stuck i d" and "claim_deliveries t d = (wds, d')"
  shows "i \<notin> wd_id ` set wds" and "stuck i d'"
proof -
  show "i \<notin> wd_id ` set wds"
    using deliveries.claim_returns [OF assms(2)] assms(1) by (fastforce simp: stuck_def deliverable_def)
  have "d' = set_deliveries (\<lambda>q. wd_id q \<in> wd_id ` set wds) (lease_delivery t) d"
    using deliveries.claim_leases [OF assms(2)] assms(2)
    by (auto simp: set_deliveries_def claim_deliveries_def Let_def)
  then show "stuck i d'" using assms(1) by (simp add: stuck_update)
qed

lemma stuck_rounds:
  "stuck i d \<Longrightarrow> queue_rounds ts d = (wds, d') \<Longrightarrow> i \<notin> wd_id ` set wds \<and> stuck i d'"
proof (induction ts d arbitrary: wds d' rule: queue_rounds.induct)
  case (2 now t ts d)
  let ?d1 = "set_deliveries (started_before (now - delivery_lease)) (released_delivery now) d"
  have s: "stuck i ?d1" using 2(2) by (intro stuck_update) (simp_all add: released_delivery_def)
  obtain ws d1 where c: "claim_deliveries t ?d1 = (ws, d1)" by fastforce
  obtain r d2 where q: "queue_rounds ts d1 = (r, d2)" by fastforce
  from stuck_claim [OF s c] 2(1) [OF c [symmetric] _ q] 2(3) c q show ?case by auto
qed simp

lemma count_stuck: "\<lbrakk>stuck i d; count_attempt_stmt j t d = Inr ((), d')\<rbrakk> \<Longrightarrow> stuck i d'"
  unfolding count_attempt_stmt_def by (simp split: if_splits) (erule subst, rule stuck_update; simp)

lemma last_count_stuck:
  assumes "count_attempt_stmt i t d = Inr ((), d')"
    and "\<And>q. q \<in> set (webhook_deliveries d) \<Longrightarrow> wd_id q = i \<Longrightarrow>
      wd_max_attempts q \<le> wd_attempt_count q + 1 \<and> wd_status q = DeliveryProcessing"
  shows "stuck i d'"
proof -
  have d': "d' = set_deliveries (\<lambda>q. wd_id q = i)
      (\<lambda>q. q\<lparr>wd_attempt_count := wd_attempt_count q + 1, wd_updated_at := t\<rparr>) d"
    using assms(1) by (simp add: count_attempt_stmt_def split: if_splits)
  show ?thesis unfolding stuck_def
  proof (intro ballI impI)
    fix q assume q: "q \<in> set (webhook_deliveries d')" "wd_id q = i"
    then obtain p where p: "p \<in> set (webhook_deliveries d)"
      "q = (if wd_id p = i then p\<lparr>wd_attempt_count := wd_attempt_count p + 1, wd_updated_at := t\<rparr> else p)"
      by (auto simp: d' in_upd_where)
    then have "wd_id p = i" using q(2) by (simp split: if_splits)
    with assms(2) [OF p(1)] p(2)
    show "wd_max_attempts q \<le> wd_attempt_count q \<and> wd_status q \<noteq> DeliverySuccess \<and> wd_status q \<noteq> DeliveryDeadLettered"
      by simp
  qed
qed

text \<open>
  C26. Against the migrated schema the last allowed attempt loses a delivery: if it fails, its row is
  left without an attempt to spend, neither delivered nor dead-lettered, and no later sequence of
  scheduler rounds takes it again.
\<close>

theorem exhausted_delivery_is_stuck:
  assumes "deliver g wd ep w = (x, w')" and "refusing w" and "\<not> sch_dead_lettered_at (db_schema (wdb w))"
    and "\<And>q. q \<in> set (webhook_deliveries (wdb w)) \<Longrightarrow> wd_id q = wd_id wd \<Longrightarrow> q = wd"
    and "wd_status wd = DeliveryProcessing" and "0 \<le> wd_attempt_count wd" and "wd_attempt_count wd < 1000"
    and "wd_max_attempts wd = wd_attempt_count wd + 1"
    and "webhook_deliveries (wdb w') \<noteq> webhook_deliveries (wdb w)"
    and "queue_rounds ts (wdb w') = (wds, d')"
  shows "wd_id wd \<notin> wd_id ` set wds \<and> stuck (wd_id wd) d'"
proof -
  let ?P = "\<lambda>d. db_schema d = db_schema (wdb w) \<and> (webhook_deliveries d = webhook_deliveries (wdb w) \<or> stuck (wd_id wd) d)"
  have last: "wrap32 (wd_attempt_count wd + 1) = wd_max_attempts wd" using assms(6-8) by (simp add: wrap32_small)
  have "?P (wdb w')"
  proof (rule failed_deliver_keeps [OF assms(1,2)])
    show "?P (wdb w)" by simp
  next
    fix t d d' assume P: "?P d" and c: "count_attempt_stmt (wd_id wd) t d = Inr ((), d')"
    have "stuck (wd_id wd) d'"
    proof (cases "stuck (wd_id wd) d")
      case True
      then show ?thesis using c by (rule count_stuck)
    next
      case False
      then have r: "webhook_deliveries d = webhook_deliveries (wdb w)" using P by simp
      show ?thesis
      proof (rule last_count_stuck [OF c])
        fix q assume "q \<in> set (webhook_deliveries d)" "wd_id q = wd_id wd"
        then have "q = wd" using r assms(4) by simp
        then show "wd_max_attempts q \<le> wd_attempt_count q + 1 \<and> wd_status q = DeliveryProcessing"
          using assms(5,8) by simp
      qed
    qed
    moreover have "db_schema d' = db_schema d" using c by (auto simp: count_attempt_stmt_def split: if_splits)
    ultimately show "?P d'" using P by simp
  next
    fix st e u y u'
    assume P: "?P (wdb u)"
      and h: "handle_failure g (wd_id wd) (wd_max_attempts wd) (wrap32 (wd_attempt_count wd + 1)) st e u = (y, u')"
    have "sql (dead_letter_stmt (wd_id wd) st e) u = (y, u')" using h by (simp add: handle_failure_def last)
    moreover have "dead_letter_stmt (wd_id wd) st e t (wdb u) = Inl NoSuchColumn" for t
      using P assms(3) by (simp add: dead_letter_stmt_def)
    ultimately have "wdb u' = wdb u" using sql_result by (cases y) fastforce+
    then show "?P (wdb u')" using P by simp
  qed
  then have "stuck (wd_id wd) (wdb w')" using assms(9) by simp
  from stuck_rounds [OF this assms(10)] show ?thesis .
qed

definition last_delivery :: webhook_delivery where
  "last_delivery = sample_delivery\<lparr>wd_attempt_count := 9\<rparr>"

theorem exhausted_delivery_is_stuck_witness:
  "let w' = snd (deliver (\<lambda>a b. a) last_delivery sample_endpoint
         (delivery_world migrated_schema last_delivery (SendError ''timeout'')))
   in 4 \<notin> wd_id ` set (fst (queue_rounds [(time_secs 1000, time_secs 1000), (time_secs 9000, time_secs 9000)] (wdb w')))"
proof -
  let ?w = "delivery_world migrated_schema last_delivery (SendError ''timeout'')"
  let ?ts = "[(time_secs 1000, time_secs 1000), (time_secs 9000, time_secs 9000)]"
  obtain x w' where d: "deliver (\<lambda>a b. a) last_delivery sample_endpoint ?w = (x, w')" by fastforce
  obtain wds d' where q: "queue_rounds ?ts (wdb w') = (wds, d')" by fastforce
  have ch: "webhook_deliveries (wdb w') \<noteq> webhook_deliveries (wdb ?w)"
    using d by (auto simp: delivery_defs run_defs delivery_world_def sample_delivery_def last_delivery_def wrap32_small migrated_schema_def cong: lazy_congs)
  have pre: "refusing ?w" "\<not> sch_dead_lettered_at (db_schema (wdb ?w))"
    by (simp_all add: refusing_def is_success_def delivery_world_def migrated_schema_def sample_world_def empty_database_def)
  have rows: "\<And>q. q \<in> set (webhook_deliveries (wdb ?w)) \<Longrightarrow> q = last_delivery"
    by (simp add: delivery_world_def sample_world_def)
  have cnt: "wd_status last_delivery = DeliveryProcessing" "0 \<le> wd_attempt_count last_delivery"
    "wd_attempt_count last_delivery < 1000" "wd_max_attempts last_delivery = wd_attempt_count last_delivery + 1"
    by (simp_all add: last_delivery_def sample_delivery_def)
  have "wd_id last_delivery \<notin> wd_id ` set wds \<and> stuck (wd_id last_delivery) d'"
    by (rule exhausted_delivery_is_stuck [OF d pre rows cnt ch q])
  then have "4 \<notin> wd_id ` set wds" by (simp add: last_delivery_def sample_delivery_def)
  then show ?thesis unfolding d snd_conv Let_def q fst_conv .
qed

section \<open>A panic in the middle of a round\<close>

lemma slice_inside_char:
  "\<lbrakk>500 < length s; 128 \<le> (of_char (s ! 500) :: nat); (of_char (s ! 500) :: nat) < 192\<rbrakk> \<Longrightarrow>
     slice_to s (min (length s) 500) = None"
  by (simp add: slice_to_def is_char_boundary_def min_def)

text \<open>
  C28. An endpoint can end a round of the scheduler for everybody: if it answers an error whose body
  has the middle of a character at byte 500, the attempt panics, and none of the deliveries claimed
  after it is attempted.
\<close>

theorem long_error_body_panics:
  assumes "deliver g wd ep w = (x, w')" and "http_log w' \<noteq> http_log w"
    and "\<And>n q. http_src w n q = Response st b" and "\<not> is_success st"
    and "500 < length (body_text (wlib w) b)"
    and "128 \<le> (of_char (body_text (wlib w) b ! 500) :: nat)" and "(of_char (body_text (wlib w) b ! 500) :: nat) < 192"
  shows "deliver_all g ((wd, ep) # rest) processed w = (Inl panicked, w')"
proof -
  define v where "v = w\<lparr>clock_next := Suc (clock_next w)\<rparr>"
  have v: "wlib v = wlib w" "http_src v = http_src w" "http_log v = http_log w" by (simp_all add: v_def)
  obtain y u where y: "sql (count_attempt_stmt (wd_id wd)) v = (y, u)" by fastforce
  note u = sql_result [OF y] sql_http_src [OF y]
  have "x = Inl panicked"
  proof (cases y)
    case (Inl e)
    then have "http_log w' = http_log w"
      using assms(1) y u v by (simp add: deliver_def and_then_def read_lib_def utc_now_def Let_def v_def [symmetric])
    then show ?thesis using assms(2) by simp
  next
    case (Inr n)
    then show ?thesis
      using assms(1) y u v slice_inside_char [OF assms(5-7)] assms(3,4)
      by (simp add: deliver_def and_then_def read_lib_def utc_now_def Let_def v_def [symmetric] post_def
          http_send_def ok_or_def err_def split: prod.splits sum.splits)
  qed
  then show ?thesis using assms(1) by (simp add: match_result_def err_def)
qed

definition long_error_lib :: lib where
  "long_error_lib = sample_lib\<lparr>body_text := \<lambda>b. replicate 600 (CHR 0xA9)\<rparr>"

theorem long_error_body_panics_witness:
  "fst (deliver_all (\<lambda>a b. a) [(sample_delivery, sample_endpoint), (sample_delivery\<lparr>wd_id := 5\<rparr>, sample_endpoint)] 0
     ((delivery_world documented_schema sample_delivery (Response 500 None))\<lparr>wlib := long_error_lib\<rparr>)) = Inl panicked"
proof -
  let ?w = "(delivery_world documented_schema sample_delivery (Response 500 None))\<lparr>wlib := long_error_lib\<rparr>"
  obtain x w' where d: "deliver (\<lambda>a b. a) sample_delivery sample_endpoint ?w = (x, w')" by fastforce
  have log: "http_log w' \<noteq> http_log ?w"
    using d by (auto simp: delivery_defs run_defs delivery_world_def sample_delivery_def long_error_lib_def
      slice_to_def is_char_boundary_def panicked_def cong: lazy_congs)
  have src: "http_src ?w n q = Response 500 None" for n q by (simp add: delivery_world_def)
  have st: "\<not> is_success 500" by (simp add: is_success_def)
  have b: "body_text (wlib ?w) None = replicate 600 (CHR 0xA9)" by (simp add: long_error_lib_def)
  have body: "500 < length (body_text (wlib ?w) None)" "128 \<le> (of_char (body_text (wlib ?w) None ! 500) :: nat)"
    "(of_char (body_text (wlib ?w) None ! 500) :: nat) < 192" unfolding b by simp_all
  show ?thesis unfolding long_error_body_panics [OF d log src st body] fst_conv ..
qed

end
