(* ===== verification/Webhook_Consumer.thy ===== *)
theory Webhook_Consumer
  imports Webhook_Retry
begin

text \<open>
  The receive loop of \<open>crates/webhook-service/src/consumer.rs\<close>. Kafka delivers the messages of a
  partition in order and keeps one committed offset for it; whether a commit is accepted is an
  argument, as is what the stream yields.
\<close>

section \<open>The loop\<close>

record kafka_message =
  km_topic :: string
  km_partition :: int
  km_offset :: int
  km_payload :: string

definition message_event_id :: "kafka_message \<Rightarrow> string" where
  "message_event_id msg = km_topic msg @ ''-'' @ show_int (km_partition msg) @ ''-'' @ show_int (km_offset msg)"

text \<open>An element of the stream is a message or an error, which is only logged. A message that fails
  is not committed; the loop goes on with the next.\<close>

definition receive ::
  "(kafka_message \<Rightarrow> bool) \<Rightarrow> kafka_message option \<Rightarrow> int option \<times> world \<Rightarrow> int option \<times> world" where
  "receive commit_accepted message s =
     (case message of
        None \<Rightarrow> s
      | Some msg \<Rightarrow> (case s of (committed, w) \<Rightarrow>
          (case process_message (message_event_id msg) (km_payload msg) w of
             (Inl e, w') \<Rightarrow> (committed, w')
           | (Inr skipped, w') \<Rightarrow>
               (if commit_accepted msg then Some (km_offset msg + 1) else committed, w'))))"

definition receive_all ::
  "(kafka_message \<Rightarrow> bool) \<Rightarrow> kafka_message option list \<Rightarrow> int option \<times> world \<Rightarrow> int option \<times> world" where
  "receive_all commit_accepted messages s = fold (receive commit_accepted) messages s"

section \<open>A failed message is passed over\<close>

text \<open>
  Not committing a failed message keeps it only until the next one: as soon as a later message of
  the partition is processed and its commit accepted, the committed offset lies beyond both.
\<close>

lemma failed_message_is_passed_over:
  assumes "process_message (message_event_id m) (km_payload m) w = (Inl e, w1)"
    and "process_message (message_event_id n) (km_payload n) w1 = (Inr b, w2)" and "commit_accepted n"
    and "km_offset m < km_offset n"
  shows "\<exists>c. fst (receive_all commit_accepted [Some m, Some n] (committed, w)) = Some c \<and> km_offset m < c"
  using assms by (simp add: receive_all_def receive_def)

text \<open>The committed offset never moves back while the stream yields rising offsets.\<close>

lemma receive_committed:
  "receive commit_accepted x (c, w) = (c', w') \<Longrightarrow>
     c' = c \<or> (\<exists>msg. x = Some msg \<and> c' = Some (km_offset msg + 1))"
  by (auto simp: receive_def split: option.splits prod.splits sum.splits if_splits)

lemma committed_offsets_rise:
  assumes "sorted (map km_offset msgs)" and "\<And>m. m \<in> set msgs \<Longrightarrow> (case c of None \<Rightarrow> True | Some k \<Rightarrow> k \<le> km_offset m + 1)"
    and "receive_all commit_accepted (map Some msgs) (c, w) = (c', w')"
  shows "c' = c \<or> (\<exists>k'. c' = Some k' \<and> (case c of None \<Rightarrow> True | Some k \<Rightarrow> k \<le> k'))"
  using assms
proof (induction msgs arbitrary: c w)
  case Nil
  then show ?case by (simp add: receive_all_def)
next
  case (Cons m ms)
  obtain c1 w1 where r: "receive commit_accepted (Some m) (c, w) = (c1, w1)" by fastforce
  then have rest: "receive_all commit_accepted (map Some ms) (c1, w1) = (c', w')"
    using Cons.prems(3) by (simp add: receive_all_def)
  from receive_committed [OF r] show ?case
  proof
    assume c1: "c1 = c"
    show ?thesis by (rule Cons.IH [OF _ _ rest [unfolded c1]]) (use Cons.prems in auto)
  next
    assume "\<exists>msg. Some m = Some msg \<and> c1 = Some (km_offset msg + 1)"
    then have c1: "c1 = Some (km_offset m + 1)" by simp
    have "c' = c1 \<or> (\<exists>k'. c' = Some k' \<and> (case c1 of None \<Rightarrow> True | Some k \<Rightarrow> k \<le> k'))"
      by (rule Cons.IH [OF _ _ rest]) (use Cons.prems(1) c1 in auto)
    then show ?thesis using c1 Cons.prems(2) [of m] by (auto split: option.splits)
  qed
qed

end
