(* ===== verification/Vault.thy ===== *)
theory Vault
  imports Payment_Handlers Evaluation
begin

text \<open>
  \<open>crates/vault-service/src\<close>: card tokenization (\<open>tokenizer.rs\<close>) and its handlers. Random
  bytes (the token, the nonce of the cipher) are arguments. The rule \<open>vault_no_update\<close> of
  migration 006 turns every UPDATE of \<open>vault_tokens\<close> into nothing.
\<close>

section \<open>Card numbers\<close>

definition detect_card_brand :: "string \<Rightarrow> string" where
  "detect_card_brand pan =
     (if starts_with pan ''4'' then ''visa''
      else if starts_with pan ''51'' \<or> starts_with pan ''52'' \<or> starts_with pan ''53'' \<or>
        starts_with pan ''54'' \<or> starts_with pan ''55'' then ''mastercard''
      else if starts_with pan ''34'' \<or> starts_with pan ''37'' then ''amex''
      else if starts_with pan ''60'' \<or> starts_with pan ''65'' then ''rupay''
      else ''unknown'')"

definition pan_digits :: "string \<Rightarrow> int list" where
  "pan_digits pan = map digit_val (filter is_digit pan)"

text \<open>The contribution of a digit, by its distance from the right end.\<close>

definition luhn_term :: "nat \<Rightarrow> int \<Rightarrow> int" where
  "luhn_term i d = (if i mod 2 = 1 then (let doubled = d * 2 in if doubled > 9 then doubled - 9 else doubled) else d)"

fun luhn_sum :: "nat \<Rightarrow> int list \<Rightarrow> int" where
  "luhn_sum i [] = 0"
| "luhn_sum i (d # ds) = luhn_term i d + luhn_sum (Suc i) ds"

definition luhn_check :: "string \<Rightarrow> bool" where
  "luhn_check pan =
     (let digits = pan_digits pan in
      if length digits < 13 \<or> length digits > 19 then False
      else luhn_sum 0 (rev digits) mod 10 = 0)"

section \<open>Tokens\<close>

record raw_card_data =
  rc_pan :: string
  rc_exp_month :: u8
  rc_exp_year :: u16
  rc_cvv :: string
  rc_cardholder_name :: "string option"

record vault_token =
  vk_token :: string
  vk_last4 :: string
  vk_brand :: string
  vk_exp_month :: u8
  vk_exp_year :: u16

definition generate_vault_token :: "lib \<Rightarrow> string \<Rightarrow> string" where
  "generate_vault_token l bytes = ''vt_'' @ hex_encode l bytes"

definition card_payload :: "lib \<Rightarrow> raw_card_data \<Rightarrow> json" where
  "card_payload l raw = JObj [(''pan'', JStr (rc_pan raw)), (''exp_month'', JNum (uint (rc_exp_month raw))),
     (''exp_year'', JNum (uint (rc_exp_year raw))), (''cvv_sha256'', JStr (sha256_hex l (rc_cvv raw))),
     (''name'', jopt JStr (rc_cardholder_name raw))]"

text \<open>\<open>fingerprint = $1 AND merchant_id = $2\<close>: no row has a merchant equal to NULL.\<close>

definition same_card :: "string \<Rightarrow> uuid option \<Rightarrow> vault_token_row \<Rightarrow> bool" where
  "same_card fingerprint merchant_id r \<longleftrightarrow> vt_fingerprint r = fingerprint \<and>
     vt_merchant_id r = merchant_id \<and> merchant_id \<noteq> None \<and> vt_is_active r"

definition find_token :: "string \<Rightarrow> uuid option \<Rightarrow> database \<Rightarrow> string option" where
  "find_token fingerprint merchant_id d =
     map_option vt_token (find (same_card fingerprint merchant_id) (vault_tokens d))"

text \<open>\<open>as i16\<close>.\<close>

definition wrap16 :: "int \<Rightarrow> int" where
  "wrap16 n = (n + 32768) mod 65536 - 32768"

definition new_token_row :: "string \<Rightarrow> string \<Rightarrow> string \<Rightarrow> string \<Rightarrow> string \<Rightarrow> raw_card_data \<Rightarrow> uuid option \<Rightarrow> vault_token_row" where
  "new_token_row token encrypted fingerprint last4 brand raw merchant_id =
     \<lparr>vt_token = token, vt_encrypted_data = encrypted, vt_fingerprint = fingerprint, vt_last4 = last4,
      vt_card_brand = brand, vt_exp_month = wrap16 (uint (rc_exp_month raw)),
      vt_exp_year = wrap16 (uint (rc_exp_year raw)), vt_merchant_id = merchant_id, vt_is_active = True,
      vt_last_used_at = None\<rparr>"

text \<open>
  The primary key, the partial unique index, the reference to the merchant, and the column
  \<open>card_brand\<close> of an enumeration type, whose value the statement binds as text.
\<close>

definition token_insertable :: "database \<Rightarrow> vault_token_row \<Rightarrow> bool" where
  "token_insertable d r \<longleftrightarrow> sch_text_enums (db_schema d) \<and> \<not> list_ex (\<lambda>q. vt_token q = vt_token r) (vault_tokens d) \<and>
     \<not> list_ex (same_card (vt_fingerprint r) (vt_merchant_id r)) (vault_tokens d) \<and>
     (case vt_merchant_id r of None \<Rightarrow> True | Some m \<Rightarrow> has_merchant d m)"

definition insert_token :: "vault_token_row \<Rightarrow> unit stmt" where
  "insert_token r = insert_stmt (\<lambda>now d.
     if token_insertable d r then Some (d\<lparr>vault_tokens := vault_tokens d @ [r]\<rparr>) else None)"

definition token_answer :: "string \<Rightarrow> string \<Rightarrow> string \<Rightarrow> raw_card_data \<Rightarrow> vault_token" where
  "token_answer token last4 brand raw = \<lparr>vk_token = token, vk_last4 = last4, vk_brand = brand,
     vk_exp_month = rc_exp_month raw, vk_exp_year = rc_exp_year raw\<rparr>"

definition tokenize ::
  "string \<Rightarrow> string \<Rightarrow> string \<Rightarrow> string \<Rightarrow> raw_card_data \<Rightarrow> uuid option \<Rightarrow> vault_token M" where
  "tokenize token_bytes nonce master_key hmac_key raw merchant_id =
     (if \<not> luhn_check (rc_pan raw) then err (Validation ''Invalid card number'')
      else and_then (ok_or panicked (slice_from (rc_pan raw) (length (rc_pan raw) - 4))) (\<lambda>last4.
      let brand = detect_card_brand (rc_pan raw) in
      and_then (read_lib (\<lambda>l. hmac_sha256 l hmac_key (rc_pan raw))) (\<lambda>fingerprint.
      and_then (sql (select_stmt (find_token fingerprint merchant_id))) (\<lambda>existing.
      case existing of
        Some token \<Rightarrow> ok (token_answer token last4 brand raw)
      | None \<Rightarrow>
          and_then (read_lib (\<lambda>l. generate_vault_token l token_bytes)) (\<lambda>token.
          and_then (read_lib (\<lambda>l. encrypt_aes256gcm l nonce master_key (json_print l (card_payload l raw)))) (\<lambda>sealed.
          and_then (of_result sealed) (\<lambda>encrypted.
          and_then (sql (insert_token (new_token_row token encrypted fingerprint last4 brand raw merchant_id))) (\<lambda>_.
          ok (token_answer token last4 brand raw)))))))))"

definition active_token :: "string \<Rightarrow> vault_token_row \<Rightarrow> bool" where
  "active_token token r \<longleftrightarrow> vt_token r = token \<and> vt_is_active r"

text \<open>\<open>UPDATE vault_tokens SET last_used_at = NOW()\<close> under the rule \<open>DO INSTEAD NOTHING\<close>.\<close>

definition touch_token :: "string \<Rightarrow> unit stmt" where
  "touch_token token = update_stmt (\<lambda>now d. d)"

definition detokenize :: "string \<Rightarrow> string \<Rightarrow> json M" where
  "detokenize master_key token =
     and_then (sql (select_stmt (\<lambda>d. map_option vt_encrypted_data (find (active_token token) (vault_tokens d))))) (\<lambda>found.
     and_then (ok_or (NotFound (''Token '' @ token @ '' not found or inactive'')) found) (\<lambda>encrypted.
     and_then (sql (touch_token token)) (\<lambda>_.
     and_then (read_lib (\<lambda>l. decrypt_aes256gcm l master_key encrypted)) (\<lambda>opened.
     and_then (of_result opened) (\<lambda>plaintext.
     and_then (read_lib (\<lambda>l. (json_parse l plaintext, json_error l))) (\<lambda>(data, e).
     ok_or (Serialization e) data))))))"

section \<open>Endpoints\<close>

record tokenize_card_request =
  tc_pan :: string
  tc_exp_month :: u8
  tc_exp_year :: u16
  tc_cvv :: string
  tc_cardholder_name :: "string option"
  tc_merchant_id :: "uuid option"

definition tokenize_card ::
  "string \<Rightarrow> string \<Rightarrow> string \<Rightarrow> string \<Rightarrow> tokenize_card_request \<Rightarrow> (nat \<times> vault_token api_response) M" where
  "tokenize_card token_bytes nonce master_key hmac_key req =
     and_then (tokenize token_bytes nonce master_key hmac_key
       \<lparr>rc_pan = tc_pan req, rc_exp_month = tc_exp_month req, rc_exp_year = tc_exp_year req, rc_cvv = tc_cvv req,
        rc_cardholder_name = tc_cardholder_name req\<rparr> (tc_merchant_id req)) (\<lambda>token.
     respond 200 token)"

definition detokenize_card :: "string \<Rightarrow> string \<Rightarrow> (nat \<times> json api_response) M" where
  "detokenize_card master_key token = and_then (detokenize master_key token) (\<lambda>data. respond 200 data)"

section \<open>Typing errors in a card number\<close>

lemma digit_val_range: "is_digit c \<Longrightarrow> 0 \<le> digit_val c \<and> digit_val c \<le> 9"
  by (auto simp: is_digit_def digit_val_def)

lemma digit_val_inject: "\<lbrakk>is_digit c; is_digit d\<rbrakk> \<Longrightarrow> digit_val c = digit_val d \<longleftrightarrow> c = d"
  by (auto simp: is_digit_def digit_val_def)

lemma luhn_sum_append: "luhn_sum i (xs @ ys) = luhn_sum i xs + luhn_sum (i + length xs) ys"
  by (induction xs arbitrary: i) simp_all

text \<open>
  The contribution of a position determines the digit modulo ten, and of two neighbouring
  positions the order of the digits: checked for the ten digits and both parities.
\<close>

lemma luhn_term_parity: "luhn_term i = luhn_term (i mod 2)" "luhn_term (Suc i) = luhn_term (1 - i mod 2)"
  by (auto simp: luhn_term_def fun_eq_iff mod_Suc)

lemma in_digits: "\<lbrakk>0 \<le> (d :: int); d \<le> 9\<rbrakk> \<Longrightarrow> d \<in> set [0..9]"
  by simp

lemma luhn_term_table:
  "list_all (\<lambda>i. list_all (\<lambda>c. list_all (\<lambda>d. luhn_term i c mod 10 = luhn_term i d mod 10 \<longrightarrow> c = d) [0..9]) [0..9]) [0, 1]"
  by code_simp

lemma luhn_swap_table:
  "list_all (\<lambda>i. list_all (\<lambda>c. list_all (\<lambda>d.
     (luhn_term i c + luhn_term (1 - i) d) mod 10 = (luhn_term i d + luhn_term (1 - i) c) mod 10 \<longrightarrow>
       c = d \<or> (c, d) = (0, 9) \<or> (c, d) = (9, 0)) [0..9]) [0..9]) [0, 1]"
  by code_simp

lemma luhn_term_mod_inject:
  assumes "0 \<le> c" "c \<le> 9" "0 \<le> d" "d \<le> 9" and "luhn_term i c mod 10 = luhn_term i d mod 10"
  shows "c = d"
proof -
  have "i mod 2 \<in> set [0, 1]" by auto
  with luhn_term_table in_digits [OF assms(1,2)] in_digits [OF assms(3,4)] assms(5) luhn_term_parity(1) [of i]
  show ?thesis unfolding list_all_iff by metis
qed

lemma luhn_swap_mod:
  assumes "0 \<le> c" "c \<le> 9" "0 \<le> d" "d \<le> 9"
    and "(luhn_term i c + luhn_term (Suc i) d) mod 10 = (luhn_term i d + luhn_term (Suc i) c) mod 10"
  shows "c = d \<or> (c, d) = (0, 9) \<or> (c, d) = (9, 0)"
proof -
  have "i mod 2 \<in> set [0, 1]" by auto
  moreover have "(luhn_term (i mod 2) c + luhn_term (1 - i mod 2) d) mod 10 = (luhn_term (i mod 2) d + luhn_term (1 - i mod 2) c) mod 10"
    using assms(5) luhn_term_parity [of i] by simp
  ultimately show ?thesis
    using luhn_swap_table in_digits [OF assms(1,2)] in_digits [OF assms(3,4)] unfolding list_all_iff by blast
qed

lemma pan_digits_append: "pan_digits (s @ t) = pan_digits s @ pan_digits t"
  by (simp add: pan_digits_def)

lemma pan_digits_Cons: "is_digit c \<Longrightarrow> pan_digits (c # s) = digit_val c # pan_digits s"
  by (simp add: pan_digits_def)

lemma mod_10_cancel:
  "(a + b) mod 10 = (a + c) mod 10 \<Longrightarrow> b mod 10 = c mod (10 :: int)"
  "(b + a) mod 10 = (c + a) mod 10 \<Longrightarrow> b mod 10 = c mod (10 :: int)"
  by (simp_all add: mod_eq_dvd_iff)

lemma luhn_check_split:
  assumes "luhn_check (a @ u @ b)" and "luhn_check (a @ v @ b)" and "length (pan_digits u) = length (pan_digits v)"
  shows "luhn_sum (length (pan_digits b)) (rev (pan_digits u)) mod 10 = luhn_sum (length (pan_digits b)) (rev (pan_digits v)) mod 10"
proof -
  let ?n = "length (pan_digits b)"
  let ?r = "luhn_sum 0 (rev (pan_digits b)) + luhn_sum (?n + length (pan_digits u)) (rev (pan_digits a))"
  have "(?r + luhn_sum ?n (rev (pan_digits u))) mod 10 = 0" "(?r + luhn_sum ?n (rev (pan_digits v))) mod 10 = 0"
    using assms by (simp_all add: luhn_check_def Let_def pan_digits_append luhn_sum_append ac_simps split: if_splits)
  then have "(?r + luhn_sum ?n (rev (pan_digits u))) mod 10 = (?r + luhn_sum ?n (rev (pan_digits v))) mod 10"
    by (rule trans [OF _ sym])
  then show ?thesis by (rule mod_10_cancel(1))
qed

lemma luhn_check_pair:
  assumes "luhn_check (a @ [x, y] @ b)" and "luhn_check (a @ [u, v] @ b)"
    and "is_digit x" "is_digit y" "is_digit u" "is_digit v" and "n = length (pan_digits b)"
  shows "(luhn_term n (digit_val y) + luhn_term (Suc n) (digit_val x)) mod 10 =
    (luhn_term n (digit_val v) + luhn_term (Suc n) (digit_val u)) mod 10"
proof -
  have e: "luhn_sum n (rev (pan_digits [c, d])) = luhn_term n (digit_val d) + luhn_term (Suc n) (digit_val c)"
    "length (pan_digits [c, d]) = 2" if "is_digit c" "is_digit d" for c d
    using that by (simp_all add: pan_digits_def)
  from luhn_check_split [OF assms(1,2)] show ?thesis
    unfolding e [OF assms(3,4)] e [OF assms(5,6)] assms(7) [symmetric] by blast
qed

lemma luhn_one_left:
  assumes "luhn_check (a @ [x, y] @ b)" and "luhn_check (a @ [z, y] @ b)"
    and "is_digit x" and "is_digit y" and "is_digit z"
  shows "x = z"
proof -
  define n where n: "n = length (pan_digits b)"
  have "(luhn_term n (digit_val y) + luhn_term (Suc n) (digit_val x)) mod 10 =
      (luhn_term n (digit_val y) + luhn_term (Suc n) (digit_val z)) mod 10"
    by (rule luhn_check_pair [OF assms(1,2,3,4,5,4) n])
  then have "luhn_term (Suc n) (digit_val x) mod 10 = luhn_term (Suc n) (digit_val z) mod 10" by (rule mod_10_cancel)
  from luhn_term_mod_inject [OF _ _ _ _ this] digit_val_range [OF assms(3)] digit_val_range [OF assms(5)]
  have "digit_val x = digit_val z" by blast
  then show ?thesis using digit_val_inject [OF assms(3,5)] by simp
qed

lemma luhn_one_right:
  assumes "luhn_check (a @ [x, y] @ b)" and "luhn_check (a @ [x, z] @ b)"
    and "is_digit x" and "is_digit y" and "is_digit z"
  shows "y = z"
proof -
  define n where n: "n = length (pan_digits b)"
  have "(luhn_term n (digit_val y) + luhn_term (Suc n) (digit_val x)) mod 10 =
      (luhn_term n (digit_val z) + luhn_term (Suc n) (digit_val x)) mod 10"
    by (rule luhn_check_pair [OF assms(1,2,3,4,3,5) n])
  then have "luhn_term n (digit_val y) mod 10 = luhn_term n (digit_val z) mod 10" by (rule mod_10_cancel)
  from luhn_term_mod_inject [OF _ _ _ _ this] digit_val_range [OF assms(4)] digit_val_range [OF assms(5)]
  have "digit_val y = digit_val z" by blast
  then show ?thesis using digit_val_inject [OF assms(4,5)] by simp
qed

lemma luhn_swapped:
  assumes "luhn_check (a @ [x, y] @ b)" and "luhn_check (a @ [y, x] @ b)" and x: "is_digit x" and y: "is_digit y"
  shows "x = y \<or> {x, y} = {CHR ''0'', CHR ''9''}"
proof -
  have zero_nine: "c = CHR ''0'' \<longleftrightarrow> digit_val c = 0" "c = CHR ''9'' \<longleftrightarrow> digit_val c = 9" if "is_digit c" for c
  proof -
    have "is_digit (CHR ''0'')" "is_digit (CHR ''9'')" "digit_val (CHR ''0'') = 0" "digit_val (CHR ''9'') = 9" by code_simp+
    then show "c = CHR ''0'' \<longleftrightarrow> digit_val c = 0" "c = CHR ''9'' \<longleftrightarrow> digit_val c = 9"
      using digit_val_inject [OF that] by metis+
  qed
  define n where n: "n = length (pan_digits b)"
  have "(luhn_term n (digit_val y) + luhn_term (Suc n) (digit_val x)) mod 10 =
      (luhn_term n (digit_val x) + luhn_term (Suc n) (digit_val y)) mod 10"
    by (rule luhn_check_pair [OF assms(1,2) x y y x n])
  from luhn_swap_mod [OF _ _ _ _ this] digit_val_range [OF x] digit_val_range [OF y]
  have "digit_val y = digit_val x \<or> (digit_val y, digit_val x) = (0, 9) \<or> (digit_val y, digit_val x) = (9, 0)" by blast
  then show ?thesis using digit_val_inject [OF y x] zero_nine [OF x] zero_nine [OF y]
    by (simp add: doubleton_eq_iff) blast
qed

text \<open>
  C29. The card number check catches the usual typing errors: a valid number is no longer valid with
  any one digit changed, nor with two neighbouring digits exchanged, unless these are 0 and 9.
\<close>

theorem luhn_catches_typing_errors:
  assumes "luhn_check (a @ [x, y] @ b)" and "is_digit x" and "is_digit y" and "is_digit z"
  shows "(x \<noteq> z \<longrightarrow> \<not> luhn_check (a @ [z, y] @ b)) \<and> (y \<noteq> z \<longrightarrow> \<not> luhn_check (a @ [x, z] @ b)) \<and>
    (x \<noteq> y \<and> {x, y} \<noteq> {CHR ''0'', CHR ''9''} \<longrightarrow> \<not> luhn_check (a @ [y, x] @ b))"
  using luhn_one_left [OF assms(1) _ assms(2-4)] luhn_one_right [OF assms(1) _ assms(2-4)]
    luhn_swapped [OF assms(1) _ assms(2,3)] by blast

theorem luhn_catches_typing_errors_witness:
  "luhn_check ''4111111111111111'' \<and> \<not> luhn_check ''4111111111111117'' \<and> \<not> luhn_check ''1411111111111111''"
proof -
  have v: "luhn_check ([] @ [CHR ''4'', CHR ''1''] @ ''11111111111111'')" "luhn_check (''41111111111111'' @ [CHR ''1'', CHR ''1''] @ [])"
    by code_simp+
  have d: "is_digit (CHR ''4'')" "is_digit (CHR ''1'')" "is_digit (CHR ''7'')" by (simp_all add: is_digit_def)
  show ?thesis
    using luhn_catches_typing_errors [OF v(1) d] luhn_catches_typing_errors [OF v(2) d(2) d(2) d(3)] v(1)
    by (auto simp: doubleton_eq_iff)
qed

section \<open>What the vault stores\<close>

lemma insert_token_InrD:
  "sql (insert_token r) v = (Inr u, w) \<Longrightarrow> token_insertable (wdb v) r \<and>
     wdb w = (wdb v)\<lparr>vault_tokens := vault_tokens (wdb v) @ [r]\<rparr> \<and> wlib w = wlib v"
  by (erule sql_InrE) (auto simp: insert_token_def insert_stmt_def split: if_splits)

text \<open>A successful tokenization found the token of the card, or stored a new row for it.\<close>

lemma tokenize_InrE:
  assumes "tokenize tb nonce mk hk raw m w = (Inr t, w')"
  defines "fp \<equiv> hmac_sha256 (wlib w) hk (rc_pan raw)"
  obtains (known) "find_token fp m (wdb w) = Some (vk_token t)" and "wdb w' = wdb w" and "wlib w' = wlib w"
  | (fresh) last4 encrypted where "find_token fp m (wdb w) = None"
      and "encrypt_aes256gcm (wlib w) nonce mk (json_print (wlib w) (card_payload (wlib w) raw)) = Inr encrypted"
      and "token_insertable (wdb w)
        (new_token_row (vk_token t) encrypted fp last4 (detect_card_brand (rc_pan raw)) raw m)"
      and "wdb w' = (wdb w)\<lparr>vault_tokens := vault_tokens (wdb w) @
        [new_token_row (vk_token t) encrypted fp last4 (detect_card_brand (rc_pan raw)) raw m]\<rparr>"
      and "wlib w' = wlib w"
proof -
  obtain last4 existing v where
    sel: "sql (select_stmt (find_token fp m)) w = (Inr existing, v)" and
    rest: "(case existing of
        Some token \<Rightarrow> ok (token_answer token last4 (detect_card_brand (rc_pan raw)) raw)
      | None \<Rightarrow>
          and_then (read_lib (\<lambda>l. generate_vault_token l tb)) (\<lambda>token.
          and_then (read_lib (\<lambda>l. encrypt_aes256gcm l nonce mk (json_print l (card_payload l raw)))) (\<lambda>sealed.
          and_then (of_result sealed) (\<lambda>encrypted.
          and_then (sql (insert_token (new_token_row token encrypted fp last4 (detect_card_brand (rc_pan raw)) raw m))) (\<lambda>_.
          ok (token_answer token last4 (detect_card_brand (rc_pan raw)) raw)))))) v = (Inr t, w')"
    using assms(1) unfolding fp_def
    by (auto simp: tokenize_def Let_def read_lib_def ok_or_def elim!: and_then_InrE split: if_splits option.splits)
  note v = sql_select_InrD [OF sel]
  show ?thesis
  proof (cases existing)
    case (Some token)
    then show ?thesis using known v rest by (auto simp: token_answer_def)
  next
    case None
    with rest v obtain encrypted where e:
      "encrypt_aes256gcm (wlib w) nonce mk (json_print (wlib w) (card_payload (wlib w) raw)) = Inr encrypted"
      and ins: "sql (insert_token (new_token_row (vk_token t) encrypted fp last4 (detect_card_brand (rc_pan raw)) raw m)) v
        = (Inr (), w')"
      by (auto simp: read_lib_def of_result_def token_answer_def elim!: and_then_InrE split: sum.splits)
    note i = insert_token_InrD [OF ins]
    show ?thesis
    proof (rule fresh [OF _ e])
      show "find_token fp m (wdb w) = None" using v None by simp
    qed (use i v in simp_all)
  qed
qed

lemma new_token_row_sel [simp]:
  "vt_token (new_token_row t e f l b raw m) = t" "vt_fingerprint (new_token_row t e f l b raw m) = f"
  "vt_encrypted_data (new_token_row t e f l b raw m) = e" "vt_merchant_id (new_token_row t e f l b raw m) = m"
  "vt_is_active (new_token_row t e f l b raw m)"
  by (simp_all add: new_token_row_def)

text \<open>
  C30. What a merchant tokenizes it can detokenize: the token of a card the vault did not know opens,
  with the same master key, to the number, expiry date, hashed code and name it was made from, and
  reading it changes nothing. AES-GCM, base64 and JSON are assumed to invert.
\<close>

theorem vault_roundtrip:
  assumes tok: "tokenize tb nonce mk hk raw m w = (Inr t, w')"
    and fresh: "find_token (hmac_sha256 (wlib w) hk (rc_pan raw)) m (wdb w) = None"
    and later: "wdb v = wdb w'" "wlib v = wlib w" "\<And>n. stmt_ok v n" "commit_ok (wdb v)"
    and nonce: "length nonce = 12"
    and b64: "\<And>b. b64_decode (wlib w) (b64_encode (wlib w) b) = Some b"
    and aes: "\<And>k n p c. aes_encrypt (wlib w) k n p = Some c \<Longrightarrow> aes_decrypt (wlib w) k n c = Some p"
    and json: "json_parse (wlib w) (json_print (wlib w) (card_payload (wlib w) raw)) = Some (card_payload (wlib w) raw)"
  shows "\<exists>v'. detokenize mk (vk_token t) v = (Inr (card_payload (wlib w) raw), v') \<and> wdb v' = wdb v"
  using tok
proof (cases rule: tokenize_InrE)
  case known
  then show ?thesis using fresh by simp
next
  case (fresh last4 encrypted)
  let ?row = "new_token_row (vk_token t) encrypted (hmac_sha256 (wlib w) hk (rc_pan raw)) last4 (detect_card_brand (rc_pan raw)) raw m"
  from fresh(2) obtain key where key: "hex_decode (wlib w) mk = Some key" "length key = 32"
    by (auto simp: encrypt_aes256gcm_def split: option.splits if_splits)
  have opened: "decrypt_aes256gcm (wlib w) mk encrypted = Inr (json_print (wlib w) (card_payload (wlib w) raw))"
    by (rule sealed_opens [OF key nonce b64 aes fresh(2)])
  have "find (active_token (vk_token t)) (vault_tokens (wdb w)) = None"
    using fresh(3) by (auto simp: token_insertable_def find_None_iff list_ex_iff active_token_def)
  then have found: "find (active_token (vk_token t)) (vault_tokens (wdb v)) = Some ?row"
    by (simp add: later(1) fresh(4) find_append_new active_token_def)
  let ?sel = "select_stmt (\<lambda>d. map_option vt_encrypted_data (find (active_token (vk_token t)) (vault_tokens d)))"
  obtain v1 where v1: "sql ?sel v = (Inr (Some encrypted), v1)" "wdb v1 = wdb v" "wlib v1 = wlib v" "stmt_ok v1 = stmt_ok v"
    using sql_runs [of v ?sel "Some encrypted" "wdb v"] later found by (auto simp: select_stmt_def)
  obtain v2 where v2: "sql (touch_token (vk_token t)) v1 = (Inr (), v2)" "wdb v2 = wdb v" "wlib v2 = wlib w"
    using sql_runs [of v1 "touch_token (vk_token t)" "()" "wdb v"] later v1 by (auto simp: touch_token_def update_stmt_def)
  show ?thesis
    using v1(1) v2 opened json by (simp add: detokenize_def and_then_def read_lib_def of_result_def ok_or_def ok_def)
qed

definition sample_card :: raw_card_data where
  "sample_card = \<lparr>rc_pan = ''4111111111111111'', rc_exp_month = 12, rc_exp_year = 2030, rc_cvv = ''123'',
     rc_cardholder_name = Some ''A''\<rparr>"

definition vault_lib :: lib where
  "vault_lib = sample_lib\<lparr>json_parse := \<lambda>s. Some (card_payload sample_lib sample_card)\<rparr>"

definition vault_world :: world where
  "vault_world = (sample_world (sample_database documented_schema))\<lparr>wlib := vault_lib\<rparr>"

definition vault_key :: string where
  "vault_key = ''0123456789abcdef0123456789abcdef''"

lemma sample_card_valid:
  "luhn_check (rc_pan sample_card)" "detect_card_brand (rc_pan sample_card) = ''visa''"
  "slice_from (rc_pan sample_card) (length (rc_pan sample_card) - 4) = Some ''1111''"
  "rc_exp_month sample_card = 12" "rc_exp_year sample_card = 2030"
  by code_simp+

lemma sample_tokenize:
  assumes "length nonce = 12"
  shows "tokenize tb nonce vault_key hk sample_card (Some 7) vault_world =
    (Inr \<lparr>vk_token = ''vt_'' @ hex_encode sample_lib tb, vk_last4 = ''1111'', vk_brand = ''visa'', vk_exp_month = 12,
       vk_exp_year = 2030\<rparr>, snd (tokenize tb nonce vault_key hk sample_card (Some 7) vault_world)) \<and>
     stmt_ok (snd (tokenize tb nonce vault_key hk sample_card (Some 7) vault_world)) = (\<lambda>n. True) \<and>
     commit_ok (wdb (snd (tokenize tb nonce vault_key hk sample_card (Some 7) vault_world))) \<and>
     wlib (snd (tokenize tb nonce vault_key hk sample_card (Some 7) vault_world)) = vault_lib"
  using assms
  by (simp add: tokenize_def sample_card_valid token_answer_def insert_token_def token_insertable_def
      find_token_def vault_world_def vault_lib_def vault_key_def sample_lib_def encrypt_aes256gcm_def generate_vault_token_def
      run_defs cong: lazy_congs)

theorem vault_roundtrip_witness:
  "let w' = snd (tokenize ''token-bytes'' ''nonce-12-byt'' vault_key ''hmac'' sample_card (Some 7) vault_world)
   in fst (detokenize vault_key (''vt_'' @ hex_encode sample_lib ''token-bytes'') w') = Inr (card_payload sample_lib sample_card)"
proof -
  let ?n = "''nonce-12-byt''" and ?tb = "''token-bytes''"
  let ?w' = "snd (tokenize ?tb ?n vault_key ''hmac'' sample_card (Some 7) vault_world)"
  have n: "length ?n = 12" by simp
  note t = sample_tokenize [OF n, of ?tb "''hmac''"]
  have lib: "wlib vault_world = vault_lib" by (simp add: vault_world_def)
  have fresh: "find_token (hmac_sha256 (wlib vault_world) ''hmac'' (rc_pan sample_card)) (Some 7) (wdb vault_world) = None"
    by (simp add: find_token_def vault_world_def sample_world_def sample_database_def empty_database_def)
  have ok: "\<And>n. stmt_ok ?w' n" "commit_ok (wdb ?w')" "wlib ?w' = wlib vault_world" using t lib by simp_all
  have payload: "card_payload vault_lib sample_card = card_payload sample_lib sample_card"
    by (simp add: card_payload_def vault_lib_def sha256_hex_def)
  have inv: "\<And>b. b64_decode (wlib vault_world) (b64_encode (wlib vault_world) b) = Some b"
    "\<And>k n p c. aes_encrypt (wlib vault_world) k n p = Some c \<Longrightarrow> aes_decrypt (wlib vault_world) k n c = Some p"
    "json_parse (wlib vault_world) (json_print (wlib vault_world) (card_payload (wlib vault_world) sample_card))
      = Some (card_payload (wlib vault_world) sample_card)"
    unfolding lib payload by (auto simp: vault_lib_def sample_lib_def)
  from vault_roundtrip [OF conjunct1 [OF t] fresh refl ok(3) ok(1,2) n inv] show ?thesis
    by (auto simp: lib payload)
qed



end
