(* ===== verification/Gateway.thy ===== *)
theory Gateway
  imports Payment_Handlers Evaluation
begin

text \<open>
  \<open>crates/api-gateway/src\<close>: authentication by API key (\<open>auth.rs\<close>), the idempotency cache in
  Redis (\<open>middleware/idempotency.rs\<close>), the request identifier and rate limit
  (\<open>middleware/request_id.rs\<close>, \<open>rate_limit.rs\<close>) and the proxy to the services
  (\<open>proxy.rs\<close>), composed as \<open>routes.rs\<close> and \<open>main.rs\<close> layer them. Redis is a map with expiry
  times; which of its commands fail is a parameter of the state, as is the verdict of the
  third-party rate limiter. A handler is a computation over the cache and the world.
\<close>

section \<open>Requests, answers, Redis\<close>

record gateway_request =
  gq_method :: string
  gq_service :: string
  gq_path :: string
  gq_query :: "string option"
  gq_headers :: "(string \<times> string) list"
  gq_body :: string

record gateway_response =
  gp_status :: nat
  gp_headers :: "(string \<times> string) list"
  gp_body :: json

record redis =
  rd_values :: "string \<Rightarrow> (string \<times> time) option"
  rd_fail :: "nat \<Rightarrow> string option"
  rd_next :: nat

type_synonym gateway_state = "redis \<times> world"
type_synonym 'a G = "gateway_state \<Rightarrow> (app_error + 'a) \<times> gateway_state"

definition g_then :: "'a G \<Rightarrow> ('a \<Rightarrow> 'b G) \<Rightarrow> 'b G" where
  "g_then m f g = (case m g of (Inl e, g') \<Rightarrow> (Inl e, g') | (Inr a, g') \<Rightarrow> f a g')"

definition g_ok :: "'a \<Rightarrow> 'a G" where "g_ok a g = (Inr a, g)"
definition g_err :: "app_error \<Rightarrow> 'a G" where "g_err e g = (Inl e, g)"

text \<open>A computation of the world, the cache untouched.\<close>

definition in_world :: "'a M \<Rightarrow> 'a G" where
  "in_world m g = (case m (snd g) of (x, w) \<Rightarrow> (x, (fst g, w)))"

text \<open>One command of Redis: it fails with a message, or reads and writes the values at its instant.\<close>

definition redis_cmd :: "(time \<Rightarrow> (string \<Rightarrow> (string \<times> time) option) \<Rightarrow> 'a \<times> (string \<Rightarrow> (string \<times> time) option)) \<Rightarrow> 'a G" where
  "redis_cmd f g = (case g of (r, w) \<Rightarrow>
     (case rd_fail r (rd_next r) of
        Some e \<Rightarrow> (Inl (Cache e), (r\<lparr>rd_next := Suc (rd_next r)\<rparr>, w))
      | None \<Rightarrow> (case utc_now w of (now, w') \<Rightarrow>
          (case now of Inl e \<Rightarrow> (Inl e, (r, w')) | Inr t \<Rightarrow>
          (case f t (rd_values r) of (a, vs) \<Rightarrow>
            (Inr a, (r\<lparr>rd_values := vs, rd_next := Suc (rd_next r)\<rparr>, w')))))))"

definition redis_connect :: "unit G" where
  "redis_connect = redis_cmd (\<lambda>now vs. ((), vs))"

definition redis_get :: "string \<Rightarrow> string option G" where
  "redis_get k = redis_cmd (\<lambda>now vs.
     (case vs k of None \<Rightarrow> None | Some (v, expires) \<Rightarrow> if now < expires then Some v else None, vs))"

definition redis_set_ex :: "string \<Rightarrow> string \<Rightarrow> int \<Rightarrow> unit G" where
  "redis_set_ex k v seconds = redis_cmd (\<lambda>now vs. ((), vs(k \<mapsto> (v, now + time_secs seconds))))"

definition redis_del :: "string \<Rightarrow> unit G" where
  "redis_del k = redis_cmd (\<lambda>now vs. ((), vs(k := None)))"

text \<open>\<open>.unwrap_or(())\<close>.\<close>

definition ignore_error :: "unit G \<Rightarrow> unit G" where
  "ignore_error m g = (case m g of (x, g') \<Rightarrow> (Inr (), g'))"

section \<open>Authentication\<close>

record authenticated_merchant =
  am_id :: uuid
  am_business_name :: string
  am_is_live :: bool

text \<open>\<open>String::from_utf8\<close> accepts the well-formed byte sequences.\<close>

definition cont_byte :: "nat \<Rightarrow> nat \<Rightarrow> char \<Rightarrow> bool" where
  "cont_byte lo hi c \<longleftrightarrow> lo \<le> (of_char c :: nat) \<and> (of_char c :: nat) \<le> hi"

fun valid_utf8 :: "string \<Rightarrow> bool" where
  "valid_utf8 [] = True"
| "valid_utf8 (a # s) =
     (let n = (of_char a :: nat) in
      if n < 128 then valid_utf8 s
      else if 194 \<le> n \<and> n < 224 then
        (case s of b # s' \<Rightarrow> cont_byte 128 191 b \<and> valid_utf8 s' | _ \<Rightarrow> False)
      else if 224 \<le> n \<and> n < 240 then
        (case s of b # c # s' \<Rightarrow> cont_byte (if n = 224 then 160 else 128) (if n = 237 then 159 else 191) b \<and>
           cont_byte 128 191 c \<and> valid_utf8 s' | _ \<Rightarrow> False)
      else if 240 \<le> n \<and> n < 245 then
        (case s of b # c # d # s' \<Rightarrow> cont_byte (if n = 240 then 144 else 128) (if n = 244 then 143 else 191) b \<and>
           cont_byte 128 191 c \<and> cont_byte 128 191 d \<and> valid_utf8 s' | _ \<Rightarrow> False)
      else False)"

definition basic_key :: "lib \<Rightarrow> string \<Rightarrow> app_error + string" where
  "basic_key l encoded =
     (case b64_decode l encoded of
        None \<Rightarrow> Inl Unauthorized
      | Some decoded \<Rightarrow>
          if \<not> valid_utf8 decoded then Inl Unauthorized
          else (let key = hd (split_on (CHR '':'') decoded) in if key \<noteq> [] then Inr key else Inl Unauthorized))"

definition extract_api_key :: "lib \<Rightarrow> (string \<times> string) list \<Rightarrow> app_error + string" where
  "extract_api_key l headers =
     (case map_of headers ''x-api-key'' of
        Some val \<Rightarrow> if visible_ascii val then Inr val else Inl Unauthorized
      | None \<Rightarrow>
          (case map_of headers ''authorization'' of
             None \<Rightarrow> Inl Unauthorized
           | Some auth_str \<Rightarrow>
               if \<not> visible_ascii auth_str then Inl Unauthorized
               else (case strip_prefix ''Basic '' auth_str of
                   Some encoded \<Rightarrow> basic_key l encoded
                 | None \<Rightarrow>
                     (case strip_prefix ''Bearer '' auth_str of
                        Some key \<Rightarrow> if key \<noteq> [] then Inr key else Inl Unauthorized
                      | None \<Rightarrow> Inl Unauthorized))))"

definition lookup_merchant_by_key_hash :: "string \<Rightarrow> bool \<Rightarrow> authenticated_merchant option stmt" where
  "lookup_merchant_by_key_hash key_hash is_live = select_stmt (\<lambda>d.
     map_option (\<lambda>m. \<lparr>am_id = me_id m, am_business_name = me_business_name m, am_is_live = is_live\<rparr>)
       (find (\<lambda>m. (if is_live then me_api_key_hash m else me_test_api_key_hash m) = key_hash \<and> me_is_active m)
         (merchants d)))"

definition authenticate :: "(string \<times> string) list \<Rightarrow> authenticated_merchant M" where
  "authenticate headers =
     and_then (read_lib (\<lambda>l. extract_api_key l headers)) (\<lambda>extracted.
     and_then (of_result extracted) (\<lambda>api_key.
     let is_live = starts_with api_key ''rp_live_''; is_test = starts_with api_key ''rp_test_'' in
     if \<not> is_live \<and> \<not> is_test then err Unauthorized
     else and_then (read_lib (\<lambda>l. hash_api_key l api_key)) (\<lambda>key_hash.
          and_then (sql (lookup_merchant_by_key_hash key_hash is_live)) (\<lambda>found.
          ok_or Unauthorized found))))"

definition auth_middleware ::
  "(uuid \<Rightarrow> gateway_request \<Rightarrow> gateway_response G) \<Rightarrow> gateway_request \<Rightarrow> gateway_response G" where
  "auth_middleware next_run req =
     g_then (in_world (authenticate (gq_headers req))) (\<lambda>merchant. next_run (am_id merchant) req)"

section \<open>Idempotency\<close>

definition IDEMPOTENCY_HEADER :: string where "IDEMPOTENCY_HEADER = ''idempotency-key''"
definition IDEMPOTENCY_PREFIX :: string where "IDEMPOTENCY_PREFIX = ''idem:''"

definition idempotency_redis_key :: "lib \<Rightarrow> uuid \<Rightarrow> string \<Rightarrow> string" where
  "idempotency_redis_key l merchant_id key = IDEMPOTENCY_PREFIX @ uuid_show l merchant_id @ '':'' @ key"

definition replayed :: "string \<Rightarrow> gateway_response" where
  "replayed cached = \<lparr>gp_status = 200, gp_headers = [(''content-type'', ''application/json''),
     (''x-idempotent-replayed'', ''true'')], gp_body = JStr cached\<rparr>"

text \<open>The answer of the inner layers is remembered or the mark removed, errors of Redis ignored.\<close>

definition run_marked ::
  "int \<Rightarrow> string \<Rightarrow> gateway_response G \<Rightarrow> gateway_response G" where
  "run_marked ttl redis_key run =
     g_then run (\<lambda>response.
     g_then (if is_success (gp_status response) then ignore_error (redis_set_ex redis_key ''completed'' ttl)
             else ignore_error (redis_del redis_key)) (\<lambda>_.
     g_ok response))"

definition idempotency_middleware ::
  "int \<Rightarrow> (uuid \<Rightarrow> gateway_request \<Rightarrow> gateway_response G) \<Rightarrow> uuid \<Rightarrow> gateway_request \<Rightarrow> gateway_response G" where
  "idempotency_middleware ttl next_run merchant_id req =
     (case header_str (gq_headers req) IDEMPOTENCY_HEADER of
        None \<Rightarrow> next_run merchant_id req
      | Some key \<Rightarrow>
          if length key > 255 then g_err (InvalidIdempotencyKey ''Idempotency key too long (max 255 chars)'')
          else if \<not> List.member [''POST'', ''PUT'', ''PATCH''] (gq_method req) then next_run merchant_id req
          else g_then (in_world (read_lib (\<lambda>l. idempotency_redis_key l merchant_id key))) (\<lambda>redis_key.
               g_then redis_connect (\<lambda>_.
               g_then (redis_get redis_key) (\<lambda>cached.
               case cached of
                 Some cached_response \<Rightarrow> g_ok (replayed cached_response)
               | None \<Rightarrow>
                   g_then (redis_set_ex redis_key ''in-flight'' 30) (\<lambda>_.
                   run_marked ttl redis_key (next_run merchant_id req))))))"

section \<open>Proxy\<close>

record gateway_config =
  gc_payment_service_url :: string
  gc_merchant_service_url :: string
  gc_order_service_url :: string
  gc_idempotency_ttl_seconds :: int

definition downstream_base :: "gateway_config \<Rightarrow> string \<Rightarrow> string option" where
  "downstream_base cfg service =
     (if service = ''payments'' then Some (gc_payment_service_url cfg)
      else if service = ''merchants'' then Some (gc_merchant_service_url cfg)
      else if service = ''orders'' then Some (gc_order_service_url cfg)
      else None)"

definition plain :: "nat \<Rightarrow> string \<Rightarrow> gateway_response" where
  "plain status body = \<lparr>gp_status = status, gp_headers = [], gp_body = JStr body\<rparr>"

definition forwarded_headers :: "lib \<Rightarrow> uuid \<Rightarrow> (string \<times> string) list \<Rightarrow> (string \<times> string) list" where
  "forwarded_headers l merchant_id headers =
     (''x-merchant-id'', uuid_show l merchant_id) # filter (\<lambda>h. fst h \<noteq> ''host'') headers"

text \<open>The text of the error of an oversized body is an argument.\<close>

definition proxy_downstream ::
  "gateway_config \<Rightarrow> string \<Rightarrow> uuid \<Rightarrow> gateway_request \<Rightarrow> gateway_response G" where
  "proxy_downstream cfg too_large merchant_id req =
     (case downstream_base cfg (gq_service req) of
        None \<Rightarrow> g_ok (plain 404 (''unknown downstream service: '' @ gq_service req))
      | Some base \<Rightarrow>
          let url = base @ ''/'' @ gq_path req @ (case gq_query req of None \<Rightarrow> [] | Some q \<Rightarrow> ''?'' @ q) in
          if length (gq_body req) > 2 * 1024 * 1024 then g_ok (plain 400 too_large)
          else in_world (and_then (read_lib (\<lambda>l. forwarded_headers l merchant_id (gq_headers req))) (\<lambda>headers.
               and_then (http_send \<lparr>hr_method = gq_method req, hr_url = url, hr_headers = headers,
                   hr_body = JStr (gq_body req)\<rparr>) (\<lambda>outcome.
               case outcome of
                 Response status body \<Rightarrow> and_then (read_lib (\<lambda>l. body_text l body)) (\<lambda>text. ok (plain status text))
               | SendError e \<Rightarrow> ok (plain 502 (''downstream request failed: '' @ e))))))"

section \<open>The gateway\<close>

text \<open>\<open>None\<close> from the limiter lets the request pass, otherwise it says how long to wait.\<close>

definition rate_limit_middleware :: "nat option \<Rightarrow> 'a G \<Rightarrow> 'a G" where
  "rate_limit_middleware verdict next_run =
     (case verdict of Some wait_ms \<Rightarrow> g_err (RateLimitExceeded wait_ms) | None \<Rightarrow> next_run)"

definition request_id_middleware ::
  "(string \<Rightarrow> gateway_request \<Rightarrow> gateway_response G) \<Rightarrow> gateway_request \<Rightarrow> gateway_response G" where
  "request_id_middleware next_run req =
     g_then (case header_str (gq_headers req) ''x-request-id'' of
         Some s \<Rightarrow> g_ok s
       | None \<Rightarrow> in_world (and_then new_v4 (\<lambda>u. read_lib (\<lambda>l. uuid_show l u)))) (\<lambda>request_id.
     g_then (next_run request_id req) (\<lambda>response.
     g_ok (response\<lparr>gp_headers := (''x-request-id'', request_id) #
       filter (\<lambda>h. fst h \<noteq> ''x-request-id'') (gp_headers response)\<rparr>)))"

definition gateway :: "gateway_config \<Rightarrow> string \<Rightarrow> nat option \<Rightarrow> gateway_request \<Rightarrow> gateway_response G" where
  "gateway cfg too_large verdict req = rate_limit_middleware verdict
     (auth_middleware (idempotency_middleware (gc_idempotency_ttl_seconds cfg) (proxy_downstream cfg too_large)) req)"

section \<open>Lemmas\<close>

lemma g_then_InrE:
  assumes "g_then m f g = (Inr b, g')"
  obtains a h where "m g = (Inr a, h)" and "f a h = (Inr b, g')"
  using assms by (auto simp: g_then_def split: prod.splits sum.splits)

lemma in_world_eq: "in_world m (r, w) = (x, (r', w')) \<longleftrightarrow> r' = r \<and> m w = (x, w')"
  by (auto simp: in_world_def split: prod.splits)

lemma g_ok_eq [simp]: "g_ok a g = (x, g') \<longleftrightarrow> x = Inr a \<and> g' = g"
  by (auto simp: g_ok_def)

lemma g_err_eq [simp]: "g_err e g = (x, g') \<longleftrightarrow> x = Inl e \<and> g' = g"
  by (auto simp: g_err_def)

lemma read_lib_eq [simp]: "read_lib f w = (x, w') \<longleftrightarrow> x = Inr (f (wlib w)) \<and> w' = w"
  by (auto simp: read_lib_def)

text \<open>What a request can leave in the log of outgoing requests, and that the proxy leaves the cache alone.\<close>

definition sends_for :: "uuid \<Rightarrow> gateway_request \<Rightarrow> world \<Rightarrow> world \<Rightarrow> bool" where
  "sends_for m req w w' \<longleftrightarrow> http_log w' = http_log w \<or>
     (\<exists>url. http_log w' = http_log w @ [\<lparr>hr_method = gq_method req, hr_url = url,
        hr_headers = forwarded_headers (wlib w) m (gq_headers req), hr_body = JStr (gq_body req)\<rparr>])"

lemma proxy_frame:
  assumes "proxy_downstream cfg lim m req (r, w) = (x, (r', w'))"
  shows "r' = r \<and> wlib w' = wlib w \<and> clock_src w' = clock_src w \<and> clock_next w' = clock_next w \<and>
    (\<exists>resp. x = Inr resp) \<and> sends_for m req w w'"
  using assms
  by (auto simp: proxy_downstream_def Let_def in_world_eq and_then_def read_lib_def http_send_def sends_for_def
      split: option.splits if_splits http_outcome.splits)

lemma redis_cmd_result:
  assumes "redis_cmd f (r, w) = (x, (r', w'))"
  shows "wlib w' = wlib w \<and> clock_src w' = clock_src w \<and> http_log w' = http_log w \<and> rd_fail r' = rd_fail r \<and>
    (case x of Inl e \<Rightarrow> rd_fail r \<noteq> (\<lambda>n. None) \<and> rd_values r' = rd_values r
      | Inr a \<Rightarrow> \<exists>n. (a, rd_values r') = f (clock_src w n) (rd_values r))"
proof (cases "rd_fail r (rd_next r)")
  case (Some e)
  then show ?thesis using assms by (auto simp: redis_cmd_def)
next
  case None
  obtain a vs where f: "f (clock_src w (clock_next w)) (rd_values r) = (a, vs)" by fastforce
  then have "x = Inr a" "rd_values r' = vs" "rd_fail r' = rd_fail r" "wlib w' = wlib w" "clock_src w' = clock_src w"
    "http_log w' = http_log w"
    using assms None by (auto simp: redis_cmd_def utc_now_def)
  then show ?thesis using f [symmetric] by auto
qed

lemmas redis_defs = redis_connect_def redis_get_def redis_set_ex_def redis_del_def

text \<open>Marking a request done, when Redis works.\<close>

lemma run_marked_result:
  assumes "run_marked ttl k (proxy_downstream cfg lim m req) (r, w) = (x, (r', w'))" and "rd_fail r = (\<lambda>n. None)"
  shows "wlib w' = wlib w \<and> clock_src w' = clock_src w \<and> rd_fail r' = rd_fail r \<and> sends_for m req w w' \<and>
    (\<exists>resp. x = Inr resp \<and> (if is_success (gp_status resp)
       then \<exists>n. rd_values r' k = Some (''completed'', clock_src w n + time_secs ttl) else rd_values r' k = None))"
proof -
  obtain y v where p: "proxy_downstream cfg lim m req (r, w) = (y, (r, v))"
    using proxy_frame by (metis prod.exhaust)
  note f = proxy_frame [OF p]
  then obtain resp where y: "y = Inr resp" by blast
  let ?fin = "if is_success (gp_status resp) then redis_set_ex k ''completed'' ttl else redis_del k"
  obtain z r2 w2 where z: "?fin (r, v) = (z, (r2, w2))" by (metis prod.exhaust)
  have "z \<noteq> Inl e" for e
    using z assms(2) redis_cmd_result by (fastforce simp: redis_defs split: if_splits)
  then obtain u where u: "z = Inr u" by (cases z) auto
  have "x = Inr resp" "r' = r2" "w' = w2"
    using assms(1) p y z by (auto simp: run_marked_def g_then_def ignore_error_def split: if_splits)
  moreover have "wlib w2 = wlib v \<and> clock_src w2 = clock_src v \<and> http_log w2 = http_log v \<and> rd_fail r2 = rd_fail r \<and>
    (if is_success (gp_status resp) then \<exists>n. rd_values r2 k = Some (''completed'', clock_src v n + time_secs ttl)
     else rd_values r2 k = None)"
    using z u by (auto simp: redis_defs split: if_splits dest!: redis_cmd_result) blast
  ultimately show ?thesis using f by (auto simp: sends_for_def)
qed

lemma redis_get_result:
  assumes "redis_get k (r, w) = (x, (r', w'))" and "rd_fail r = (\<lambda>n. None)"
  shows "wlib w' = wlib w \<and> clock_src w' = clock_src w \<and> http_log w' = http_log w \<and> rd_fail r' = rd_fail r \<and>
    rd_values r' = rd_values r \<and>
    (\<exists>n. x = Inr (case rd_values r k of None \<Rightarrow> None | Some (v, expires) \<Rightarrow> if clock_src w n < expires then Some v else None))"
proof (cases x)
  case (Inl e)
  then show ?thesis using redis_cmd_result [OF assms(1) [unfolded redis_get_def]] assms(2) by simp
next
  case (Inr a)
  then show ?thesis using redis_cmd_result [OF assms(1) [unfolded redis_get_def]] by auto
qed

lemma redis_command_runs:
  assumes "rd_fail r = (\<lambda>n. None)"
  shows "\<exists>u r' w'. redis_connect (r, w) = (Inr u, (r', w')) \<and> rd_values r' = rd_values r \<and> rd_fail r' = rd_fail r \<and>
      wlib w' = wlib w \<and> clock_src w' = clock_src w \<and> http_log w' = http_log w"
    and "\<exists>u r' w'. redis_set_ex k v t (r, w) = (Inr u, (r', w')) \<and> rd_fail r' = rd_fail r \<and>
      wlib w' = wlib w \<and> clock_src w' = clock_src w \<and> http_log w' = http_log w"
  using assms by (simp_all add: redis_defs redis_cmd_def utc_now_def)

text \<open>The middleware on a keyed request: a cached value answers it, otherwise it is forwarded and marked.\<close>

lemma idempotency_step:
  assumes "header_str (gq_headers req) IDEMPOTENCY_HEADER = Some key" and "length key \<le> 255"
    and "List.member [''POST'', ''PUT'', ''PATCH''] (gq_method req)" and "rd_fail r = (\<lambda>n. None)"
    and run: "idempotency_middleware ttl (proxy_downstream cfg lim) m req (r, w) = (x, (r', w'))"
    and k: "k = idempotency_redis_key (wlib w) m key"
  shows "(\<exists>n v expires. rd_values r k = Some (v, expires) \<and> clock_src w n < expires \<and> x = Inr (replayed v) \<and>
      http_log w' = http_log w \<and> rd_values r' = rd_values r) \<or>
    (\<exists>n. (case rd_values r k of None \<Rightarrow> True | Some (v, expires) \<Rightarrow> expires \<le> clock_src w n) \<and>
      (\<exists>resp. x = Inr resp \<and> (if is_success (gp_status resp)
        then \<exists>n. rd_values r' k = Some (''completed'', clock_src w n + time_secs ttl) else rd_values r' k = None)))"
proof -
  obtain u1 r1 w1 where c: "redis_connect (r, w) = (Inr u1, (r1, w1))" "rd_values r1 = rd_values r" "rd_fail r1 = rd_fail r"
    "wlib w1 = wlib w" "clock_src w1 = clock_src w" "http_log w1 = http_log w"
    using redis_command_runs(1) [OF assms(4)] by blast
  obtain y r2 w2 where g: "redis_get k (r1, w1) = (y, (r2, w2))" by (metis prod.exhaust)
  note get = redis_get_result [OF g] 
  have gk: "wlib w2 = wlib w" "clock_src w2 = clock_src w" "http_log w2 = http_log w" "rd_fail r2 = rd_fail r" "rd_values r2 = rd_values r"
    using get c assms(4) by simp_all
  obtain n where y: "y = Inr (case rd_values r k of None \<Rightarrow> None | Some (v, expires) \<Rightarrow> if clock_src w n < expires then Some v else None)"
  proof -
    from get c(3) assms(4) obtain n where
      "y = Inr (case rd_values r1 k of None \<Rightarrow> None | Some (v, expires) \<Rightarrow> if clock_src w1 n < expires then Some v else None)"
      by auto
    then show thesis unfolding c(2,5) by (rule that)
  qed
  have lib: "in_world (read_lib (\<lambda>l. idempotency_redis_key l m key)) (r, w) = (Inr k, (r, w))"
    by (simp add: in_world_eq k)
  have unf: "idempotency_middleware ttl (proxy_downstream cfg lim) m req =
      g_then (in_world (read_lib (\<lambda>l. idempotency_redis_key l m key))) (\<lambda>redis_key.
      g_then redis_connect (\<lambda>_. g_then (redis_get redis_key) (\<lambda>cached.
      case cached of Some cached_response \<Rightarrow> g_ok (replayed cached_response)
      | None \<Rightarrow> g_then (redis_set_ex redis_key ''in-flight'' 30) (\<lambda>_.
          run_marked ttl redis_key (proxy_downstream cfg lim m req)))))"
    using assms(1-3) by (auto simp: idempotency_middleware_def)
  show ?thesis
  proof (cases "case rd_values r k of None \<Rightarrow> None | Some (v, expires) \<Rightarrow> if clock_src w n < expires then Some v else None")
    case (Some v)
    then obtain expires where e: "rd_values r k = Some (v, expires)" "clock_src w n < expires"
      by (auto split: option.splits if_splits)
    then have "x = Inr (replayed v) \<and> r' = r2 \<and> w' = w2"
      using run lib c(1) g y Some by (simp add: unf g_then_def)
    then show ?thesis using e gk by blast
  next
    case None
    obtain u3 r3 w3 where s: "redis_set_ex k ''in-flight'' 30 (r2, w2) = (Inr u3, (r3, w3))" "rd_fail r3 = rd_fail r"
      "wlib w3 = wlib w" "clock_src w3 = clock_src w"
      using redis_command_runs(2) [of r2 k "''in-flight''" 30 w2] gk assms(4) by auto
    have "run_marked ttl k (proxy_downstream cfg lim m req) (r3, w3) = (x, (r', w'))"
      using run lib c(1) g y None s(1) by (simp add: unf g_then_def)
    note m = run_marked_result [OF this]
    have "case rd_values r k of None \<Rightarrow> True | Some (v, expires) \<Rightarrow> expires \<le> clock_src w n"
      using None by (auto split: option.splits if_splits)
    then show ?thesis using m s assms(4) by auto
  qed
qed

text \<open>
  C32. A completed request is not repeated: once the gateway has forwarded a request with an idempotency
  key and got a success, any later request of that merchant with that key, within the lifetime of
  the mark, goes nowhere; it is answered with the word ''completed'', not with the first answer.
\<close>

theorem completed_requests_are_not_repeated:
  assumes "idempotency_middleware ttl (proxy_downstream cfg lim) m req (r, w) = (Inr resp, (r1, w1))"
    and "http_log w1 \<noteq> http_log w" and "is_success (gp_status resp)"
    and key: "header_str (gq_headers req) IDEMPOTENCY_HEADER = Some key" "header_str (gq_headers req') IDEMPOTENCY_HEADER = Some key"
      "length key \<le> 255"
    and meth: "List.member [''POST'', ''PUT'', ''PATCH''] (gq_method req)" "List.member [''POST'', ''PUT'', ''PATCH''] (gq_method req')"
    and redis: "rd_fail r = (\<lambda>n. None)" "rd_fail r2 = (\<lambda>n. None)" "rd_values r2 = rd_values r1" "wlib w2 = wlib w"
    and within: "\<And>i j. clock_src w2 i < clock_src w j + time_secs ttl"
  shows "\<exists>r' w'. idempotency_middleware ttl (proxy_downstream cfg lim) m req' (r2, w2) =
    (Inr (replayed ''completed''), (r', w')) \<and> http_log w' = http_log w2"
proof -
  let ?k = "idempotency_redis_key (wlib w) m key"
  obtain n where mk: "rd_values r1 ?k = Some (''completed'', clock_src w n + time_secs ttl)"
    using idempotency_step [OF key(1,3) meth(1) redis(1) assms(1) refl] assms(2,3) by auto
  obtain x r' w' where run: "idempotency_middleware ttl (proxy_downstream cfg lim) m req' (r2, w2) = (x, (r', w'))"
    by (metis prod.exhaust)
  have "?k = idempotency_redis_key (wlib w2) m key" by (simp add: redis(4))
  from idempotency_step [OF key(2,3) meth(2) redis(2) run this] mk redis(3) within
  have "x = Inr (replayed ''completed'') \<and> http_log w' = http_log w2"
    by (auto simp: not_le [symmetric])
  then show ?thesis using run by blast
qed

text \<open>A gateway with one merchant, whose live key is \<open>rp_live_k\<close>, and an empty cache.\<close>

definition keyed_request :: gateway_request where
  "keyed_request = \<lparr>gq_method = ''POST'', gq_service = ''payments'', gq_path = ''payments'', gq_query = None,
     gq_headers = [(''x-api-key'', ''rp_live_k''), (''idempotency-key'', ''k''), (''x-merchant-id'', ''8'')], gq_body = ''{}''\<rparr>"

definition sample_gateway :: gateway_config where
  "sample_gateway = \<lparr>gc_payment_service_url = ''http://p'', gc_merchant_service_url = ''http://m'',
     gc_order_service_url = ''http://o'', gc_idempotency_ttl_seconds = 86400\<rparr>"

definition sample_redis :: redis where
  "sample_redis = \<lparr>rd_values = (\<lambda>k. None), rd_fail = (\<lambda>n. None), rd_next = 0\<rparr>"

definition gateway_world :: world where
  "gateway_world = (sample_world ((empty_database documented_schema)\<lparr>merchants :=
     [sample_merchant\<lparr>me_api_key_hash := hash_api_key sample_lib ''rp_live_k''\<rparr>]\<rparr>))
       \<lparr>wlib := sample_lib, clock_src := \<lambda>n. 0\<rparr>"

lemmas gateway_eval = idempotency_middleware_def run_marked_def proxy_downstream_def redis_defs redis_cmd_def ignore_error_def
  g_then_def g_ok_def in_world_def downstream_base_def plain_def header_str_def IDEMPOTENCY_HEADER_def
  visible_ascii_def is_success_def

lemma sample_run:
  "\<exists>r1 w1. idempotency_middleware 86400 (proxy_downstream sample_gateway ''big'') 7 keyed_request (sample_redis, gateway_world) =
     (Inr (plain 200 ''not available''), (r1, w1)) \<and> length (http_log w1) = 1 \<and> rd_fail r1 = (\<lambda>n. None) \<and>
     wlib w1 = sample_lib \<and> clock_src w1 = (\<lambda>n. 0)"
  by (simp add: gateway_eval keyed_request_def sample_gateway_def sample_redis_def gateway_world_def sample_lib_def run_defs
      cong: lazy_congs)

theorem completed_requests_are_not_repeated_witness:
  "let (x, (r1, w1)) = idempotency_middleware 86400 (proxy_downstream sample_gateway ''big'') 7 keyed_request
         (sample_redis, gateway_world);
       (y, (r', w')) = idempotency_middleware 86400 (proxy_downstream sample_gateway ''big'') 7
         (keyed_request\<lparr>gq_body := ''other''\<rparr>) (r1, w1)
   in length (http_log w1) = 1 \<and> y = Inr (replayed ''completed'') \<and> http_log w' = http_log w1"
proof -
  obtain r1 w1 where run: "idempotency_middleware 86400 (proxy_downstream sample_gateway ''big'') 7 keyed_request
      (sample_redis, gateway_world) = (Inr (plain 200 ''not available''), (r1, w1))"
    and log: "length (http_log w1) = 1" and r1: "rd_fail r1 = (\<lambda>n. None)" "wlib w1 = sample_lib" "clock_src w1 = (\<lambda>n. 0)"
    using sample_run by blast
  have w: "http_log w1 \<noteq> http_log gateway_world" "wlib w1 = wlib gateway_world"
    "\<And>i j. clock_src w1 i < clock_src gateway_world j + time_secs 86400"
    using log r1 by (auto simp: gateway_world_def sample_world_def time_secs_def)
  have q: "is_success (gp_status (plain 200 ''not available''))"
    "header_str (gq_headers keyed_request) IDEMPOTENCY_HEADER = Some ''k''"
    "header_str (gq_headers (keyed_request\<lparr>gq_body := ''other''\<rparr>)) IDEMPOTENCY_HEADER = Some ''k''" "length ''k'' \<le> 255"
    "List.member [''POST'', ''PUT'', ''PATCH''] (gq_method keyed_request)"
    "List.member [''POST'', ''PUT'', ''PATCH''] (gq_method (keyed_request\<lparr>gq_body := ''other''\<rparr>))"
    "rd_fail sample_redis = (\<lambda>n. None)"
    by (simp_all add: gateway_eval keyed_request_def sample_redis_def)
  obtain r' w' where "idempotency_middleware 86400 (proxy_downstream sample_gateway ''big'') 7
      (keyed_request\<lparr>gq_body := ''other''\<rparr>) (r1, w1) = (Inr (replayed ''completed''), (r', w'))" "http_log w' = http_log w1"
    using completed_requests_are_not_repeated [OF run w(1) q r1(1) refl w(2,3)] by blast
  then show ?thesis using run log by simp
qed

section \<open>Who is forwarded\<close>

text \<open>Computations that send nothing, and that send at most one request, for the merchant.\<close>

definition quiet :: "'a G \<Rightarrow> bool" where
  "quiet c \<longleftrightarrow> (\<forall>r w x r' w'. c (r, w) = (x, (r', w')) \<longrightarrow> wlib w' = wlib w \<and> http_log w' = http_log w)"

definition forwards :: "uuid \<Rightarrow> gateway_request \<Rightarrow> 'a G \<Rightarrow> bool" where
  "forwards m req c \<longleftrightarrow> (\<forall>r w x r' w'. c (r, w) = (x, (r', w')) \<longrightarrow> wlib w' = wlib w \<and> sends_for m req w w')"

lemma quiet_forwards: "quiet c \<Longrightarrow> forwards m req c"
  by (auto simp: quiet_def forwards_def sends_for_def)

lemma forwards_then:
  assumes "quiet c" and "\<And>a. forwards m req (f a)" shows "forwards m req (g_then c f)"
  unfolding forwards_def
proof (intro allI impI)
  fix r w x r' w' assume t: "g_then c f (r, w) = (x, (r', w'))"
  obtain y r1 w1 where y: "c (r, w) = (y, (r1, w1))" by (metis prod.exhaust)
  have q: "wlib w1 = wlib w \<and> http_log w1 = http_log w" using assms(1) y unfolding quiet_def by blast
  show "wlib w' = wlib w \<and> sends_for m req w w'"
  proof (cases y)
    case (Inl e)
    then show ?thesis using t y q by (auto simp: g_then_def sends_for_def)
  next
    case (Inr a)
    then have "f a (r1, w1) = (x, (r', w'))" using t y by (simp add: g_then_def)
    then show ?thesis using assms(2) [of a] q unfolding forwards_def sends_for_def by metis
  qed
qed

lemma forwards_quiet:
  assumes "forwards m req c" and "\<And>a. quiet (f a)" shows "forwards m req (g_then c f)"
  unfolding forwards_def
proof (intro allI impI)
  fix r w x r' w' assume t: "g_then c f (r, w) = (x, (r', w'))"
  obtain y r1 w1 where y: "c (r, w) = (y, (r1, w1))" by (metis prod.exhaust)
  have q: "wlib w1 = wlib w \<and> sends_for m req w w1" using assms(1) y unfolding forwards_def by blast
  show "wlib w' = wlib w \<and> sends_for m req w w'"
  proof (cases y)
    case (Inl e)
    then show ?thesis using t y q by (auto simp: g_then_def)
  next
    case (Inr a)
    then have "f a (r1, w1) = (x, (r', w'))" using t y by (simp add: g_then_def)
    then have "wlib w' = wlib w1 \<and> http_log w' = http_log w1" using assms(2) [of a] unfolding quiet_def by blast
    then show ?thesis using q by (simp add: sends_for_def)
  qed
qed

lemma quiet_then: "\<lbrakk>quiet c; \<And>a. quiet (f a)\<rbrakk> \<Longrightarrow> quiet (g_then c f)"
  unfolding quiet_def g_then_def by (fastforce split: prod.splits sum.splits)

lemma quiet_redis_cmd: "quiet (redis_cmd f)"
  unfolding quiet_def using redis_cmd_result by blast

lemma quiet_rules: "quiet redis_connect" "quiet (redis_get k)" "quiet (redis_set_ex k v t)" "quiet (redis_del k)"
  "quiet (g_ok a)" "quiet (g_err e)" "quiet (in_world (read_lib h))"
  by (simp_all add: redis_defs quiet_redis_cmd) (auto simp: quiet_def in_world_eq)

lemma quiet_ignore: "quiet c \<Longrightarrow> quiet (ignore_error c)"
  unfolding quiet_def ignore_error_def by (fastforce split: prod.splits)

lemma proxy_forwards: "forwards m req (proxy_downstream cfg lim m req)"
  unfolding forwards_def using proxy_frame by blast

lemma run_marked_forwards: "forwards m req (run_marked ttl k (proxy_downstream cfg lim m req))"
  unfolding run_marked_def
  by (rule forwards_quiet [OF proxy_forwards]) (auto intro!: quiet_then quiet_ignore quiet_rules)

lemma idempotency_forwards: "forwards m req (idempotency_middleware ttl (proxy_downstream cfg lim) m req)"
  unfolding idempotency_middleware_def
  by (auto intro!: forwards_then [OF quiet_rules(1)] forwards_then [OF quiet_rules(2)] forwards_then [OF quiet_rules(3)]
      forwards_then [OF quiet_rules(7)] run_marked_forwards proxy_forwards quiet_forwards [OF quiet_rules(5)]
      quiet_forwards [OF quiet_rules(6)] split: option.splits)

text \<open>A key that is accepted is an active merchant's own, a live key matching the live hash only.\<close>

definition holds_key :: "lib \<Rightarrow> merchant_row \<Rightarrow> string \<Rightarrow> bool" where
  "holds_key l m key \<longleftrightarrow> me_is_active m \<and>
     (if starts_with key ''rp_live_'' then me_api_key_hash m = hash_api_key l key
      else starts_with key ''rp_test_'' \<and> me_test_api_key_hash m = hash_api_key l key)"

lemma authenticate_result:
  assumes "authenticate headers w = (x, w')"
  shows "http_log w' = http_log w \<and> wlib w' = wlib w \<and>
    (case x of Inl e \<Rightarrow> True | Inr am \<Rightarrow> \<exists>key. extract_api_key (wlib w) headers = Inr key \<and>
       (\<exists>m \<in> set (merchants (wdb w)). am_id am = me_id m \<and> holds_key (wlib w) m key))"
proof (cases "extract_api_key (wlib w) headers")
  case (Inl e)
  then show ?thesis using assms by (auto simp: authenticate_def and_then_def read_lib_def of_result_def err_def)
next
  case (Inr key)
  let ?live = "starts_with key ''rp_live_''"
  show ?thesis
  proof (cases "\<not> ?live \<and> \<not> starts_with key ''rp_test_''")
    case True
    then show ?thesis using assms Inr
      by (auto simp: authenticate_def and_then_def read_lib_def of_result_def ok_def err_def)
  next
    case False
    obtain y v where y: "sql (lookup_merchant_by_key_hash (hash_api_key (wlib w) key) ?live) w = (y, v)" by fastforce
    note q = sql_result [OF y]
    have x: "x = (case y of Inl e \<Rightarrow> Inl e | Inr f \<Rightarrow> (case f of None \<Rightarrow> Inl Unauthorized | Some am \<Rightarrow> Inr am))" "w' = v"
      using assms Inr False y
      by (auto simp: authenticate_def and_then_def read_lib_def of_result_def ok_or_def ok_def err_def
          split: sum.splits option.splits)
    show ?thesis
    proof (cases "\<exists>am. y = Inr (Some am)")
      case True
      then obtain am where am: "y = Inr (Some am)" by blast
      then obtain m where m: "find (\<lambda>m. (if ?live then me_api_key_hash m else me_test_api_key_hash m) =
          hash_api_key (wlib w) key \<and> me_is_active m) (merchants (wdb w)) = Some m" "am_id am = me_id m"
        using q by (auto simp: lookup_merchant_by_key_hash_def select_stmt_def)
      from find_set [OF m(1)] False have "m \<in> set (merchants (wdb w))" "holds_key (wlib w) m key"
        by (auto simp: holds_key_def)
      then show ?thesis using x am q Inr m(2) by auto
    next
      case False
      then show ?thesis using x q by (auto split: sum.splits option.splits)
    qed
  qed
qed

text \<open>
  C33. Only authenticated requests leave the gateway, one for each, and the service behind it sees
  the merchant that authenticated: whatever headers the client sent, a merchant header of its own
  included, the payment service extracts the id of an active merchant that holds the presented key.
\<close>

theorem forwarded_for_the_key_holder:
  assumes "gateway cfg lim verdict req (r, w) = (x, (r', w'))" and "http_log w' \<noteq> http_log w"
    and "\<And>u. uuid_parse (wlib w) (uuid_show (wlib w) u) = Some u" and "\<And>u. visible_ascii (uuid_show (wlib w) u)"
  shows "\<exists>key m q. extract_api_key (wlib w) (gq_headers req) = Inr key \<and> m \<in> set (merchants (wdb w)) \<and>
    holds_key (wlib w) m key \<and> http_log w' = http_log w @ [q] \<and> hr_method q = gq_method req \<and>
    hr_body q = JStr (gq_body req) \<and> extract_merchant (wlib w) (hr_headers q) = Inr (me_id m)"
proof -
  obtain y w1 where a: "authenticate (gq_headers req) w = (y, w1)" by fastforce
  note auth = authenticate_result [OF a]
  have nv: "verdict = None"
    using assms(1,2) by (auto simp: gateway_def rate_limit_middleware_def split: option.splits)
  show ?thesis
  proof (cases y)
    case (Inl e)
    then show ?thesis using assms(1,2) a auth nv
      by (auto simp: gateway_def rate_limit_middleware_def auth_middleware_def g_then_def in_world_def)
  next
    case (Inr am)
    then have i: "idempotency_middleware (gc_idempotency_ttl_seconds cfg) (proxy_downstream cfg lim) (am_id am) req (r, w1)
        = (x, (r', w'))"
      using assms(1) a nv by (simp add: gateway_def rate_limit_middleware_def auth_middleware_def g_then_def in_world_def)
    with idempotency_forwards [of "am_id am" req "gc_idempotency_ttl_seconds cfg" cfg lim]
    have "sends_for (am_id am) req w1 w'" unfolding forwards_def by blast
    with auth assms(2) obtain url where q: "http_log w' = http_log w @ [\<lparr>hr_method = gq_method req, hr_url = url,
        hr_headers = forwarded_headers (wlib w) (am_id am) (gq_headers req), hr_body = JStr (gq_body req)\<rparr>]"
      by (auto simp: sends_for_def)
    from auth Inr obtain key m where "extract_api_key (wlib w) (gq_headers req) = Inr key"
      "m \<in> set (merchants (wdb w))" "am_id am = me_id m" "holds_key (wlib w) m key" by auto
    then show ?thesis using q assms(3,4) [of "am_id am"]
      by (auto simp: extract_merchant_def header_str_def forwarded_headers_def)
  qed
qed

lemma visible_digits: "list_all is_digit s \<Longrightarrow> visible_ascii s"
  unfolding visible_ascii_def by (erule list.pred_mono_strong) (simp add: is_digit_def)

lemma visible_show_int: "visible_ascii (show_int n)"
proof (cases "n < 0")
  case True
  then have "visible_ascii (show_pos (- n))" by (intro visible_digits show_pos_digits) simp
  then show ?thesis using True by (simp add: show_int_def visible_ascii_def)
next
  case False
  then show ?thesis using visible_digits [OF show_pos_digits] by (simp add: show_int_def)
qed

theorem forwarded_for_the_key_holder_witness:
  "\<exists>q. http_log (snd (snd (gateway sample_gateway ''big'' None keyed_request (sample_redis, gateway_world)))) = [q] \<and>
     hr_body q = JStr ''{}'' \<and> extract_merchant sample_lib (hr_headers q) = Inr 7"
proof -
  obtain x r' w' where run: "gateway sample_gateway ''big'' None keyed_request (sample_redis, gateway_world) = (x, (r', w'))"
    by (metis prod.exhaust)
  obtain r1 w1 where "idempotency_middleware 86400 (proxy_downstream sample_gateway ''big'') 7 keyed_request (sample_redis, w1) = (x, (r', w'))"
    "w1 = gateway_world\<lparr>stmt_next := Suc 0, clock_next := Suc 0\<rparr>"
    using run
    by (simp add: gateway_def rate_limit_middleware_def auth_middleware_def authenticate_def g_then_def in_world_def
        extract_api_key_def visible_ascii_def lookup_merchant_by_key_hash_def keyed_request_def gateway_world_def
        sample_gateway_def hash_api_key_def sha256_hex_def sample_lib_def run_defs cong: lazy_congs)
  then have "length (http_log w') = 1"
    by (auto simp: gateway_eval keyed_request_def sample_gateway_def sample_redis_def gateway_world_def sample_lib_def run_defs
        cong: lazy_congs)
  then have log: "http_log w' \<noteq> http_log gateway_world" by (auto simp: gateway_world_def sample_world_def)
  have lib: "wlib gateway_world = sample_lib" "http_log gateway_world = []" by (simp_all add: gateway_world_def sample_world_def)
  have id: "\<And>u. visible_ascii (uuid_show sample_lib u)" by (simp add: sample_lib_def visible_show_int)
  have ms: "m \<in> set (merchants (wdb gateway_world)) \<Longrightarrow> me_id m = 7" for m
    by (simp add: gateway_world_def sample_world_def sample_merchant_def)
  from forwarded_for_the_key_holder [OF run log, unfolded lib, OF sample_uuid_roundtrip id] ms
  show ?thesis unfolding run by (fastforce simp: keyed_request_def)
qed

end
