(* ===== verification/Merchant.thy ===== *)
theory Merchant
  imports Gateway
begin

text \<open>
  \<open>crates/merchant-service/src\<close>: the statements of \<open>db.rs\<close> and the handlers of
  \<open>handlers.rs\<close>. Random bytes are arguments, as is the master key the handlers take from the
  environment. The triggers of migrations 001 and 007 stamp \<open>updated_at\<close> and add one to
  \<open>version\<close> on every UPDATE of a merchant.
\<close>

section \<open>Statements\<close>

record create_merchant_input =
  cm_business_name :: string
  cm_email :: string
  cm_phone :: "string option"
  cm_website :: "string option"

record create_merchant_result =
  cr_merchant :: merchant
  cr_live_api_key :: string
  cr_test_api_key :: string

definition row_to_merchant :: "merchant_row \<Rightarrow> merchant" where
  "row_to_merchant r = merchant.truncate r"

definition get_merchant_by_id :: "uuid \<Rightarrow> merchant option M" where
  "get_merchant_by_id i = sql (select_stmt (\<lambda>d. map_option row_to_merchant (find (\<lambda>m. me_id m = i) (merchants d))))"

definition get_merchant_by_api_key_hash :: "string \<Rightarrow> merchant option M" where
  "get_merchant_by_api_key_hash h = sql (select_stmt (\<lambda>d. map_option row_to_merchant
     (find (\<lambda>m. (me_api_key_hash m = h \<or> me_test_api_key_hash m = h) \<and> me_is_active m) (merchants d))))"

definition new_merchant_row ::
  "uuid \<Rightarrow> create_merchant_input \<Rightarrow> string \<Rightarrow> string \<Rightarrow> string \<Rightarrow> time \<Rightarrow> merchant_row" where
  "new_merchant_row i input live_hash test_hash webhook_secret_enc now =
     \<lparr>me_id = i, me_business_name = cm_business_name input, me_email = cm_email input, me_phone = cm_phone input,
      me_website = cm_website input, me_kyc_status = KycPending, me_api_key_hash = live_hash,
      me_test_api_key_hash = test_hash, me_webhook_url = None, me_webhook_secret_enc = Some webhook_secret_enc,
      me_fee_plan_id = None, me_is_active = True, me_created_at = now, me_updated_at = now, me_version = 1\<rparr>"

text \<open>The primary key and the unique columns of the table.\<close>

definition merchant_insertable :: "database \<Rightarrow> merchant_row \<Rightarrow> bool" where
  "merchant_insertable d r \<longleftrightarrow> \<not> list_ex (\<lambda>q. me_id q = me_id r \<or> me_email q = me_email r \<or>
     me_api_key_hash q = me_api_key_hash r \<or> me_test_api_key_hash q = me_test_api_key_hash r) (merchants d)"

definition insert_merchant :: "merchant_row \<Rightarrow> unit stmt" where
  "insert_merchant r = insert_stmt (\<lambda>t d.
     if merchant_insertable d r then Some (d\<lparr>merchants := merchants d @ [r]\<rparr>) else None)"

definition insert_balance :: "uuid \<Rightarrow> unit stmt" where
  "insert_balance i = insert_stmt (\<lambda>t d.
     if list_ex (\<lambda>b. mb_merchant_id b = i) (merchant_balances d) then Some d
     else if has_merchant d i then Some (d\<lparr>merchant_balances := merchant_balances d @
       [\<lparr>mb_merchant_id = i, mb_available = 0, mb_pending = 0, mb_reserved = 0\<rparr>]\<rparr>)
     else None)"

definition create_merchant_db ::
  "string \<Rightarrow> string \<Rightarrow> string \<Rightarrow> string \<Rightarrow> create_merchant_input \<Rightarrow> string \<Rightarrow> create_merchant_result M" where
  "create_merchant_db live_bytes test_bytes secret_bytes nonce input vault_key_hex =
     and_then (read_lib (\<lambda>l. (generate_api_key l live_bytes True, generate_api_key l test_bytes False))) (\<lambda>(live_key, test_key).
     and_then (read_lib (\<lambda>l. (hash_api_key l live_key, hash_api_key l test_key))) (\<lambda>(live_hash, test_hash).
     and_then (read_lib (\<lambda>l. encrypt_aes256gcm l nonce vault_key_hex (generate_webhook_secret l secret_bytes))) (\<lambda>sealed.
     case sealed of
       Inl e \<Rightarrow> err (anyhow_error ''Failed to encrypt webhook secret'')
     | Inr webhook_secret_enc \<Rightarrow>
         and_then new_v4 (\<lambda>i.
         and_then utc_now (\<lambda>now.
         and_then (transaction (and_then
             (sql (insert_merchant (new_merchant_row i input live_hash test_hash webhook_secret_enc now))) (\<lambda>_.
             sql (insert_balance i)))) (\<lambda>_.
         and_then (get_merchant_by_id i) (\<lambda>found.
         and_then (ok_or (anyhow_error ''Merchant not found after insert'') found) (\<lambda>m.
         ok \<lparr>cr_merchant = m, cr_live_api_key = live_key, cr_test_api_key = test_key\<rparr>))))))))"

definition coalesce :: "'a option \<Rightarrow> 'a option \<Rightarrow> 'a option" where
  "coalesce a b = (case a of None \<Rightarrow> b | Some x \<Rightarrow> Some x)"

text \<open>What the triggers do to a row that an UPDATE changes.\<close>

definition touch_merchant :: "time \<Rightarrow> merchant_row \<Rightarrow> merchant_row" where
  "touch_merchant now m = m\<lparr>me_updated_at := now, me_version := me_version m + 1\<rparr>"

definition updated_row ::
  "string option \<Rightarrow> string option \<Rightarrow> string option \<Rightarrow> string option \<Rightarrow> merchant_row \<Rightarrow> merchant_row" where
  "updated_row business_name phone website webhook_url m =
     m\<lparr>me_business_name := unwrap_or business_name (me_business_name m), me_phone := coalesce phone (me_phone m),
       me_website := coalesce website (me_website m), me_webhook_url := coalesce webhook_url (me_webhook_url m)\<rparr>"

definition at_version :: "uuid \<Rightarrow> i64 \<Rightarrow> merchant_row \<Rightarrow> bool" where
  "at_version merchant_id expected_version m \<longleftrightarrow>
     me_id m = merchant_id \<and> me_version m = expected_version \<and> me_is_active m"

text \<open>An UPDATE of the merchants that satisfy a condition: the number of rows, a version at its maximum an error.\<close>

definition update_merchants ::
  "(merchant_row \<Rightarrow> bool) \<Rightarrow> (merchant_row \<Rightarrow> merchant_row) \<Rightarrow> nat stmt" where
  "update_merchants P f = (\<lambda>now d.
     if list_ex (\<lambda>m. P m \<and> me_version m = 9223372036854775807) (merchants d) then Inl OutOfRange
     else Inr (length (filter P (merchants d)),
       d\<lparr>merchants := upd_where P (\<lambda>m. touch_merchant now (f m)) (merchants d)\<rparr>))"

definition update_merchant_db ::
  "uuid \<Rightarrow> string option \<Rightarrow> string option \<Rightarrow> string option \<Rightarrow> string option \<Rightarrow> i64 \<Rightarrow> bool M" where
  "update_merchant_db merchant_id business_name phone website webhook_url expected_version =
     and_then (sql (update_merchants (at_version merchant_id expected_version)
       (updated_row business_name phone website webhook_url))) (\<lambda>rows_affected. ok (rows_affected > 0))"

text \<open>\<open>UPDATE merchants SET api_key_hash = $1\<close> (or the test column) under its unique constraint.\<close>

definition set_key_hash :: "bool \<Rightarrow> string \<Rightarrow> merchant_row \<Rightarrow> merchant_row" where
  "set_key_hash is_live h m = (if is_live then m\<lparr>me_api_key_hash := h\<rparr> else m\<lparr>me_test_api_key_hash := h\<rparr>)"

definition key_hash_of :: "bool \<Rightarrow> merchant_row \<Rightarrow> string" where
  "key_hash_of is_live m = (if is_live then me_api_key_hash m else me_test_api_key_hash m)"

definition rotate_stmt :: "uuid \<Rightarrow> bool \<Rightarrow> string \<Rightarrow> nat stmt" where
  "rotate_stmt merchant_id is_live new_hash = (\<lambda>now d.
     if list_ex (\<lambda>m. me_id m = merchant_id) (merchants d) \<and>
        list_ex (\<lambda>m. me_id m \<noteq> merchant_id \<and> key_hash_of is_live m = new_hash) (merchants d)
     then Inl ConstraintViolated
     else update_merchants (\<lambda>m. me_id m = merchant_id) (set_key_hash is_live new_hash) now d)"

definition insert_audit :: "audit_entry \<Rightarrow> unit stmt" where
  "insert_audit a = update_stmt (\<lambda>t d. d\<lparr>audit_log := audit_log d @ [a]\<rparr>)"

definition rotate_api_key_db :: "string \<Rightarrow> uuid \<Rightarrow> bool \<Rightarrow> string M" where
  "rotate_api_key_db key_bytes merchant_id is_live =
     and_then (read_lib (\<lambda>l. generate_api_key l key_bytes is_live)) (\<lambda>new_key.
     and_then (read_lib (\<lambda>l. hash_api_key l new_key)) (\<lambda>new_hash.
     and_then (sql (rotate_stmt merchant_id is_live new_hash)) (\<lambda>_.
     and_then (sql (insert_audit \<lparr>au_actor_id = merchant_id, au_event = ''api_key.rotated'',
         au_resource_type = ''merchant'', au_resource_id = merchant_id\<rparr>)) (\<lambda>_.
     ok new_key))))"

definition endpoint_insertable :: "database \<Rightarrow> webhook_endpoint \<Rightarrow> bool" where
  "endpoint_insertable d e \<longleftrightarrow> \<not> list_ex (\<lambda>q. we_id q = we_id e) (webhook_endpoints d) \<and> has_merchant d (we_merchant_id e)"

definition insert_endpoint :: "uuid \<Rightarrow> uuid \<Rightarrow> string \<Rightarrow> string \<Rightarrow> string list \<Rightarrow> unit stmt" where
  "insert_endpoint i merchant_id url secret_enc events = insert_stmt (\<lambda>now d.
     let e = \<lparr>we_id = i, we_merchant_id = merchant_id, we_url = url, we_secret_enc = secret_enc, we_events = events,
              we_is_active = True, we_created_at = now, we_updated_at = now\<rparr> in
     if endpoint_insertable d e then Some (d\<lparr>webhook_endpoints := webhook_endpoints d @ [e]\<rparr>) else None)"

definition register_webhook_endpoint :: "string \<Rightarrow> string \<Rightarrow> uuid \<Rightarrow> string \<Rightarrow> string list \<Rightarrow> string \<Rightarrow> uuid M" where
  "register_webhook_endpoint secret_bytes nonce merchant_id url events vault_key_hex =
     and_then (read_lib (\<lambda>l. encrypt_aes256gcm l nonce vault_key_hex (generate_webhook_secret l secret_bytes))) (\<lambda>sealed.
     case sealed of
       Inl e \<Rightarrow> err (anyhow_error ''Failed to encrypt webhook secret'')
     | Inr secret_enc \<Rightarrow>
         and_then new_v4 (\<lambda>i.
         and_then (sql (insert_endpoint i merchant_id url secret_enc events)) (\<lambda>_.
         ok i)))"

definition get_merchant_balance :: "uuid \<Rightarrow> merchant_balance M" where
  "get_merchant_balance merchant_id =
     and_then (sql (select_stmt (\<lambda>d. find (\<lambda>b. mb_merchant_id b = merchant_id) (merchant_balances d)))) (\<lambda>row.
     ok (case row of
       Some b \<Rightarrow> b
     | None \<Rightarrow> \<lparr>mb_merchant_id = merchant_id, mb_available = 0, mb_pending = 0, mb_reserved = 0\<rparr>))"

section \<open>Handlers\<close>

text \<open>\<open>map_err(|e| AppError::Internal(e.to_string()))\<close>.\<close>

definition internal :: "'a M \<Rightarrow> 'a M" where
  "internal m = match_result m (\<lambda>e. err (Internal (anyhow_text e))) ok"

definition validate_create_merchant ::
  "(string \<Rightarrow> bool) \<Rightarrow> (string \<Rightarrow> bool) \<Rightarrow> create_merchant_input \<Rightarrow> string list" where
  "validate_create_merchant valid_email valid_url r = failing
     [(''business_name'', 1 \<le> str_len (cm_business_name r) \<and> str_len (cm_business_name r) \<le> 200),
      (''email'', valid_email (cm_email r)),
      (''phone'', opt_ok (\<lambda>s. str_len s \<le> 20) (cm_phone r)),
      (''website'', opt_ok valid_url (cm_website r))]"

definition create_merchant ::
  "(string \<Rightarrow> bool) \<Rightarrow> (string \<Rightarrow> bool) \<Rightarrow> string \<Rightarrow> string \<Rightarrow> string \<Rightarrow> string \<Rightarrow> string \<Rightarrow>
     create_merchant_input \<Rightarrow> (nat \<times> create_merchant_result api_response) M" where
  "create_merchant valid_email valid_url vault_key live_bytes test_bytes secret_bytes nonce req =
     and_then (check_valid (validate_create_merchant valid_email valid_url req)) (\<lambda>_.
     and_then (internal (create_merchant_db live_bytes test_bytes secret_bytes nonce req vault_key)) (\<lambda>result.
     respond 201 result))"

definition get_merchant :: "uuid \<Rightarrow> (nat \<times> merchant api_response) M" where
  "get_merchant merchant_id =
     and_then (internal (get_merchant_by_id merchant_id)) (\<lambda>found.
     and_then (read_lib (\<lambda>l. NotFound (''Merchant '' @ uuid_show l merchant_id @ '' not found''))) (\<lambda>e.
     and_then (ok_or e found) (\<lambda>m. respond 200 m)))"

record update_merchant_request =
  um_business_name :: "string option"
  um_phone :: "string option"
  um_website :: "string option"
  um_webhook_url :: "string option"
  um_version :: i64

definition update_merchant :: "uuid \<Rightarrow> update_merchant_request \<Rightarrow> (nat \<times> merchant api_response) M" where
  "update_merchant merchant_id req =
     and_then (internal (update_merchant_db merchant_id (um_business_name req) (um_phone req) (um_website req)
         (um_webhook_url req) (um_version req))) (\<lambda>updated.
     if \<not> updated then err (Validation (''Optimistic locking conflict '' @ em_dash @
         '' another update was applied. Refetch and retry.''))
     else and_then (internal (get_merchant_by_id merchant_id)) (\<lambda>found.
          and_then (read_lib (\<lambda>l. NotFound (''Merchant '' @ uuid_show l merchant_id))) (\<lambda>e.
          and_then (ok_or e found) (\<lambda>m. respond 200 m))))"

definition rotate_api_key :: "string \<Rightarrow> uuid \<Rightarrow> bool \<Rightarrow> (nat \<times> (string \<times> bool) api_response) M" where
  "rotate_api_key key_bytes merchant_id is_live =
     and_then (internal (rotate_api_key_db key_bytes merchant_id is_live)) (\<lambda>new_key. respond 200 (new_key, is_live))"

definition get_balance :: "uuid \<Rightarrow> (nat \<times> merchant_balance api_response) M" where
  "get_balance merchant_id =
     and_then (internal (get_merchant_balance merchant_id)) (\<lambda>balance.
     respond 200 (balance\<lparr>mb_merchant_id := merchant_id\<rparr>))"

definition register_webhook ::
  "(string \<Rightarrow> bool) \<Rightarrow> string \<Rightarrow> string \<Rightarrow> string \<Rightarrow> uuid \<Rightarrow> string \<Rightarrow> string list \<Rightarrow> (nat \<times> json api_response) M" where
  "register_webhook valid_url vault_key secret_bytes nonce merchant_id url events =
     and_then (check_valid (failing [(''url'', valid_url url)])) (\<lambda>_.
     and_then (internal (register_webhook_endpoint secret_bytes nonce merchant_id url events vault_key)) (\<lambda>endpoint_id.
     and_then (read_lib (\<lambda>l. JObj [(''endpoint_id'', uuid_json l endpoint_id)])) (\<lambda>body. respond 201 body)))"

section \<open>Key rotation\<close>

text \<open>The identifiers and both key columns are unique.\<close>

definition merchants_unique :: "database \<Rightarrow> bool" where
  "merchants_unique d \<longleftrightarrow> distinct (map me_id (merchants d)) \<and>
     distinct (map (key_hash_of True) (merchants d)) \<and> distinct (map (key_hash_of False) (merchants d))"

lemma internal_InrD: "internal m w = (Inr a, w') \<Longrightarrow> m w = (Inr a, w')"
  by (auto simp: internal_def match_result_def split: prod.splits sum.splits)

lemma rotate_stmt_InrD:
  assumes "rotate_stmt i live h t d = Inr (n, d')"
  shows "merchants d' = upd_where (\<lambda>m. me_id m = i) (\<lambda>m. touch_merchant t (set_key_hash live h m)) (merchants d) \<and>
    ((\<exists>m \<in> set (merchants d). me_id m = i) \<longrightarrow>
       (\<forall>m \<in> set (merchants d). me_id m \<noteq> i \<longrightarrow> key_hash_of live m \<noteq> h))"
  using assms by (auto simp: rotate_stmt_def update_merchants_def list_ex_iff split: if_splits)

lemma rotate_api_key_InrE:
  assumes "rotate_api_key kb i live w = (Inr (st, resp), w')"
  obtains t d n where "rotate_stmt i live (hash_api_key (wlib w) (generate_api_key (wlib w) kb live)) t (wdb w) = Inr (n, d)"
    and "merchants (wdb w') = merchants d" and "wlib w' = wlib w"
    and "ar_data resp = Some (generate_api_key (wlib w) kb live, live)"
proof -
  let ?key = "generate_api_key (wlib w) kb live"
  obtain n v1 v2 where r: "sql (rotate_stmt i live (hash_api_key (wlib w) ?key)) w = (Inr n, v1)"
    and a: "sql (insert_audit \<lparr>au_actor_id = i, au_event = ''api_key.rotated'',
         au_resource_type = ''merchant'', au_resource_id = i\<rparr>) v1 = (Inr (), v2)"
    and s: "respond 200 (?key, live) v2 = (Inr (st, resp), w')"
    using assms
    by (auto simp: rotate_api_key_def rotate_api_key_db_def elim!: and_then_InrE dest!: internal_InrD)
  obtain t where "rotate_stmt i live (hash_api_key (wlib w) ?key) t (wdb w) = Inr (n, wdb v1)" "wlib v1 = wlib w"
    using r by (elim sql_InrE)
  moreover have "merchants (wdb v2) = merchants (wdb v1)" "wlib v2 = wlib v1"
    using a by (auto elim!: sql_InrE simp: insert_audit_def update_stmt_def dest!: sym [of _ "wdb v2"])
  ultimately show ?thesis using that respond_InrD [OF s] by metis
qed

text \<open>The key in the header of a request, looked up in a database that answers.\<close>

lemma authenticate_by_header:
  assumes "visible_ascii key" and "starts_with key (if live then ''rp_live_'' else ''rp_test_'')"
    and "stmt_ok w (stmt_next w)" and "commit_ok (wdb w)"
  shows "fst (authenticate [(''x-api-key'', key)] w) =
    (case find (\<lambda>m. key_hash_of live m = hash_api_key (wlib w) key \<and> me_is_active m) (merchants (wdb w)) of
       None \<Rightarrow> Inl Unauthorized
     | Some m \<Rightarrow> Inr \<lparr>am_id = me_id m, am_business_name = me_business_name m, am_is_live = live\<rparr>)"
proof -
  have live: "starts_with key ''rp_live_'' = live" "\<not> live \<Longrightarrow> starts_with key ''rp_test_''"
    using assms(2) by (cases live; auto simp: starts_with_iff)+
  let ?q = "lookup_merchant_by_key_hash (hash_api_key (wlib w) key) live"
  let ?f = "find (\<lambda>m. key_hash_of live m = hash_api_key (wlib w) key \<and> me_is_active m) (merchants (wdb w))"
  obtain v where v: "sql ?q w = (Inr (map_option (\<lambda>m. \<lparr>am_id = me_id m, am_business_name = me_business_name m,
      am_is_live = live\<rparr>) ?f), v)"
    using sql_runs [of w ?q _ "wdb w"] assms(3,4)
    by (fastforce simp: lookup_merchant_by_key_hash_def select_stmt_def key_hash_of_def)
  show ?thesis
    using assms(1) live v
    by (auto simp: authenticate_def extract_api_key_def read_lib_def and_then_def of_result_def ok_def err_def ok_or_def Let_def
        split: option.split)
qed

lemma find_none_hash: "(\<forall>m \<in> set ms. key_hash_of live m \<noteq> h) \<Longrightarrow> find (\<lambda>m. key_hash_of live m = h \<and> P m) ms = None"
  by (auto simp: find_None_iff)

abbreviation rekeyed :: "bool \<Rightarrow> string \<Rightarrow> time \<Rightarrow> merchant_row \<Rightarrow> merchant_row" where
  "rekeyed live h t m \<equiv> touch_merchant t (set_key_hash live h m)"

lemma rekeyed_simps: "key_hash_of live (rekeyed live h t q) = h" "me_id (rekeyed live h t q) = me_id q"
  "me_is_active (rekeyed live h t q) = me_is_active q" "me_business_name (rekeyed live h t q) = me_business_name q"
  by (simp_all add: touch_merchant_def set_key_hash_def key_hash_of_def)

lemma merchants_uniqueD:
  assumes "merchants_unique d"
  shows "distinct (map (key_hash_of live) (merchants d))" and "distinct (map me_id (merchants d))"
  using assms by (cases live; simp add: merchants_unique_def)+

lemma rotated_key_found:
  assumes r: "rotate_stmt i live h t d = Inr (n, d')" and u: "merchants_unique d"
    and m: "m \<in> set (merchants d)" "me_id m = i" "me_is_active m"
  shows "find (\<lambda>m. key_hash_of live m = h \<and> me_is_active m) (merchants d') = Some (rekeyed live h t m)"
proof (rule find_unique)
  note rd = rotate_stmt_InrD [OF r]
  show "rekeyed live h t m \<in> set (merchants d')" using m by (auto simp: rd in_upd_where)
  show "key_hash_of live (rekeyed live h t m) = h \<and> me_is_active (rekeyed live h t m)"
    using m(3) by (simp add: rekeyed_simps)
  fix y assume y: "y \<in> set (merchants d')" "key_hash_of live y = h \<and> me_is_active y"
  then obtain q where q: "q \<in> set (merchants d)" "y = (if me_id q = i then rekeyed live h t q else q)"
    by (auto simp: rd in_upd_where)
  have "me_id q = i" using rd m(1,2) q y(2) by (cases "me_id q = i") auto
  with key_row [OF merchants_uniqueD(2) [OF u] m(1) q(1)] m(2) q(2) show "y = rekeyed live h t m" by simp
qed

lemma rotated_key_gone:
  assumes r: "rotate_stmt i live h t d = Inr (n, d')" and u: "merchants_unique d"
    and m: "m \<in> set (merchants d)" "me_id m = i" and old: "key_hash_of live m \<noteq> h"
  shows "\<forall>y \<in> set (merchants d'). key_hash_of live y \<noteq> key_hash_of live m"
proof
  fix y assume "y \<in> set (merchants d')"
  then obtain q where q: "q \<in> set (merchants d)" "y = (if me_id q = i then rekeyed live h t q else q)"
    using rotate_stmt_InrD [OF r] by (auto simp: in_upd_where)
  show "key_hash_of live y \<noteq> key_hash_of live m"
  proof (cases "me_id q = i")
    case True
    then show ?thesis using q(2) old by (simp add: rekeyed_simps)
  next
    case False
    then have "q \<noteq> m" using m(2) by auto
    with key_row [OF merchants_uniqueD(1) [OF u] m(1) q(1)] have "key_hash_of live q \<noteq> key_hash_of live m" by auto
    then show ?thesis using False q(2) by simp
  qed
qed

text \<open>
  C34. Rotating a key takes effect at the gateway: the key the answer carries authenticates the
  merchant, with the mode it was issued for, and the replaced key is refused, in every later
  state in which the merchants have not changed again. The digests of the two keys are assumed
  to differ.
\<close>

theorem rotation_replaces_the_key:
  assumes "rotate_api_key kb i live w = (Inr (st, resp), w')"
    and "merchants_unique (wdb w)" and "m \<in> set (merchants (wdb w))" and "me_id m = i" and "me_is_active m"
    and "key_hash_of live m = hash_api_key (wlib w) old" and "starts_with old (if live then ''rp_live_'' else ''rp_test_'')"
    and "hash_api_key (wlib w) (generate_api_key (wlib w) kb live) \<noteq> hash_api_key (wlib w) old"
    and "visible_ascii old" and "\<And>b. visible_ascii (hex_encode (wlib w) b)"
    and "merchants (wdb v) = merchants (wdb w')" and "wlib v = wlib w" and "stmt_ok v (stmt_next v)" and "commit_ok (wdb v)"
  shows "\<exists>new. ar_data resp = Some (new, live) \<and>
    fst (authenticate [(''x-api-key'', new)] v) = Inr \<lparr>am_id = i, am_business_name = me_business_name m, am_is_live = live\<rparr> \<and>
    fst (authenticate [(''x-api-key'', old)] v) = Inl Unauthorized"
proof -
  let ?new = "generate_api_key (wlib w) kb live" and ?h = "hash_api_key (wlib w)"
  from rotate_api_key_InrE [OF assms(1)] obtain t d n where
    r: "rotate_stmt i live (?h ?new) t (wdb w) = Inr (n, d)" and d: "merchants (wdb w') = merchants d"
    and data: "ar_data resp = Some (?new, live)" by metis
  note found = rotated_key_found [OF r assms(2-5)]
  have "\<forall>y \<in> set (merchants d). key_hash_of live y \<noteq> ?h old"
    using rotated_key_gone [OF r assms(2-4)] assms(6,8) by auto
  note gone = find_none_hash [OF this]
  have vis: "visible_ascii ?new"
    using assms(10) [of kb] by (auto simp: generate_api_key_def visible_ascii_def)
  show ?thesis
    using data found gone rekeyed_simps(2,4) assms(4,11,12) d
      authenticate_by_header [OF vis generate_api_key_prefix assms(13,14)]
      authenticate_by_header [OF assms(9,7,13,14)] by auto
qed

lemma visible_hex: "visible_ascii (concat (map hex_byte s))"
proof -
  have "32 \<le> (of_char (hex_digit n) :: nat) \<and> (of_char (hex_digit n) :: nat) < 127" if "n < 16" for n
    using that by (auto simp: hex_digit_def)
  moreover have "(of_char c :: nat) div 16 < 16" for c :: char
    by (rule less_mult_imp_div_less) (use nat_of_char_less_256 [of c] in simp)
  ultimately show ?thesis by (induction s) (simp_all add: visible_ascii_def hex_byte_def)
qed

lemma sample_hex: "hex_byte (CHR ''n'') = ''6e''"
  by code_simp

lemma sample_rotation:
  "\<exists>resp w'. rotate_api_key ''n'' 7 True gateway_world = (Inr (200, resp), w') \<and> wlib w' = sample_lib \<and>
     stmt_ok w' (stmt_next w') \<and> commit_ok (wdb w') \<and> ar_data resp = Some (''rp_live_6e'', True)"
  by (simp add: rotate_api_key_def rotate_api_key_db_def internal_def rotate_stmt_def update_merchants_def insert_audit_def
      respond_def new_request_id_def gateway_world_def set_key_hash_def key_hash_of_def touch_merchant_def run_defs
      api_ok_def generate_api_key_def sample_lib_def sample_hex cong: lazy_congs)

theorem rotation_replaces_the_key_witness:
  "let w' = snd (rotate_api_key ''n'' 7 True gateway_world)
   in fst (authenticate [(''x-api-key'', ''rp_live_6e'')] w') = Inr \<lparr>am_id = 7, am_business_name = ''Shop'', am_is_live = True\<rparr> \<and>
      fst (authenticate [(''x-api-key'', ''rp_live_k'')] w') = Inl Unauthorized"
proof -
  obtain resp w' where run: "rotate_api_key ''n'' 7 True gateway_world = (Inr (200, resp), w')" "wlib w' = sample_lib"
    "stmt_ok w' (stmt_next w')" "commit_ok (wdb w')" "ar_data resp = Some (''rp_live_6e'', True)"
    using sample_rotation by blast
  let ?m = "sample_merchant\<lparr>me_api_key_hash := hash_api_key sample_lib ''rp_live_k''\<rparr>"
  have w: "wlib gateway_world = sample_lib" "merchants (wdb gateway_world) = [?m]"
    by (simp_all add: gateway_world_def sample_world_def)
  have m: "merchants_unique (wdb gateway_world)" "?m \<in> set (merchants (wdb gateway_world))" "me_id ?m = 7" "me_is_active ?m"
    "key_hash_of True ?m = hash_api_key (wlib gateway_world) ''rp_live_k''"
    by (simp_all add: merchants_unique_def w key_hash_of_def sample_merchant_def)
  have h: "hash_api_key (wlib gateway_world) (generate_api_key (wlib gateway_world) ''n'' True)
      \<noteq> hash_api_key (wlib gateway_world) ''rp_live_k''"
    unfolding w(1) by code_simp
  have vis: "visible_ascii ''rp_live_k''" "visible_ascii (hex_encode (wlib gateway_world) b)" for b
    unfolding w(1) by (code_simp, simp add: sample_lib_def visible_hex)
  from rotation_replaces_the_key [OF run(1) m(1-5) _ h vis refl _ run(3,4)] run(2,5) w(1)
  show ?thesis unfolding run(1) by (simp add: sample_merchant_def)
qed

end
