(* ===== verification/Merchant_Updates.thy ===== *)
theory Merchant_Updates
  imports Merchant
begin

text \<open>
  The optimistic lock of \<open>update_merchant\<close> (\<open>crates/merchant-service/src/db.rs\<close>) against its
  abstract specification, a register with compare-and-swap for each merchant.
\<close>

section \<open>Updates refine a versioned register\<close>

text \<open>
  The abstract component: for each merchant a register holding a version and the editable part
  of the profile. A request replaces the profile and adds one to the version if it names the
  current version, and is refused otherwise.
\<close>

type_synonym profile = "string \<times> string option \<times> string option \<times> string option"
type_synonym registers = "uuid \<Rightarrow> (i64 \<times> profile) option"

definition edit :: "update_merchant_request \<Rightarrow> profile \<Rightarrow> profile" where
  "edit r p = (case p of (name, phone, website, url) \<Rightarrow>
     (unwrap_or (um_business_name r) name, coalesce (um_phone r) phone, coalesce (um_website r) website,
      coalesce (um_webhook_url r) url))"

definition compare_and_swap :: "uuid \<times> update_merchant_request \<Rightarrow> registers \<Rightarrow> bool \<times> registers" where
  "compare_and_swap q R = (case q of (i, r) \<Rightarrow>
     (case R i of
        None \<Rightarrow> (False, R)
      | Some (n, p) \<Rightarrow> if n = um_version r then (True, R(i \<mapsto> (n + 1, edit r p))) else (False, R)))"

fun cas_run :: "(uuid \<times> update_merchant_request) list \<Rightarrow> registers \<Rightarrow> bool list \<times> registers" where
  "cas_run [] R = ([], R)"
| "cas_run (q # qs) R = (case compare_and_swap q R of (b, R1) \<Rightarrow> (case cas_run qs R1 of (bs, R2) \<Rightarrow> (b # bs, R2)))"

text \<open>The requests run one after the other, each answered or lost to an error of the database.\<close>

definition run_update :: "uuid \<times> update_merchant_request \<Rightarrow> bool M" where
  "run_update q = (case q of (i, r) \<Rightarrow>
     update_merchant_db i (um_business_name r) (um_phone r) (um_website r) (um_webhook_url r) (um_version r))"

fun run_updates :: "(uuid \<times> update_merchant_request) list \<Rightarrow> world \<Rightarrow> (app_error + bool) list \<times> world" where
  "run_updates [] w = ([], w)"
| "run_updates (q # qs) w =
     (case run_update q w of (x, w1) \<Rightarrow> (case run_updates qs w1 of (xs, w2) \<Rightarrow> (x # xs, w2)))"

definition replies :: "'q list \<Rightarrow> (app_error + 'b) list \<Rightarrow> ('q \<times> 'b) list" where
  "replies qs xs = concat (map (\<lambda>(q, x). case x of Inl e \<Rightarrow> [] | Inr b \<Rightarrow> [(q, b)]) (zip qs xs))"

definition registers_of :: "database \<Rightarrow> registers" where
  "registers_of d i = map_option
     (\<lambda>m. (me_version m, (me_business_name m, me_phone m, me_website m, me_webhook_url m)))
     (find (\<lambda>m. me_id m = i \<and> me_is_active m) (merchants d))"

abbreviation applied :: "update_merchant_request \<Rightarrow> time \<Rightarrow> merchant_row \<Rightarrow> merchant_row" where
  "applied r t m \<equiv> touch_merchant t
     (updated_row (um_business_name r) (um_phone r) (um_website r) (um_webhook_url r) m)"

lemma applied_keeps: "me_id (applied r t m) = me_id m" "me_is_active (applied r t m) = me_is_active m"
  by (simp_all add: touch_merchant_def updated_row_def)

lemma registers_applied:
  assumes "merchants d' = upd_where (at_version i v) (applied r t) (merchants d)"
  shows "registers_of d' j = map_option
    (\<lambda>m. let q = (if at_version i v m then applied r t m else m) in
       (me_version q, (me_business_name q, me_phone q, me_website q, me_webhook_url q)))
    (find (\<lambda>m. me_id m = j \<and> me_is_active m) (merchants d))"
  by (simp add: registers_of_def assms find_upd_where applied_keeps option.map_comp comp_def Let_def)

lemma registers_elsewhere:
  assumes "merchants d' = upd_where (at_version i v) (applied r t) (merchants d)" and "j \<noteq> i"
  shows "registers_of d' j = registers_of d j"
proof -
  have "\<not> at_version i v q" if "find (\<lambda>m. me_id m = j \<and> me_is_active m) (merchants d) = Some q" for q
    using find_set [OF that] \<open>j \<noteq> i\<close> by (auto simp: at_version_def)
  then show ?thesis
    by (cases "find (\<lambda>m. me_id m = j \<and> me_is_active m) (merchants d)")
      (simp_all add: registers_applied [OF assms(1)] registers_of_def [of d])
qed

lemma update_merchants_cas:
  assumes ms: "merchants d' = upd_where (at_version i (um_version r)) (applied r t) (merchants d)"
    and n: "n = length (filter (at_version i (um_version r)) (merchants d))"
    and ids: "distinct (map me_id (merchants d))"
  shows "(n > 0, registers_of d') = compare_and_swap (i, r) (registers_of d)"
proof (cases "\<exists>m \<in> set (merchants d). at_version i (um_version r) m")
  case True
  then obtain m where m: "m \<in> set (merchants d)" "at_version i (um_version r) m" by blast
  have "find (\<lambda>m. me_id m = i \<and> me_is_active m) (merchants d) = Some m"
    using m ids by (intro find_unique) (auto simp: at_version_def intro: key_row)
  moreover have "n > 0" using m by (auto simp: n filter_empty_conv)
  moreover have "registers_of d' j = registers_of d j" if "j \<noteq> i" for j
    using ms that by (rule registers_elsewhere)
  moreover have "me_version m = um_version r" using m(2) by (simp add: at_version_def)
  ultimately show ?thesis using m(2)
    by (auto simp: compare_and_swap_def registers_applied [OF ms, of i] registers_of_def [of d] touch_merchant_def
        updated_row_def edit_def fun_eq_iff)
next
  case False
  then have "n = 0" "merchants d' = merchants d" by (simp_all add: n ms upd_where_none)
  moreover have "registers_of d i = Some (k, p) \<Longrightarrow> k \<noteq> um_version r" for k p
    using False find_set by (fastforce simp: registers_of_def at_version_def)
  ultimately show ?thesis
    by (auto simp: compare_and_swap_def registers_of_def fun_eq_iff split: option.splits)
qed

lemma update_refines:
  assumes run: "run_update (i, r) w = (x, w')" and ids: "distinct (map me_id (merchants (wdb w)))"
  shows "distinct (map me_id (merchants (wdb w'))) \<and>
    (case x of Inl e \<Rightarrow> registers_of (wdb w') = registers_of (wdb w)
     | Inr b \<Rightarrow> (b, registers_of (wdb w')) = compare_and_swap (i, r) (registers_of (wdb w)))"
proof -
  let ?P = "at_version i (um_version r)"
  let ?f = "updated_row (um_business_name r) (um_phone r) (um_website r) (um_webhook_url r)"
  obtain y where y: "sql (update_merchants ?P ?f) w = (y, w')"
    "x = (case y of Inl e \<Rightarrow> Inl e | Inr n \<Rightarrow> Inr (n > 0))"
    using run by (auto simp: run_update_def update_merchant_db_def and_then_def ok_def split: prod.splits sum.splits)
  show ?thesis
  proof (cases y)
    case (Inl e)
    then show ?thesis using y ids sql_InlD [OF y(1) [unfolded Inl]] by simp
  next
    case (Inr n)
    then obtain t where t: "update_merchants ?P ?f t (wdb w) = Inr (n, wdb w')" using y(1) by (auto elim: sql_InrE)
    then have n: "n = length (filter ?P (merchants (wdb w)))"
      and ms: "merchants (wdb w') = upd_where ?P (applied r t) (merchants (wdb w))"
      by (auto simp: update_merchants_def split: if_splits dest!: sym [of _ "wdb w'"])
    have "distinct (map me_id (merchants (wdb w')))" using ids by (simp add: ms map_upd_where_id applied_keeps)
    then show ?thesis using update_merchants_cas [OF ms n ids] y(2) Inr by simp
  qed
qed

lemma cas_run_versions:
  assumes "cas_run qs R = (bs, R')" and "((i, r), True) \<in> set (zip qs bs)"
  shows "\<exists>n. map_option fst (R i) = Some n \<and> n \<le> um_version r"
  using assms
proof (induction qs arbitrary: R bs)
  case (Cons q qs)
  obtain b R1 bs1 where b: "compare_and_swap q R = (b, R1)" "cas_run qs R1 = (bs1, R')" "bs = b # bs1"
    using Cons.prems(1) by (auto split: prod.splits)
  show ?case
  proof (cases "q = (i, r) \<and> b")
    case True
    then show ?thesis using b(1) by (auto simp: compare_and_swap_def split: option.splits if_splits)
  next
    case False
    then have "((i, r), True) \<in> set (zip qs bs1)" using Cons.prems(2) b(3) by auto
    from Cons.IH [OF b(2) this] obtain n where "map_option fst (R1 i) = Some n" "n \<le> um_version r" by blast
    then show ?thesis using b(1) by (auto simp: compare_and_swap_def split: option.splits if_splits prod.splits)
  qed
qed simp

lemma cas_run_once:
  "cas_run qs R = (bs, R') \<Longrightarrow> distinct (map (\<lambda>((i, r), b). (i, um_version r)) (filter snd (zip qs bs)))"
proof (induction qs arbitrary: R bs)
  case (Cons q qs)
  obtain b R1 bs1 where b: "compare_and_swap q R = (b, R1)" "cas_run qs R1 = (bs1, R')" "bs = b # bs1"
    using Cons.prems(1) by (auto split: prod.splits)
  obtain i r where q: "q = (i, r)" by fastforce
  have "um_version r' \<noteq> um_version r" if "b" "((i, r'), True) \<in> set (zip qs bs1)" for r'
  proof -
    have "map_option fst (R1 i) = Some (um_version r + 1)"
      using b(1) \<open>b\<close> q by (cases "R i") (auto simp del: split_paired_Ex simp: compare_and_swap_def split: if_splits)
    with cas_run_versions [OF b(2) that(2)] show ?thesis by auto
  qed
  then show ?case using Cons.IH [OF b(2)] b(3) q by force
qed simp

lemma run_updates_refine:
  assumes "run_updates qs w = (xs, w')" and "distinct (map me_id (merchants (wdb w)))"
  shows "cas_run (map fst (replies qs xs)) (registers_of (wdb w)) = (map snd (replies qs xs), registers_of (wdb w'))"
  using assms
proof (induction qs arbitrary: w xs)
  case (Cons q qs)
  obtain x w1 xs1 where r: "run_update q w = (x, w1)" "run_updates qs w1 = (xs1, w')" "xs = x # xs1"
    using Cons.prems(1) by (auto split: prod.splits)
  obtain i u where q: "q = (i, u)" by fastforce
  note step = update_refines [OF r(1) [unfolded q] Cons.prems(2)]
  note ih = Cons.IH [OF r(2) conjunct1 [OF step]]
  show ?case
  proof (cases x)
    case (Inl e)
    then show ?thesis using ih step r(3) by (simp add: replies_def)
  next
    case (Inr b)
    then have "compare_and_swap q (registers_of (wdb w)) = (b, registers_of (wdb w1))" using step q by simp
    then show ?thesis using ih Inr r(3) by (simp add: replies_def)
  qed
qed (simp add: replies_def)

text \<open>
  C35. The optimistic lock of merchants refines an abstract register per merchant with
  compare-and-swap: whatever requests arrive in whatever order, those that are answered are
  answered as the registers answer them and leave the merchants as the registers end up. Of all
  the updates of one merchant that read the same version, therefore, at most one succeeds: no
  update is lost under another.
\<close>

theorem updates_refine_compare_and_swap:
  assumes "run_updates qs w = (xs, w')" and "distinct (map me_id (merchants (wdb w)))"
  shows "cas_run (map fst (replies qs xs)) (registers_of (wdb w)) = (map snd (replies qs xs), registers_of (wdb w')) \<and>
    distinct (map (\<lambda>((i, r), b). (i, um_version r)) (filter snd (replies qs xs)))"
proof -
  note refine = run_updates_refine [OF assms]
  with cas_run_once [OF refine] show ?thesis by (simp add: zip_map_fst_snd)
qed

definition rename :: "string \<Rightarrow> i64 \<Rightarrow> update_merchant_request" where
  "rename name v = \<lparr>um_business_name = Some name, um_phone = None, um_website = None, um_webhook_url = None, um_version = v\<rparr>"

theorem updates_refine_compare_and_swap_witness:
  "let (xs, w') = run_updates [(7, rename ''A'' 1), (7, rename ''B'' 1), (7, rename ''C'' 2)] gateway_world
   in xs = [Inr True, Inr False, Inr True] \<and> registers_of (wdb w') 7 = Some (3, (''C'', None, None, None))"
proof -
  let ?qs = "[(7, rename ''A'' 1), (7, rename ''B'' 1), (7, rename ''C'' 2)]"
  obtain xs w' where run: "run_updates ?qs gateway_world = (xs, w')" by fastforce
  have xs: "xs = [Inr True, Inr False, Inr True]"
    using run by (auto simp: run_update_def update_merchant_db_def update_merchants_def at_version_def updated_row_def
        touch_merchant_def rename_def gateway_world_def run_defs cong: lazy_congs)
  have w: "merchants (wdb gateway_world) = [sample_merchant\<lparr>me_api_key_hash := hash_api_key sample_lib ''rp_live_k''\<rparr>]"
    by (simp add: gateway_world_def sample_world_def)
  from updates_refine_compare_and_swap [OF run] have "cas_run ?qs (registers_of (wdb gateway_world)) =
      ([True, False, True], registers_of (wdb w'))"
    by (simp add: w xs replies_def)
  moreover have "snd (cas_run ?qs (registers_of (wdb gateway_world))) 7 = Some (3, (''C'', None, None, None))"
    by (simp add: compare_and_swap_def registers_of_def w rename_def edit_def unwrap_or_def coalesce_def sample_merchant_def)
  ultimately show ?thesis using run xs by simp
qed

end
