(* ===== verification/Order.thy ===== *)
theory Order
  imports Payment_Handlers Evaluation
begin

text \<open>
  \<open>crates/order-service/src\<close>: the statements of \<open>db.rs\<close>, the handlers of \<open>handlers.rs\<close> and the
  expiry loop of \<open>main.rs\<close>. The range of instants \<open>chrono\<close> represents is an argument; leaving it
  panics. The handlers take the merchant from an extension of the request; the router of
  \<open>routes.rs\<close> has no layer that puts one there, and \<open>axum\<close> then answers 500 itself.
\<close>

section \<open>Statements\<close>

record create_order_input =
  oi_merchant_id :: uuid
  oi_amount :: i64
  oi_currency :: currency
  oi_description :: "string option"
  oi_customer_email :: "string option"
  oi_customer_id :: "string option"
  oi_metadata :: "json option"
  oi_expires_in_minutes :: i64

text \<open>\<open>now + chrono::Duration::minutes(m)\<close>: a duration has at most \<open>i64::MAX\<close> milliseconds.\<close>

definition plus_minutes :: "time \<times> time \<Rightarrow> time \<Rightarrow> i64 \<Rightarrow> time option" where
  "plus_minutes instants now m =
     (let t = now + time_secs (60 * m) in
      if \<bar>60 * m\<bar> \<le> 9223372036854775 \<and> fst instants \<le> t \<and> t \<le> snd instants then Some t else None)"

definition new_order :: "uuid \<Rightarrow> create_order_input \<Rightarrow> time \<Rightarrow> time \<Rightarrow> order" where
  "new_order order_id input expires_at now =
     \<lparr>or_id = order_id, or_merchant_id = oi_merchant_id input, or_amount = oi_amount input,
      or_currency = oi_currency input, or_status = OrderCreated, or_customer_id = oi_customer_id input,
      or_customer_email = oi_customer_email input, or_description = oi_description input,
      or_metadata = unwrap_or (oi_metadata input) (JObj []), or_payment_id = None, or_expires_at = expires_at,
      or_created_at = now, or_updated_at = now\<rparr>"

text \<open>The primary key, the reference to the merchant and \<open>CHECK (amount > 0)\<close>.\<close>

definition order_insertable :: "database \<Rightarrow> order \<Rightarrow> bool" where
  "order_insertable d r \<longleftrightarrow> \<not> list_ex (\<lambda>q. or_id q = or_id r) (orders d) \<and> has_merchant d (or_merchant_id r) \<and>
     0 < or_amount r"

definition insert_order :: "order \<Rightarrow> unit stmt" where
  "insert_order r = insert_stmt (\<lambda>t d. if order_insertable d r then Some (d\<lparr>orders := orders d @ [r]\<rparr>) else None)"

definition get_order_by_id :: "uuid \<Rightarrow> uuid \<Rightarrow> order option M" where
  "get_order_by_id order_id merchant_id = sql (select_stmt (\<lambda>d.
     find (\<lambda>r. or_id r = order_id \<and> or_merchant_id r = merchant_id) (orders d)))"

definition create_order_db :: "time \<times> time \<Rightarrow> create_order_input \<Rightarrow> order M" where
  "create_order_db instants input =
     and_then new_v4 (\<lambda>order_id.
     and_then utc_now (\<lambda>now.
     and_then (ok_or panicked (plus_minutes instants now (oi_expires_in_minutes input))) (\<lambda>expires_at.
     and_then (sql (insert_order (new_order order_id input expires_at now))) (\<lambda>_.
     and_then (get_order_by_id order_id (oi_merchant_id input)) (\<lambda>found.
     ok_or (anyhow_error ''Order not found after insert'') found)))))"

section \<open>Expiry\<close>

definition due :: "time \<Rightarrow> order \<Rightarrow> bool" where
  "due now r \<longleftrightarrow> or_status r = OrderCreated \<and> or_expires_at r \<le> now"

definition expire_order :: "time \<Rightarrow> order \<Rightarrow> order" where
  "expire_order now r = r\<lparr>or_status := OrderExpired, or_updated_at := now\<rparr>"

definition expire_stmt :: "nat stmt" where
  "expire_stmt = (\<lambda>now d. Inr (length (filter (due now) (orders d)),
     d\<lparr>orders := upd_where (due now) (expire_order now) (orders d)\<rparr>))"

definition expire_orders :: "unit M" where
  "expire_orders = and_then (sql expire_stmt) (\<lambda>affected. ok ())"

text \<open>The spawned task: an error is logged and the loop goes on.\<close>

fun expiry_loop :: "nat \<Rightarrow> world \<Rightarrow> world" where
  "expiry_loop 0 w = w"
| "expiry_loop (Suc n) w = expiry_loop n (snd (expire_orders w))"

section \<open>Handlers\<close>

definition internal_error :: "'a M \<Rightarrow> 'a M" where
  "internal_error m = match_result m (\<lambda>e. if e = panicked then err e else err (Internal (anyhow_text e))) ok"

definition h_create_order ::
  "(string \<Rightarrow> bool) \<Rightarrow> time \<times> time \<Rightarrow> uuid \<Rightarrow> create_order_request \<Rightarrow> (nat \<times> order api_response) M" where
  "h_create_order valid_email instants merchant_id req =
     and_then (check_valid (validate_create_order valid_email req)) (\<lambda>_.
     and_then (internal_error (create_order_db instants
       \<lparr>oi_merchant_id = merchant_id, oi_amount = cor_amount req, oi_currency = cor_currency req,
        oi_description = cor_description req, oi_customer_email = cor_customer_email req,
        oi_customer_id = cor_customer_id req, oi_metadata = cor_metadata req,
        oi_expires_in_minutes = unwrap_or (cor_expires_in_minutes req) 15\<rparr>)) (\<lambda>r.
     respond 201 r))"

definition h_get_order :: "uuid \<Rightarrow> uuid \<Rightarrow> (nat \<times> order api_response) M" where
  "h_get_order merchant_id order_id =
     and_then (internal_error (get_order_by_id order_id merchant_id)) (\<lambda>found.
     and_then (read_lib (\<lambda>l. NotFound (''Order '' @ uuid_show l order_id @ '' not found''))) (\<lambda>e.
     and_then (ok_or e found) (\<lambda>r. respond 200 r)))"

text \<open>\<open>Extension(merchant_id)\<close>: without the extension \<open>axum\<close> answers 500 before the handler runs.\<close>

definition extension :: "'a option \<Rightarrow> ('a \<Rightarrow> 'b M) \<Rightarrow> 'b M" where
  "extension e h = and_then (ok_or (Internal ''Missing request extension'') e) h"

text \<open>No layer of the order service inserts a merchant, whatever headers the request carries.\<close>

definition order_extensions :: "(string \<times> string) list \<Rightarrow> uuid option" where
  "order_extensions headers = None"

definition post_order ::
  "(string \<Rightarrow> bool) \<Rightarrow> time \<times> time \<Rightarrow> (string \<times> string) list \<Rightarrow> create_order_request \<Rightarrow> (nat \<times> order api_response) M" where
  "post_order valid_email instants headers req =
     extension (order_extensions headers) (\<lambda>m. h_create_order valid_email instants m req)"

definition get_order_route :: "(string \<times> string) list \<Rightarrow> uuid \<Rightarrow> (nat \<times> order api_response) M" where
  "get_order_route headers order_id = extension (order_extensions headers) (\<lambda>m. h_get_order m order_id)"

section \<open>The life of an order\<close>

lemma internal_error_InrD: "internal_error m w = (Inr a, w') \<Longrightarrow> m w = (Inr a, w')"
  by (auto simp: internal_error_def match_result_def split: prod.splits sum.splits if_splits)

lemma created_order:
  assumes "create_order_db instants input w = (Inr r, w')"
  shows "\<exists>now e. plus_minutes instants now (oi_expires_in_minutes input) = Some e \<and> r = new_order (or_id r) input e now \<and>
    order_insertable (wdb w) r \<and> orders (wdb w') = orders (wdb w) @ [r] \<and> wlib w' = wlib w"
proof -
  let ?i = "uuid_src w (uuid_next w)" and ?now = "clock_src w (clock_next w)"
  let ?v = "w\<lparr>uuid_next := Suc (uuid_next w), clock_next := Suc (clock_next w)\<rparr>"
  obtain e v2 where now: "plus_minutes instants ?now (oi_expires_in_minutes input) = Some e"
    and ins: "sql (insert_order (new_order ?i input e ?now)) ?v = (Inr (), v2)"
    and get: "get_order_by_id ?i (oi_merchant_id input) v2 = (Inr (Some r), w')"
    using assms
    by (auto simp: create_order_db_def new_v4_def utc_now_def ok_or_def elim!: and_then_InrE split: option.splits)
  let ?r = "new_order ?i input e ?now"
  have i: "order_insertable (wdb w) ?r" "wdb v2 = (wdb w)\<lparr>orders := orders (wdb w) @ [?r]\<rparr>" "wlib v2 = wlib w"
    using ins by (auto simp: insert_order_def insert_stmt_def elim!: sql_InrE split: if_splits)
  have id: "or_id ?r = ?i" by (simp add: new_order_def)
  have "\<not> list_ex (\<lambda>q. or_id q = ?i) (orders (wdb w))" using i(1) id by (simp add: order_insertable_def)
  then have "find (\<lambda>q. or_id q = ?i \<and> or_merchant_id q = oi_merchant_id input) (orders (wdb w)) = None"
    by (auto simp: find_None_iff list_ex_iff)
  then have f: "find (\<lambda>q. or_id q = ?i \<and> or_merchant_id q = oi_merchant_id input) (orders (wdb w) @ [?r]) = Some ?r"
    by (simp add: find_append_new new_order_def)
  have "r = ?r" "wdb w' = wdb v2" "wlib w' = wlib v2"
    using sql_select_InrD [OF get [unfolded get_order_by_id_def]] i(2) f by simp_all
  then show ?thesis using now i id by auto
qed

lemma expiry_find:
  "find (\<lambda>q. or_id q = i \<and> or_merchant_id q = m) (orders (snd (sum.projr (expire_stmt t d)))) =
     map_option (\<lambda>q. if due t q then expire_order t q else q) (find (\<lambda>q. or_id q = i \<and> or_merchant_id q = m) (orders d))"
  by (simp add: expire_stmt_def find_upd_where expire_order_def)

definition expire_at :: "time \<Rightarrow> database \<Rightarrow> database" where
  "expire_at t d = snd (sum.projr (expire_stmt t d))"

lemma expiry_rounds:
  assumes "find (\<lambda>q. or_id q = i \<and> or_merchant_id q = m) (orders d) = Some r"
  shows "\<exists>u. find (\<lambda>q. or_id q = i \<and> or_merchant_id q = m) (orders (fold expire_at ts d)) =
    Some (if or_status r = OrderCreated \<and> list_ex (\<lambda>t. or_expires_at r \<le> t) ts
      then r\<lparr>or_status := OrderExpired, or_updated_at := u\<rparr> else r)"
  using assms
proof (induction ts arbitrary: d r)
  case (Cons t ts)
  have "find (\<lambda>q. or_id q = i \<and> or_merchant_id q = m) (orders (expire_at t d)) = Some (if due t r then expire_order t r else r)"
    using Cons.prems by (simp add: expire_at_def expiry_find)
  note ih = Cons.IH [OF this]
  show ?case
  proof (cases "due t r")
    case True
    then show ?thesis using ih by (auto simp: due_def expire_order_def)
  next
    case False
    then have "(if due t r then expire_order t r else r) = r" by simp
    from ih [unfolded this] False show ?thesis by (auto simp: due_def)
  qed
qed simp

abbreviation order_of :: "uuid \<Rightarrow> uuid \<Rightarrow> order list \<Rightarrow> order option" where
  "order_of i m rs \<equiv> find (\<lambda>q. or_id q = i \<and> or_merchant_id q = m) rs"

lemma h_create_order_InrE:
  assumes "h_create_order valid_email instants merchant req w = (Inr (st, resp), w')"
  obtains r rs where "ar_data resp = Some r" "orders (wdb w') = rs @ [r]" "\<forall>m. order_of (or_id r) m rs = None"
    "or_merchant_id r = merchant" "or_amount r = cor_amount req" "or_status r = OrderCreated"
    "or_expires_at r = or_created_at r + time_secs (60 * unwrap_or (cor_expires_in_minutes req) 15)"
proof -
  let ?in = "\<lparr>oi_merchant_id = merchant, oi_amount = cor_amount req, oi_currency = cor_currency req,
        oi_description = cor_description req, oi_customer_email = cor_customer_email req,
        oi_customer_id = cor_customer_id req, oi_metadata = cor_metadata req,
        oi_expires_in_minutes = unwrap_or (cor_expires_in_minutes req) 15\<rparr>"
  obtain r v1 v2 where c: "create_order_db instants ?in v1 = (Inr r, v2)" and resp: "respond 201 r v2 = (Inr (st, resp), w')"
    using assms by (auto simp: h_create_order_def elim!: and_then_InrE dest!: internal_error_InrD)
  from created_order [OF c] obtain now e where r: "plus_minutes instants now (oi_expires_in_minutes ?in) = Some e"
    "r = new_order (or_id r) ?in e now" "order_insertable (wdb v1) r" "orders (wdb v2) = orders (wdb v1) @ [r]" by blast
  have ws: "ar_data resp = Some r" "orders (wdb w') = orders (wdb v1) @ [r]" using respond_InrD [OF resp] r(4) by simp_all
  have sel: "or_merchant_id r = merchant" "or_amount r = cor_amount req" "or_status r = OrderCreated"
    "or_expires_at r = or_created_at r + time_secs (60 * unwrap_or (cor_expires_in_minutes req) 15)"
    using r(1) by (subst r(2), simp add: new_order_def plus_minutes_def Let_def split: if_splits)+
  have "order_of (or_id r) m (orders (wdb v1)) = None" for m
    using r(3) by (auto simp: find_None_iff order_insertable_def list_ex_iff)
  then have "\<forall>m. order_of (or_id r) m (orders (wdb v1)) = None" by blast
  then show ?thesis by (rule that [OF ws _ sel])
qed

lemma h_get_order_reads:
  assumes "stmt_ok v (stmt_next v)" and "commit_ok (wdb v)"
  shows "case order_of i m (orders (wdb v)) of
      None \<Rightarrow> fst (h_get_order m i v) = Inl (NotFound (''Order '' @ uuid_show (wlib v) i @ '' not found''))
    | Some q \<Rightarrow> (\<exists>a v'. h_get_order m i v = (Inr (200, a), v') \<and> ar_data a = Some q)"
proof -
  have "\<exists>v'. get_order_by_id i m v = (Inr (order_of i m (orders (wdb v))), v') \<and> wlib v' = wlib v"
    unfolding get_order_by_id_def using sql_runs [of v _ _ "wdb v"] assms by (fastforce simp: select_stmt_def)
  then show ?thesis
    by (auto simp: h_get_order_def internal_error_def match_result_def and_then_def read_lib_def ok_or_def ok_def err_def
        respond_def new_request_id_def new_v4_def api_ok_def split: option.split)
qed

lemma expiry_keeps_absent: "order_of i m (orders d) = None \<Longrightarrow> order_of i m (orders (fold expire_at ts d)) = None"
  by (induction ts arbitrary: d) (simp_all add: expire_at_def expiry_find)


definition sample_order_request :: create_order_request where
  "sample_order_request = \<lparr>cor_amount = 500, cor_currency = INR, cor_description = None, cor_customer_email = None,
     cor_customer_id = None, cor_metadata = None, cor_expires_in_minutes = Some 1\<rparr>"

definition all_instants :: "time \<times> time" where
  "all_instants = (0, time_secs 1000000)"

lemma sample_order:
  "\<exists>resp w'. h_create_order (\<lambda>s. True) all_instants 7 sample_order_request (sample_world (sample_database documented_schema))
      = (Inr (201, resp), w') \<and> (\<forall>n. stmt_ok w' n) \<and> commit_ok (expire_at (time_secs 61) (wdb w')) \<and>
     wlib w' = plain_lib"
  by (simp add: h_create_order_def sample_order_request_def validate_create_order_def failing_def opt_ok_def check_valid_def
      internal_error_def create_order_db_def plus_minutes_def all_instants_def insert_order_def order_insertable_def
      new_order_def get_order_by_id_def respond_def new_request_id_def unwrap_or_def time_secs_def
      expire_at_def expire_stmt_def run_defs cong: lazy_congs)


text \<open>No request reaches the handlers: the router never supplies the merchant they ask for.\<close>

lemma orders_cannot_be_reached:
  "\<exists>e. status_code e = 500 \<and> post_order valid_email instants headers req w = (Inl e, w) \<and>
     get_order_route headers order_id w = (Inl e, w)"
  by (rule exI [of _ "Internal ''Missing request extension''"])
     (simp add: post_order_def get_order_route_def extension_def order_extensions_def ok_or_def and_then_def err_def)

end
