(* ===== verification/Reconciler.thy ===== *)
theory Reconciler
  imports Payment_Handlers Evaluation
begin

text \<open>
  \<open>crates/reconciliation-service/src\<close>: the daily comparison of captured payments with the charges
  Stripe lists (\<open>reconciler.rs\<close>), its schedule and its endpoint (\<open>main.rs\<close>). The rows of a run are
  statements of their own, not one transaction.
\<close>

section \<open>Statements\<close>

definition run_insertable :: "database \<Rightarrow> recon_run \<Rightarrow> bool" where
  "run_insertable d r \<longleftrightarrow> \<not> list_ex (\<lambda>q. rr_id q = rr_id r) (recon_runs d)"

definition insert_run :: "recon_run \<Rightarrow> unit stmt" where
  "insert_run r = insert_stmt (\<lambda>t d. if run_insertable d r then Some (d\<lparr>recon_runs := recon_runs d @ [r]\<rparr>) else None)"

definition new_run :: "uuid \<Rightarrow> time \<Rightarrow> time \<Rightarrow> recon_run" where
  "new_run run_id period_start period_end =
     \<lparr>rr_id = run_id, rr_provider = ''stripe'', rr_period_start = period_start, rr_period_end = period_end,
      rr_status = ''running'', rr_payments_checked = 0, rr_mismatches_found = 0, rr_error = None, rr_completed_at = None\<rparr>"

definition complete_run :: "uuid \<Rightarrow> i32 \<Rightarrow> i32 \<Rightarrow> unit stmt" where
  "complete_run run_id checked mismatches = update_stmt (\<lambda>now d. d\<lparr>recon_runs := upd_where (\<lambda>r. rr_id r = run_id)
     (\<lambda>r. r\<lparr>rr_status := ''completed'', rr_payments_checked := checked, rr_mismatches_found := mismatches,
        rr_completed_at := Some now\<rparr>) (recon_runs d)\<rparr>)"

definition fail_run :: "uuid \<Rightarrow> string \<Rightarrow> unit stmt" where
  "fail_run run_id e = update_stmt (\<lambda>now d. d\<lparr>recon_runs := upd_where (\<lambda>r. rr_id r = run_id)
     (\<lambda>r. r\<lparr>rr_status := ''failed'', rr_error := Some e, rr_completed_at := Some now\<rparr>) (recon_runs d)\<rparr>)"

text \<open>The payments of the window: \<open>captured_at BETWEEN $1 AND $2\<close>.\<close>

definition stripe_captured :: "time \<Rightarrow> time \<Rightarrow> payment_row \<Rightarrow> bool" where
  "stripe_captured period_start period_end p \<longleftrightarrow> pay_acquirer_id p = Some ''stripe'' \<and>
     (case pay_captured_at p of None \<Rightarrow> False | Some t \<Rightarrow> period_start \<le> t \<and> t \<le> period_end)"

definition record_mismatch :: "uuid \<Rightarrow> uuid \<Rightarrow> string \<Rightarrow> string \<Rightarrow> string \<Rightarrow> unit M" where
  "record_mismatch run_id payment_id mismatch_type our_value provider_value = sql (insert_stmt (\<lambda>t d.
     if list_ex (\<lambda>r. rr_id r = run_id) (recon_runs d) \<and> has_payment d payment_id
     then Some (d\<lparr>recon_mismatches := recon_mismatches d @
       [\<lparr>rm_run_id = run_id, rm_payment_id = payment_id, rm_mismatch_type = mismatch_type,
         rm_our_value = our_value, rm_provider_value = provider_value\<rparr>]\<rparr>)
     else None))"

section \<open>Fetching\<close>

definition charges_query :: "i64 \<Rightarrow> i64 \<Rightarrow> string" where
  "charges_query created_gte created_lte = ''https://api.stripe.com/v1/charges?created%5Bgte%5D='' @ show_int created_gte @
     ''&created%5Blte%5D='' @ show_int created_lte @ ''&limit=100''"

text \<open>The status of the answer is not looked at; a body without a list of data is no charges.\<close>

definition fetch_stripe_charges :: "string \<Rightarrow> i64 \<Rightarrow> i64 \<Rightarrow> json list M" where
  "fetch_stripe_charges stripe_api_key created_gte created_lte =
     (if stripe_api_key = [] then ok []
      else and_then (read_lib (\<lambda>l. (''authorization'', ''Basic '' @ b64_encode l (stripe_api_key @ '':'')))) (\<lambda>auth.
           and_then (http_send \<lparr>hr_method = ''GET'', hr_url = charges_query created_gte created_lte,
               hr_headers = [auth], hr_body = JNull\<rparr>) (\<lambda>outcome.
           case outcome of
             SendError e \<Rightarrow> err (anyhow_error e)
           | Response status b \<Rightarrow>
               and_then (read_lib json_error) (\<lambda>e.
               and_then (ok_or (anyhow_error e) b) (\<lambda>body.
               ok (unwrap_or (as_array (jget body ''data'')) []))))))"

text \<open>A \<open>HashMap\<close> collected from pairs keeps the last value of a key.\<close>

definition stripe_index :: "json list \<Rightarrow> string \<Rightarrow> json option" where
  "stripe_index charges = map_of (rev (concat (map (\<lambda>c.
     case as_str (jget c ''id'') of None \<Rightarrow> [] | Some i \<Rightarrow> [(i, c)]) charges)))"

section \<open>Comparing\<close>

definition expected_stripe :: "string \<Rightarrow> string" where
  "expected_stripe our_status =
     (if our_status = ''captured'' \<or> our_status = ''settled'' then ''succeeded''
      else if our_status = ''failed'' then ''failed'' else [])"

definition count_mismatch :: "unit M \<Rightarrow> i32 \<Rightarrow> i32 M" where
  "count_mismatch recording mismatches = and_then recording (\<lambda>_. ok (wrap32 (mismatches + 1)))"

definition compare_amount :: "uuid \<Rightarrow> payment_row \<Rightarrow> json \<Rightarrow> i32 \<Rightarrow> i32 M" where
  "compare_amount run_id p charge mismatches =
     (let stripe_amount = unwrap_or (as_i64 (jget charge ''amount'')) 0 in
      if stripe_amount \<noteq> pay_amount p
      then count_mismatch (record_mismatch run_id (pay_id p) ''amount_mismatch'' (show_int (pay_amount p))
             (show_int stripe_amount)) mismatches
      else ok mismatches)"

definition compare_status :: "uuid \<Rightarrow> payment_row \<Rightarrow> json \<Rightarrow> i32 \<Rightarrow> i32 M" where
  "compare_status run_id p charge mismatches =
     (let stripe_status = unwrap_or (as_str (jget charge ''status'')) ''unknown'';
          our_status = payment_status_str (pay_status p) in
      if expected_stripe our_status \<noteq> [] \<and> stripe_status \<noteq> expected_stripe our_status
      then count_mismatch (record_mismatch run_id (pay_id p) ''status_mismatch'' our_status stripe_status) mismatches
      else ok mismatches)"

definition reconcile_payment :: "uuid \<Rightarrow> (string \<Rightarrow> json option) \<Rightarrow> payment_row \<Rightarrow> i32 \<Rightarrow> i32 M" where
  "reconcile_payment run_id idx p mismatches =
     (case pay_acquirer_reference p of
        None \<Rightarrow> ok mismatches
      | Some acquirer_ref \<Rightarrow>
          (case idx acquirer_ref of
             None \<Rightarrow> count_mismatch (record_mismatch run_id (pay_id p) ''missing_in_provider''
                 (payment_status_str (pay_status p)) ''not_found_in_stripe'') mismatches
           | Some charge \<Rightarrow> and_then (compare_amount run_id p charge mismatches) (compare_status run_id p charge)))"

fun reconcile_payments :: "uuid \<Rightarrow> (string \<Rightarrow> json option) \<Rightarrow> payment_row list \<Rightarrow> i32 \<Rightarrow> i32 M" where
  "reconcile_payments run_id idx [] mismatches = ok mismatches"
| "reconcile_payments run_id idx (p # ps) mismatches =
     and_then (reconcile_payment run_id idx p mismatches) (reconcile_payments run_id idx ps)"

definition reconcile_stripe :: "string \<Rightarrow> uuid \<Rightarrow> time \<Rightarrow> time \<Rightarrow> (i32 \<times> i32) M" where
  "reconcile_stripe stripe_api_key run_id period_start period_end =
     and_then (sql (select_stmt (\<lambda>d. filter (stripe_captured period_start period_end) (payments d)))) (\<lambda>our_payments.
     and_then (fetch_stripe_charges stripe_api_key (timestamp period_start) (timestamp period_end)) (\<lambda>stripe_charges.
     and_then (reconcile_payments run_id (stripe_index stripe_charges) our_payments 0) (\<lambda>mismatches.
     ok (wrap32 (int (length our_payments)), mismatches))))"

definition run_daily :: "string \<Rightarrow> uuid M" where
  "run_daily stripe_api_key =
     and_then utc_now (\<lambda>period_end.
     let period_start = period_end - time_secs 86400 in
     and_then new_v4 (\<lambda>run_id.
     and_then (sql (insert_run (new_run run_id period_start period_end))) (\<lambda>_.
     match_result (reconcile_stripe stripe_api_key run_id period_start period_end)
       (\<lambda>e. and_then (sql (fail_run run_id (anyhow_text e))) (\<lambda>_. err e))
       (\<lambda>(checked, mismatches). and_then (sql (complete_run run_id checked mismatches)) (\<lambda>_. ok run_id)))))"

section \<open>Schedule and endpoint\<close>

text \<open>The task sleeps until two o'clock of the next day.\<close>

definition secs_until_next_run :: "time \<Rightarrow> int" where
  "secs_until_next_run now =
     (let day = time_secs 86400; next_run = (now div day + 1) * day + time_secs 7200
      in max 0 ((next_run - now) div nanos))"

definition post_reconcile :: "string \<Rightarrow> json M" where
  "post_reconcile stripe_api_key = match_result (run_daily stripe_api_key)
     (\<lambda>e. ok (JObj [(''status'', JStr ''failed''), (''error'', JStr (anyhow_text e))]))
     (\<lambda>run_id. read_lib (\<lambda>l. JObj [(''status'', JStr ''completed''), (''run_id'', uuid_json l run_id)]))"

section \<open>The report\<close>

text \<open>
  What the run should find, as a function of the payments and the charges: for each payment the
  kinds of disagreement with our and their value, in order.
\<close>

definition disagreements :: "(string \<Rightarrow> json option) \<Rightarrow> payment_row \<Rightarrow> (string \<times> string \<times> string) list" where
  "disagreements idx p =
     (case pay_acquirer_reference p of
        None \<Rightarrow> []
      | Some r \<Rightarrow> (case idx r of
          None \<Rightarrow> [(''missing_in_provider'', payment_status_str (pay_status p), ''not_found_in_stripe'')]
        | Some c \<Rightarrow>
            (let theirs = unwrap_or (as_i64 (jget c ''amount'')) 0; status = unwrap_or (as_str (jget c ''status'')) ''unknown'';
                 ours = payment_status_str (pay_status p); expected = expected_stripe ours in
             (if theirs = pay_amount p then [] else [(''amount_mismatch'', show_int (pay_amount p), show_int theirs)]) @
             (if expected = [] \<or> status = expected then [] else [(''status_mismatch'', ours, status)]))))"

definition report :: "uuid \<Rightarrow> (string \<Rightarrow> json option) \<Rightarrow> payment_row list \<Rightarrow> recon_mismatch list" where
  "report run_id idx ps = concat (map (\<lambda>p. map (\<lambda>(kind, ours, theirs).
     \<lparr>rm_run_id = run_id, rm_payment_id = pay_id p, rm_mismatch_type = kind, rm_our_value = ours,
      rm_provider_value = theirs\<rparr>) (disagreements idx p)) ps)"

text \<open>Computations that append rows to the mismatches, all of \<open>ms\<close> if they succeed, and touch nothing else.\<close>

definition appends :: "recon_mismatch list \<Rightarrow> world \<Rightarrow> app_error + 'a \<Rightarrow> world \<Rightarrow> bool" where
  "appends ms w x w' \<longleftrightarrow> wlib w' = wlib w \<and> http_log w' = http_log w \<and> (\<exists>some rest. ms = some @ rest \<and>
     wdb w' = (wdb w)\<lparr>recon_mismatches := recon_mismatches (wdb w) @ some\<rparr> \<and>
     (case x of Inl _ \<Rightarrow> True | Inr _ \<Rightarrow> rest = []))"

lemma appendsI:
  "\<lbrakk>wlib w' = wlib w; http_log w' = http_log w; ms = some @ rest;
    wdb w' = (wdb w)\<lparr>recon_mismatches := recon_mismatches (wdb w) @ some\<rparr>; \<And>a. x = Inr a \<Longrightarrow> rest = []\<rbrakk>
   \<Longrightarrow> appends ms w x w'"
  unfolding appends_def by (auto split: sum.split)

lemma appendsE:
  assumes "appends ms w x w'"
  obtains some rest where "wlib w' = wlib w" "http_log w' = http_log w" "ms = some @ rest"
    "wdb w' = (wdb w)\<lparr>recon_mismatches := recon_mismatches (wdb w) @ some\<rparr>" "\<And>a. x = Inr a \<Longrightarrow> rest = []"
  using assms unfolding appends_def by (cases x) auto

lemma appends_cong: "\<lbrakk>appends ms w x v; \<And>b. y = Inr b \<Longrightarrow> \<exists>a. x = Inr a\<rbrakk> \<Longrightarrow> appends ms w y v"
  by (elim appendsE, rule appendsI, assumption+) blast

lemma appends_nil: "appends [] w (Inr a) w"
  by (rule appendsI [of _ _ _ "[]" "[]"]) simp_all

lemma appends_seq:
  assumes "appends ms w (Inr a) v" and "appends ns v y w'"
  shows "appends (ms @ ns) w y w'"
  using assms(1)
proof (rule appendsE)
  fix some rest assume d: "wlib v = wlib w" "http_log v = http_log w" "ms = some @ rest"
    "wdb v = (wdb w)\<lparr>recon_mismatches := recon_mismatches (wdb w) @ some\<rparr>" "\<And>b. (Inr a :: app_error + 'a) = Inr b \<Longrightarrow> rest = []"
  then have "rest = []" by blast
  with d assms(2) show ?thesis
    by (elim appendsE) (rule appendsI [where some = "ms @ _"], simp_all)
qed

lemma appends_less: "appends ms w (Inl e) v \<Longrightarrow> appends (ms @ ns) w (Inl e) v"
  by (elim appendsE, rule appendsI) simp_all

lemma record_mismatch_appends:
  assumes "record_mismatch run_id i kind ours theirs w = (x, w')"
  shows "appends [\<lparr>rm_run_id = run_id, rm_payment_id = i, rm_mismatch_type = kind, rm_our_value = ours,
    rm_provider_value = theirs\<rparr>] w x w'"
proof (cases x)
  case (Inl e)
  then show ?thesis using sql_result [OF assms [unfolded record_mismatch_def]]
    by (intro appendsI [of _ _ _ "[]"]) auto
next
  case (Inr a)
  then show ?thesis using sql_result [OF assms [unfolded record_mismatch_def]]
    by (intro appendsI [of _ _ _ _ "[]"]) (auto simp: insert_stmt_def split: option.splits if_splits)
qed

text \<open>The counter follows the rows while it fits its 32 bits.\<close>

definition counts :: "recon_mismatch list \<Rightarrow> i32 \<Rightarrow> app_error + i32 \<Rightarrow> bool" where
  "counts ms n x \<longleftrightarrow> (case x of Inl _ \<Rightarrow> True | Inr m \<Rightarrow> 0 \<le> n \<longrightarrow> n + int (length ms) < 2147483648 \<longrightarrow> m = n + int (length ms))"

lemma count_mismatch_appends:
  assumes "count_mismatch (record_mismatch run_id i kind ours theirs) n w = (x, w')"
  shows "appends [\<lparr>rm_run_id = run_id, rm_payment_id = i, rm_mismatch_type = kind, rm_our_value = ours,
    rm_provider_value = theirs\<rparr>] w x w' \<and> counts [\<lparr>rm_run_id = run_id, rm_payment_id = i, rm_mismatch_type = kind,
    rm_our_value = ours, rm_provider_value = theirs\<rparr>] n x"
proof -
  obtain y v where y: "record_mismatch run_id i kind ours theirs w = (y, v)" by fastforce
  then have x: "x = (case y of Inl e \<Rightarrow> Inl e | Inr u \<Rightarrow> Inr (wrap32 (n + 1)))" and v: "v = w'"
    using assms by (auto simp: count_mismatch_def and_then_def split: sum.splits)
  show ?thesis
  proof
    show "appends [\<lparr>rm_run_id = run_id, rm_payment_id = i, rm_mismatch_type = kind, rm_our_value = ours,
        rm_provider_value = theirs\<rparr>] w x w'"
      by (rule appends_cong [OF record_mismatch_appends [OF y [unfolded v]]]) (simp add: x split: sum.splits)
  qed (auto simp: x counts_def wrap32_small split: sum.split)
qed

lemma sequence_appends:
  assumes "and_then c f w = (x, w')"
    and "\<And>y v. c w = (y, v) \<Longrightarrow> appends ms w y v \<and> counts ms n y"
    and "\<And>m v. c w = (Inr m, v) \<Longrightarrow> f m v = (x, w') \<Longrightarrow> appends ns v x w' \<and> counts ns m x"
  shows "appends (ms @ ns) w x w' \<and> counts (ms @ ns) n x"
proof -
  obtain y v where y: "c w = (y, v)" by fastforce
  note first = assms(2) [OF y]
  show ?thesis
  proof (cases y)
    case (Inl e)
    then show ?thesis using assms(1) y first by (auto simp: and_then_def counts_def intro: appends_less)
  next
    case (Inr m)
    then have "f m v = (x, w')" using assms(1) y by (simp add: and_then_def)
    note second = assms(3) [OF y [unfolded Inr] this]
    have "counts (ms @ ns) n x" using first second Inr by (auto simp: counts_def split: sum.splits)
    moreover have "appends (ms @ ns) w x w'" 
      by (rule appends_seq [OF conjunct1 [OF first [unfolded Inr]] conjunct1 [OF second]])
    ultimately show ?thesis by blast
  qed
qed

lemma nothing_appends: "ok n w = (x, w') \<Longrightarrow> appends [] w x w' \<and> counts [] n x"
  by (auto simp: appends_nil counts_def)

lemma reconcile_payment_appends:
  assumes "reconcile_payment run_id idx p n w = (x, w')"
  shows "appends (report run_id idx [p]) w x w' \<and> counts (report run_id idx [p]) n x"
proof (cases "pay_acquirer_reference p")
  case None
  then show ?thesis using assms nothing_appends by (simp add: reconcile_payment_def report_def disagreements_def)
next
  case (Some r)
  show ?thesis
  proof (cases "idx r")
    case None
    then show ?thesis using assms Some count_mismatch_appends by (simp add: reconcile_payment_def report_def disagreements_def)
  next
    case c: (Some c)
    let ?row = "\<lambda>(kind, ours, theirs). \<lparr>rm_run_id = run_id, rm_payment_id = pay_id p, rm_mismatch_type = kind,
      rm_our_value = ours, rm_provider_value = theirs\<rparr>"
    let ?theirs = "unwrap_or (as_i64 (jget c ''amount'')) 0" and ?status = "unwrap_or (as_str (jget c ''status'')) ''unknown''"
    let ?ours = "payment_status_str (pay_status p)"
    let ?as = "if ?theirs = pay_amount p then [] else [?row (''amount_mismatch'', show_int (pay_amount p), show_int ?theirs)]"
    let ?ss = "if expected_stripe ?ours = [] \<or> ?status = expected_stripe ?ours then [] else [?row (''status_mismatch'', ?ours, ?status)]"
    have rep: "report run_id idx [p] = ?as @ ?ss" using Some c by (simp add: report_def disagreements_def Let_def)
    have run: "and_then (compare_amount run_id p c n) (compare_status run_id p c) w = (x, w')"
      using assms Some c by (simp add: reconcile_payment_def)
    show ?thesis unfolding rep
    proof (rule sequence_appends [OF run])
      show "appends ?as w y v \<and> counts ?as n y" if "compare_amount run_id p c n w = (y, v)" for y v
        using that nothing_appends count_mismatch_appends
        by (cases "?theirs = pay_amount p") (simp_all add: compare_amount_def Let_def)
      show "appends ?ss v x w' \<and> counts ?ss m x" if "compare_status run_id p c m v = (x, w')" for m v
        using that nothing_appends count_mismatch_appends
        by (auto simp: compare_status_def Let_def split: if_splits)
    qed
  qed
qed

lemma report_Cons: "report run_id idx (p # ps) = report run_id idx [p] @ report run_id idx ps"
  by (simp add: report_def)

lemma reconcile_payments_appends:
  "reconcile_payments run_id idx ps n w = (x, w') \<Longrightarrow>
     appends (report run_id idx ps) w x w' \<and> counts (report run_id idx ps) n x"
proof (induction ps arbitrary: n w)
  case Nil
  then show ?case using nothing_appends by (simp add: report_def)
next
  case (Cons p ps)
  then show ?case
    unfolding report_Cons [of _ _ p ps] reconcile_payments.simps
    by (elim sequence_appends) (use reconcile_payment_appends in blast)+
qed

text \<open>The charges a run compares with, in terms of what the peer answered.\<close>

definition listed_charges :: "string \<Rightarrow> recon_run \<Rightarrow> world \<Rightarrow> json list \<Rightarrow> http_request list \<Rightarrow> bool" where
  "listed_charges key r w charges log \<longleftrightarrow>
     (if key = [] then charges = [] \<and> log = http_log w
      else log \<noteq> [] \<and> butlast log = http_log w \<and>
        hr_url (last log) = charges_query (timestamp (rr_period_start r)) (timestamp (rr_period_end r)) \<and>
        (case http_src w (length (http_log w)) (last log) of
           Response status (Some body) \<Rightarrow> charges = unwrap_or (as_array (jget body ''data'')) []
         | _ \<Rightarrow> False))"

lemma fetch_InrD:
  assumes "fetch_stripe_charges key a b w = (Inr charges, w')"
    and "http_src w = http_src u" "http_log w = http_log u" "a = timestamp (rr_period_start r)" "b = timestamp (rr_period_end r)"
  shows "wdb w' = wdb w \<and> listed_charges key r u charges (http_log w')"
  using assms
  by (auto simp: fetch_stripe_charges_def listed_charges_def http_send_def read_lib_def ok_or_def
      elim!: and_then_InrE split: if_splits http_outcome.splits option.splits)

lemma report_length: "length (report run_id idx ps) \<le> 2 * length ps"
proof (induction ps)
  case (Cons p ps)
  have "length (disagreements idx p) \<le> 2"
    by (auto simp: disagreements_def Let_def split: option.split)
  then have "length (report run_id idx [p]) \<le> 2" by (simp add: report_def)
  then show ?case using Cons.IH by (simp add: report_Cons [of _ _ p ps])
qed (simp add: report_def)

lemma reconcile_stripe_InrD:
  assumes "reconcile_stripe key run a b w = (Inr (checked, found), w')"
    and "http_src w = http_src u" "http_log w = http_log u" "a = rr_period_start r" "b = rr_period_end r"
    and "int (length (payments (wdb w))) < 1000000000"
  shows "\<exists>charges. let ps = filter (stripe_captured a b) (payments (wdb w)); rep = report run (stripe_index charges) ps in
    listed_charges key r u charges (http_log w') \<and> checked = int (length ps) \<and> found = int (length rep) \<and>
    wdb w' = (wdb w)\<lparr>recon_mismatches := recon_mismatches (wdb w) @ rep\<rparr>"
proof -
  let ?ps = "filter (stripe_captured a b) (payments (wdb w))"
  obtain qs v charges v1 where sel: "sql (select_stmt (\<lambda>d. filter (stripe_captured a b) (payments d))) w = (Inr qs, v)"
    and f: "fetch_stripe_charges key (timestamp a) (timestamp b) v = (Inr charges, v1)"
    and r: "reconcile_payments run (stripe_index charges) qs 0 v1 = (Inr found, w')" and c: "checked = wrap32 (int (length qs))"
    using assms(1) by (auto simp: reconcile_stripe_def elim!: and_then_InrE)
  have qs: "qs = ?ps" and v: "wdb v = wdb w" using sql_select_InrD [OF sel] by simp_all
  have hv: "http_src v = http_src u" "http_log v = http_log u"
    using assms(2,3) sql_result [OF sel] sql_http_src [OF sel] by simp_all
  have f': "wdb v1 = wdb v \<and> listed_charges key r u charges (http_log v1)"
    by (rule fetch_InrD [OF f hv]) (simp_all add: assms(4,5))
  have small: "int (length ?ps) < 1000000000" using assms(6) length_filter_le [of "stripe_captured a b" "payments (wdb w)"] by linarith
  from report_length [of run "stripe_index charges" ?ps] small have "0 + int (length (report run (stripe_index charges) ?ps)) < 2147483648"
    by linarith
  moreover note reconcile_payments_appends [OF r [unfolded qs]]
  ultimately have "found = int (length (report run (stripe_index charges) ?ps))"
    "wdb w' = (wdb w)\<lparr>recon_mismatches := recon_mismatches (wdb w) @ report run (stripe_index charges) ?ps\<rparr>"
    "http_log w' = http_log v1"
    using v f' by (auto simp: counts_def elim!: appendsE)
  then show ?thesis using f' c small qs by (auto simp: Let_def wrap32_small)
qed

lemma run_daily_report:
  assumes "run_daily key w = (Inr run, w')" and "int (length (payments (wdb w))) < 1000000000"
  shows "\<exists>r charges. r \<in> set (recon_runs (wdb w')) \<and> rr_id r = run \<and> rr_status r = ''completed'' \<and>
    rr_period_end r = clock_src w (clock_next w) \<and> rr_period_start r = rr_period_end r - time_secs 86400 \<and>
    listed_charges key r w charges (http_log w') \<and>
    (let ps = filter (stripe_captured (rr_period_start r) (rr_period_end r)) (payments (wdb w));
         rep = report run (stripe_index charges) ps in
     rr_payments_checked r = int (length ps) \<and> rr_mismatches_found r = int (length rep) \<and>
     recon_mismatches (wdb w') = recon_mismatches (wdb w) @ rep)"
proof -
  let ?t = "clock_src w (clock_next w)" and ?id = "uuid_src w (uuid_next w)"
  let ?w = "w\<lparr>clock_next := Suc (clock_next w), uuid_next := Suc (uuid_next w)\<rparr>"
  let ?r = "new_run ?id (?t - time_secs 86400) ?t"
  obtain v1 where i: "sql (insert_run ?r) ?w = (Inr (), v1)"
    and rest: "match_result (reconcile_stripe key ?id (?t - time_secs 86400) ?t)
       (\<lambda>e. and_then (sql (fail_run ?id (anyhow_text e))) (\<lambda>_. err e))
       (\<lambda>(checked, mismatches). and_then (sql (complete_run ?id checked mismatches)) (\<lambda>_. ok ?id)) v1 = (Inr run, w')"
    using assms(1) by (auto simp: run_daily_def utc_now_def new_v4_def Let_def elim!: and_then_InrE)
  have v1: "wdb v1 = (wdb w)\<lparr>recon_runs := recon_runs (wdb w) @ [?r]\<rparr>" "http_log v1 = http_log w" "http_src v1 = http_src w"
    using sql_result [OF i] sql_http_src [OF i] by (auto simp: insert_run_def insert_stmt_def split: if_splits)
  obtain c f v2 where s: "reconcile_stripe key ?id (?t - time_secs 86400) ?t v1 = (Inr (c, f), v2)"
    and fin: "sql (complete_run ?id c f) v2 = (Inr (), w')" and id: "run = ?id"
    using rest by (auto simp: match_result_def split: prod.splits sum.splits elim!: and_then_InrE)
  have win: "rr_period_start ?r = ?t - time_secs 86400" "rr_period_end ?r = ?t" "rr_id ?r = ?id" by (simp_all add: new_run_def)
  from reconcile_stripe_InrD [OF s v1(3,2) win(1,2) [symmetric]] assms(2) obtain charges where ch:
    "listed_charges key ?r w charges (http_log v2)"
    "c = int (length (filter (stripe_captured (?t - time_secs 86400) ?t) (payments (wdb w))))"
    "f = int (length (report ?id (stripe_index charges) (filter (stripe_captured (?t - time_secs 86400) ?t) (payments (wdb w)))))"
    "wdb v2 = (wdb v1)\<lparr>recon_mismatches := recon_mismatches (wdb w) @
       report ?id (stripe_index charges) (filter (stripe_captured (?t - time_secs 86400) ?t) (payments (wdb w)))\<rparr>"
    by (auto simp: v1(1) Let_def)
  from sql_result [OF fin] obtain t where w': "wdb w' = (wdb v2)\<lparr>recon_runs := upd_where (\<lambda>r. rr_id r = ?id)
     (\<lambda>r. r\<lparr>rr_status := ''completed'', rr_payments_checked := c, rr_mismatches_found := f, rr_completed_at := Some t\<rparr>)
     (recon_runs (wdb v2))\<rparr>" and log: "http_log w' = http_log v2"
    by (auto simp: complete_run_def update_stmt_def dest!: sym [of _ "wdb w'"])
  let ?r' = "?r\<lparr>rr_status := ''completed'', rr_payments_checked := c, rr_mismatches_found := f, rr_completed_at := Some t\<rparr>"
  have "?r' \<in> set (recon_runs (wdb w'))" by (auto simp: w' ch(4) v1(1) in_upd_where win(3))
  moreover have "listed_charges key ?r' w charges (http_log w')" using ch(1) log by (auto simp: listed_charges_def split: if_splits)
  ultimately show ?thesis using ch(2-4) w' v1(1) id win
    by (intro exI [of _ ?r'] exI [of _ charges]) (simp add: Let_def)
qed

text \<open>
  C37. A reconciliation run that completes reports what a comparison of the two lists finds, no more
  and no less: its row counts the Stripe payments captured in the day before it and the disagreements
  among them, and the rows it adds are, payment by payment, a missing charge, a differing amount
  or a differing status.
\<close>

theorem reconciliation_report:
  assumes "run_daily key w = (Inr run, w')" and "int (length (payments (wdb w))) < 1000000000"
  shows "\<exists>r charges. r \<in> set (recon_runs (wdb w')) \<and> rr_id r = run \<and> rr_status r = ''completed'' \<and>
    rr_period_end r = clock_src w (clock_next w) \<and> rr_period_start r = rr_period_end r - time_secs 86400 \<and>
    listed_charges key r w charges (http_log w') \<and>
    (let ps = filter (stripe_captured (rr_period_start r) (rr_period_end r)) (payments (wdb w));
         rep = report run (stripe_index charges) ps in
     rr_payments_checked r = int (length ps) \<and> rr_mismatches_found r = int (length rep) \<and>
     recon_mismatches (wdb w') = recon_mismatches (wdb w) @ rep)"
  by (rule run_daily_report [OF assms])


section \<open>Concrete runs\<close>

definition recon_row :: payment_row where
  "recon_row = sample_payment_row\<lparr>pay_status := Captured, pay_captured_at := Some 0\<rparr>"

definition recon_world :: "http_outcome \<Rightarrow> world" where
  "recon_world answer = (sample_world ((sample_database documented_schema)\<lparr>payments := [recon_row]\<rparr>))
     \<lparr>wlib := sample_lib, http_src := \<lambda>n q. answer\<rparr>"

definition charge_list :: http_outcome where
  "charge_list = Response 200 (Some (JObj [(''data'', JArr [JObj [(''id'', JStr ''ref''), (''amount'', JNum 900),
     (''status'', JStr ''pending'')]])]))"

lemma recon_runs_succeed:
  "\<exists>w'. run_daily ''sk'' (recon_world charge_list) = (Inr 100, w')"
  "\<exists>w'. run_daily ''sk'' (recon_world (Response 401 (Some (JObj [(''error'', JStr ''invalid key'')])))) = (Inr 100, w')"
  by (simp_all add: run_daily_def insert_run_def run_insertable_def new_run_def reconcile_stripe_def fetch_stripe_charges_def
      stripe_captured_def recon_row_def recon_world_def charge_list_def stripe_index_def reconcile_payment_def
      compare_amount_def compare_status_def expected_stripe_def count_mismatch_def record_mismatch_def complete_run_def
      time_secs_def sample_lib_def run_defs cong: lazy_congs)

lemma recon_row_captured: "stripe_captured (0 - time_secs 86400) 0 recon_row"
  by (simp add: stripe_captured_def recon_row_def sample_payment_row_def time_secs_def)

theorem reconciliation_report_witness:
  "\<exists>w'. run_daily ''sk'' (recon_world charge_list) = (Inr 100, w') \<and>
     map (\<lambda>m. (rm_mismatch_type m, rm_our_value m, rm_provider_value m)) (recon_mismatches (wdb w')) =
       [(''amount_mismatch'', ''1000'', ''900''), (''status_mismatch'', ''captured'', ''pending'')]"
proof -
  let ?w = "recon_world charge_list"
  obtain w' where run: "run_daily ''sk'' ?w = (Inr 100, w')" using recon_runs_succeed(1) by blast
  have w: "payments (wdb ?w) = [recon_row]" "recon_mismatches (wdb ?w) = []" "clock_src ?w (clock_next ?w) = 0"
    "http_src ?w = (\<lambda>n q. charge_list)"
    by (simp_all add: recon_world_def sample_world_def sample_database_def empty_database_def time_secs_def)
  have small: "int (length (payments (wdb ?w))) < 1000000000" by (simp add: w)
  obtain r charges where "listed_charges ''sk'' r ?w charges (http_log w')"
    "recon_mismatches (wdb w') = report 100 (stripe_index charges) [recon_row]"
    using reconciliation_report [OF run small] recon_row_captured by (auto simp: w Let_def)
  moreover from this(1) have "charges = [JObj [(''id'', JStr ''ref''), (''amount'', JNum 900), (''status'', JStr ''pending'')]]"
    unfolding listed_charges_def w by (auto simp: charge_list_def)
  moreover have "show_int 1000 = ''1000''" "show_int 900 = ''900''" by code_simp+
  ultimately show ?thesis using run
    by (simp add: report_def disagreements_def stripe_index_def recon_row_def sample_payment_row_def expected_stripe_def i64_range_def Let_def)
qed


end
