(* ===== verification/Ledger_Service.thy ===== *)
theory Ledger_Service
  imports Orchestrator Payment_Handlers Evaluation
begin

text \<open>
  \<open>crates/ledger-service/src/main.rs\<close>: the consumer that writes one ledger entry for a captured
  or refunded payment. Its statements are not in a transaction.
\<close>

section \<open>Processing an event\<close>

definition entry_type_of :: "string \<Rightarrow> entry_type option" where
  "entry_type_of event_type =
     (if event_type = ''payment.captured'' then Some Credit
      else if event_type = ''payment.refunded'' then Some Debit else None)"

text \<open>\<open>event[key].as_str().and_then(|s| s.parse().ok()).ok_or_else(\<dots>)\<close>.\<close>

definition event_uuid :: "json \<Rightarrow> string \<Rightarrow> uuid M" where
  "event_uuid event key = and_then (read_lib (\<lambda>l. case as_str (jget event key) of None \<Rightarrow> None | Some s \<Rightarrow> uuid_parse l s))
     (ok_or (anyhow_error (''Invalid '' @ key)))"

definition available_balance :: "uuid \<Rightarrow> database \<Rightarrow> i64 option" where
  "available_balance m d = map_option mb_available (find (\<lambda>b. mb_merchant_id b = m) (merchant_balances d))"

definition single_entry ::
  "uuid \<Rightarrow> uuid \<Rightarrow> uuid \<Rightarrow> entry_type \<Rightarrow> i64 \<Rightarrow> i64 \<Rightarrow> i64 \<Rightarrow> string \<Rightarrow> string \<Rightarrow> time \<Rightarrow> ledger_entry" where
  "single_entry entry_id payment_id merchant_id ty amount balance_before balance_after description hash now =
     \<lparr>le_id = entry_id, le_payment_id = payment_id, le_merchant_id = merchant_id, le_entry_type = ty,
      le_account_id = None, le_reference_entry_id = None, le_amount = amount, le_currency = INR,
      le_balance_before = balance_before, le_balance_after = balance_after, le_description = description,
      le_notes = None, le_hash = hash, le_created_at = now\<rparr>"

text \<open>The currency is bound as the text \<open>INR\<close>.\<close>

definition insert_single_entry :: "ledger_entry \<Rightarrow> unit stmt" where
  "insert_single_entry e = insert_stmt (\<lambda>t d. if sch_text_enums (db_schema d) then insert_ledger_row e d else None)"

definition upsert_balance :: "uuid \<Rightarrow> i64 \<Rightarrow> unit stmt" where
  "upsert_balance m balance_after = insert_stmt (\<lambda>t d.
     if list_ex (\<lambda>b. mb_merchant_id b = m) (merchant_balances d)
     then Some (d\<lparr>merchant_balances := upd_where (\<lambda>b. mb_merchant_id b = m) (\<lambda>b. b\<lparr>mb_available := balance_after\<rparr>)
       (merchant_balances d)\<rparr>)
     else if has_merchant d m then Some (d\<lparr>merchant_balances := merchant_balances d @
       [\<lparr>mb_merchant_id = m, mb_available = balance_after, mb_pending = 0, mb_reserved = 0\<rparr>]\<rparr>)
     else None)"

definition moved_balance :: "entry_type \<Rightarrow> i64 \<Rightarrow> i64 \<Rightarrow> i64" where
  "moved_balance ty balance amount = (case ty of Credit \<Rightarrow> wrap64 (balance + amount) | Debit \<Rightarrow> wrap64 (balance - amount))"

definition record_entry :: "string \<Rightarrow> entry_type \<Rightarrow> uuid \<Rightarrow> uuid \<Rightarrow> i64 \<Rightarrow> unit M" where
  "record_entry event_type ty payment_id merchant_id amount =
     and_then (sql (select_stmt (available_balance merchant_id))) (\<lambda>found.
     let balance = unwrap_or found 0; balance_after = moved_balance ty balance amount in
     and_then (sql (select_stmt (latest_hash merchant_id))) (\<lambda>h.
     and_then new_v4 (\<lambda>entry_id.
     and_then utc_now (\<lambda>now.
     and_then (read_lib (\<lambda>l. (ledger_entry_hash l (unwrap_or h ''genesis'') (uuid_show l entry_id) amount (timestamp now),
         ''Payment '' @ event_type @ '' '' @ uuid_show l payment_id))) (\<lambda>(hash, description).
     and_then (sql (insert_single_entry (single_entry entry_id payment_id merchant_id ty amount balance balance_after
         description hash now))) (\<lambda>_.
     sql (upsert_balance merchant_id balance_after)))))))"

definition process_event :: "json \<Rightarrow> unit M" where
  "process_event event =
     (let event_type = unwrap_or (as_str (jget event ''event_type'')) [] in
      case entry_type_of event_type of
        None \<Rightarrow> ok ()
      | Some ty \<Rightarrow>
          and_then (event_uuid event ''payment_id'') (\<lambda>payment_id.
          and_then (event_uuid event ''merchant_id'') (\<lambda>merchant_id.
          record_entry event_type ty payment_id merchant_id (unwrap_or (as_i64 (jget event ''amount'')) 0))))"

text \<open>One message of the stream: whatever happens it is committed, an error is only logged.\<close>

definition consume_message :: "string \<Rightarrow> world \<Rightarrow> world" where
  "consume_message payload w =
     (case json_parse (wlib w) payload of None \<Rightarrow> w | Some event \<Rightarrow> snd (process_event event w))"

definition consume_all :: "string list \<Rightarrow> world \<Rightarrow> world" where
  "consume_all payloads w = fold consume_message payloads w"

section \<open>What it does to the ledger\<close>

lemma latest_hash_runs: "sql (select_stmt f) w = (x, v) \<Longrightarrow> wdb v = wdb w"
  using sql_result [of "select_stmt f" w x v] by (cases x) (auto simp: select_stmt_def)

lemma keeps_refused:
  assumes "\<not> sch_text_enums (db_schema (wdb w))"
  shows "wdb (snd (process_event event w)) = wdb w"
proof -
  have ins: "wdb v' = wdb v" if "sql (insert_single_entry e) v = (x, v')" "wdb v = wdb w" for e v v' x
    using sql_result [OF that(1)] that(2) assms by (cases x) (auto simp: insert_single_entry_def insert_stmt_def)
  have refused: "x \<noteq> Inr u" if "sql (insert_single_entry e) v = (x, v')" "wdb v = wdb w" for e v v' x u
    using sql_result [OF that(1)] that(2) assms by (auto simp: insert_single_entry_def insert_stmt_def)
  have "wdb (snd (record_entry t ty p m a v)) = wdb w" if "wdb v = wdb w" for t ty p m a v
    using that
    by (auto simp: record_entry_def and_then_def Let_def new_v4_def utc_now_def read_lib_def
        split: prod.splits sum.splits dest!: latest_hash_runs dest: ins refused)
  then show ?thesis
    by (auto simp: process_event_def event_uuid_def and_then_def read_lib_def ok_or_def ok_def err_def Let_def
        split: option.splits)
qed

text \<open>At most one entry is added, of a positive amount.\<close>

definition one_entry_more :: "database \<Rightarrow> database \<Rightarrow> bool" where
  "one_entry_more d d' \<longleftrightarrow> db_schema d' = db_schema d \<and> (ledger_entries d' = ledger_entries d \<or>
     (\<exists>e. ledger_entries d' = ledger_entries d @ [e] \<and> 0 < le_amount e))"

lemma insert_single_entry_step:
  "insert_single_entry e t d = Inr (u, d') \<Longrightarrow> db_schema d' = db_schema d \<and> ledger_entries d' = ledger_entries d @ [e] \<and> 0 < le_amount e"
  by (auto simp: insert_single_entry_def insert_stmt_def insert_ledger_row_def ledger_insertable_def split: if_splits)

lemma upsert_balance_step:
  "upsert_balance m b t d = Inr (u, d') \<Longrightarrow> db_schema d' = db_schema d \<and> ledger_entries d' = ledger_entries d"
  by (auto simp: upsert_balance_def insert_stmt_def split: if_splits)

lemma upsert_kept:
  "wlib (snd (sql (upsert_balance m b) v)) = wlib v" "db_schema (wdb (snd (sql (upsert_balance m b) v))) = db_schema (wdb v)"
  "ledger_entries (wdb (snd (sql (upsert_balance m b) v))) = ledger_entries (wdb v)"
proof -
  obtain y v' where y: "sql (upsert_balance m b) v = (y, v')" by fastforce
  show "wlib (snd (sql (upsert_balance m b) v)) = wlib v" "db_schema (wdb (snd (sql (upsert_balance m b) v))) = db_schema (wdb v)"
    "ledger_entries (wdb (snd (sql (upsert_balance m b) v))) = ledger_entries (wdb v)"
    unfolding y using sql_result [OF y] by (cases y; auto dest: upsert_balance_step)+
qed

lemma insert_entry_kept:
  assumes "sql (insert_single_entry e) v = (y, v')"
  shows "wlib v' = wlib v \<and> one_entry_more (wdb v) (wdb v')"
  using sql_result [OF assms] by (cases y) (auto simp: one_entry_more_def dest: insert_single_entry_step)

lemma process_event_kept:
  "wlib (snd (process_event event w)) = wlib w \<and> one_entry_more (wdb w) (wdb (snd (process_event event w)))"
proof -
  have read: "wlib v' = wlib v \<and> wdb v' = wdb v" if "sql (select_stmt f) v = (x, v')" for f v v' x
    using sql_result [OF that] by (cases x) (auto simp: select_stmt_def)
  have "wlib (snd (record_entry t ty p m a w)) = wlib w \<and> one_entry_more (wdb w) (wdb (snd (record_entry t ty p m a w)))"
    for t ty p m a
    by (auto simp: record_entry_def and_then_def Let_def new_v4_def utc_now_def read_lib_def one_entry_more_def upsert_kept
        split: prod.splits sum.splits dest!: read insert_entry_kept)
  then show ?thesis
    by (auto simp: process_event_def event_uuid_def and_then_def read_lib_def ok_or_def ok_def err_def Let_def one_entry_more_def
        split: option.splits)
qed

lemma consume_message_kept:
  "wlib (consume_message s w) = wlib w \<and> db_schema (wdb (consume_message s w)) = db_schema (wdb w)"
  using process_event_kept by (auto simp: consume_message_def one_entry_more_def split: option.split)

text \<open>An event of the payment service, which carries no \<open>event_type\<close>.\<close>

definition untyped :: "lib \<Rightarrow> string \<Rightarrow> bool" where
  "untyped l s \<longleftrightarrow> (case json_parse l s of None \<Rightarrow> True | Some e \<Rightarrow> as_str (jget e ''event_type'') = None)"

lemma untyped_payment_event: "json_parse l s = Some (payment_event_json p i t l) \<Longrightarrow> untyped l s"
  by (simp add: untyped_def payment_event_json_def)

lemma untyped_refund_event: "json_parse l s = Some (refund_event_json r i t l) \<Longrightarrow> untyped l s"
  by (simp add: untyped_def refund_event_json_def)

lemma consume_all_idle:
  assumes "\<And>s. \<lbrakk>sch_text_enums (db_schema (wdb w)); s \<in> set payloads\<rbrakk> \<Longrightarrow> untyped (wlib w) s"
  shows "wdb (consume_all payloads w) = wdb w"
  using assms
proof (induction payloads arbitrary: w)
  case (Cons s payloads)
  have "wdb (consume_message s w) = wdb w"
  proof (cases "sch_text_enums (db_schema (wdb w))")
    case True
    then have "untyped (wlib w) s" using Cons.prems [of s] by simp
    then show ?thesis
      by (auto simp: untyped_def consume_message_def process_event_def entry_type_of_def ok_def split: option.splits)
  next
    case False
    then show ?thesis using keeps_refused by (simp add: consume_message_def split: option.split)
  qed
  then show ?case using Cons.IH [of "consume_message s w"] Cons.prems consume_message_kept [of s w]
    by (simp add: consume_all_def)
qed (simp add: consume_all_def)


definition captured_event :: json where
  "captured_event = JObj [(''event_type'', JStr ''payment.captured''), (''payment_id'', JStr ''9''),
     (''merchant_id'', JStr ''7''), (''amount'', JNum 1000)]"

definition event_world :: "schema \<Rightarrow> json \<Rightarrow> world" where
  "event_world sch e = (sample_world (sample_database sch))\<lparr>wlib := sample_lib\<lparr>json_parse := \<lambda>s. Some e\<rparr>\<rparr>"


text \<open>
  C40. Where it can store them, the entries of the ledger service break double entry: one that is
  stored makes the debits and credits of a merchant, and of a payment, differ if they were equal.
\<close>

theorem stored_event_unbalances_the_ledger:
  assumes "process_event event w = (x, w')" and "ledger_entries (wdb w') \<noteq> ledger_entries (wdb w)"
    and "\<And>m. entry_total le_merchant_id Debit m (wdb w) = entry_total le_merchant_id Credit m (wdb w)"
    and "\<And>i. entry_total le_payment_id Debit i (wdb w) = entry_total le_payment_id Credit i (wdb w)"
  shows "(\<exists>m. entry_total le_merchant_id Debit m (wdb w') \<noteq> entry_total le_merchant_id Credit m (wdb w')) \<and>
    (\<exists>i. entry_total le_payment_id Debit i (wdb w') \<noteq> entry_total le_payment_id Credit i (wdb w'))"
proof -
  obtain e where e: "ledger_entries (wdb w') = ledger_entries (wdb w) @ [e]" "0 < le_amount e"
    using process_event_kept [of event w] assms(1,2) by (auto simp: one_entry_more_def)
  have "entry_total k Debit (k e) (wdb w') \<noteq> entry_total k Credit (k e) (wdb w')"
    if "entry_total k Debit (k e) (wdb w) = entry_total k Credit (k e) (wdb w)" for k
    using that e by (cases "le_entry_type e") (simp_all add: entry_total_def)
  then show ?thesis using assms(3,4) by blast
qed

lemma sample_event_stored:
  "\<exists>w'. process_event captured_event (event_world documented_schema captured_event) = (Inr (), w') \<and>
     map le_amount (ledger_entries (wdb w')) = [1000]"
proof -
  have "parse_digits ''9'' = Some 9" "parse_digits ''7'' = Some 7" by code_simp+
  then have ids: "uuid_parse sample_lib ''9'' = Some 9" "uuid_parse sample_lib ''7'' = Some 7"
    "i64_range 1000" "wrap64 1000 = 1000"
    by (simp_all add: sample_lib_def i64_range_def wrap64_small)
  then show ?thesis
    by (simp add: process_event_def captured_event_def entry_type_of_def event_uuid_def record_entry_def available_balance_def
        latest_hash_def newest_first_def insert_single_entry_def single_entry_def upsert_balance_def moved_balance_def
        event_world_def run_defs cong: lazy_congs)
qed

theorem stored_event_unbalances_the_ledger_witness:
  "\<exists>w'. process_event captured_event (event_world documented_schema captured_event) = (Inr (), w') \<and>
     (\<exists>m. entry_total le_merchant_id Debit m (wdb w') \<noteq> entry_total le_merchant_id Credit m (wdb w'))"
proof -
  obtain w' where w': "process_event captured_event (event_world documented_schema captured_event) = (Inr (), w')"
    "map le_amount (ledger_entries (wdb w')) = [1000]" using sample_event_stored by (elim exE conjE)
  have none: "ledger_entries (wdb (event_world documented_schema captured_event)) = []"
    by (simp add: event_world_def sample_world_def sample_database_def empty_database_def)
  have "ledger_entries (wdb w') \<noteq> []" using w'(2) by (cases "ledger_entries (wdb w')") simp_all
  then have "ledger_entries (wdb w') \<noteq> ledger_entries (wdb (event_world documented_schema captured_event))" unfolding none .
  from stored_event_unbalances_the_ledger [OF w'(1) this]
  have "\<exists>m. entry_total le_merchant_id Debit m (wdb w') \<noteq> entry_total le_merchant_id Credit m (wdb w')"
    by (simp only: entry_total_def none list.simps filter.simps sum_list.Nil)
  with w'(1) show ?thesis by (intro exI [of _ w'] conjI)
qed

end
