(* ===== verification/Payment_Events.thy ===== *)
theory Payment_Events
  imports Outbox_Worker Ledger_Service
begin

text \<open>
  \<open>crates/payment-service/src/events.rs\<close>: the direct Kafka publisher of payment events. Nothing
  constructs it (the outbox took its place), but it is the one writer of the \<open>event_type\<close> that the
  ledger and webhook services read. The JSON form of a whole payment is an argument.
\<close>

section \<open>Events\<close>

fun event_type_for_status :: "payment_status \<Rightarrow> string" where
  "event_type_for_status Created = ''payment.created''"
| "event_type_for_status Authorized = ''payment.authorized''"
| "event_type_for_status Captured = ''payment.captured''"
| "event_type_for_status Settled = ''payment.settled''"
| "event_type_for_status Failed = ''payment.failed''"
| "event_type_for_status Refunded = ''payment.refunded''"
| "event_type_for_status Disputed = ''payment.disputed''"
| "event_type_for_status Cancelled = ''payment.cancelled''"
| "event_type_for_status Pending = ''payment.pending''"
| "event_type_for_status RequiresAction = ''payment.pending''"

definition published_event :: "payment \<Rightarrow> uuid \<Rightarrow> time \<Rightarrow> lib \<Rightarrow> json" where
  "published_event p event_id now l = JObj [(''event_id'', uuid_json l event_id),
     (''event_type'', JStr (event_type_for_status (pay_status p))), (''payment_id'', uuid_json l (pay_id p)),
     (''merchant_id'', uuid_json l (pay_merchant_id p)), (''amount'', JNum (pay_amount p)),
     (''currency'', JStr (currency_str (pay_currency p))), (''status'', JStr (payment_status_debug (pay_status p))),
     (''timestamp'', JStr (time_show l now))]"

definition published_webhook :: "(payment \<Rightarrow> json) \<Rightarrow> payment \<Rightarrow> lib \<Rightarrow> json" where
  "published_webhook payment_json p l = JObj [(''event_type'', JStr (event_type_for_status (pay_status p))),
     (''payment_id'', uuid_json l (pay_id p)), (''merchant_id'', uuid_json l (pay_merchant_id p)),
     (''payload'', payment_json p)]"

text \<open>The second message is sent only after the first was accepted, and its failure is only logged.\<close>

definition publish_payment_event ::
  "(payment \<Rightarrow> json) \<Rightarrow> string \<Rightarrow> string \<Rightarrow> payment \<Rightarrow> kafka \<Rightarrow> world \<Rightarrow> (app_error + unit) \<times> kafka \<times> world" where
  "publish_payment_event payment_json topic webhook_topic p k w =
     (let l = wlib w; event_id = uuid_src w (uuid_next w); now = clock_src w (clock_next w);
          w' = w\<lparr>uuid_next := Suc (uuid_next w), clock_next := Suc (clock_next w)\<rparr>;
          key = uuid_show l (pay_id p)
      in case kafka_send \<lparr>kr_topic = topic, kr_key = key, kr_payload = json_print l (published_event p event_id now l)\<rparr> k of
           (Some e, k') \<Rightarrow> (Inl (Messaging (''Kafka send failed: '' @ e)), k', w')
         | (None, k') \<Rightarrow>
             (case kafka_send \<lparr>kr_topic = webhook_topic, kr_key = key,
                 kr_payload = json_print l (published_webhook payment_json p l)\<rparr> k' of
                (_, k'') \<Rightarrow> (Inr (), k'', w')))"

text \<open>The events of the publisher and of the outbox differ in the one field the ledger service reads.\<close>

lemma published_events_are_typed:
  "as_str (jget (published_event p i t l) ''event_type'') = Some (event_type_for_status (pay_status p))"
  "as_str (jget (payment_event_json p i t l) ''event_type'') = None"
  by (simp_all add: published_event_def payment_event_json_def)

lemma recorded_statuses:
  "entry_type_of (event_type_for_status s) = (case s of Captured \<Rightarrow> Some Credit | Refunded \<Rightarrow> Some Debit | _ \<Rightarrow> None)"
  by (cases s) (simp_all add: entry_type_of_def)

lemma publish_sends_webhook_last:
  assumes "publish_payment_event payment_json topic webhook_topic p k w = (Inr u, k', w')"
  shows "\<exists>a b e. k_log k' = k_log k @ [(a, True), (b, e)] \<and> kr_topic a = topic \<and> kr_topic b = webhook_topic \<and>
    kr_key a = kr_key b"
  using assms by (auto simp: publish_payment_event_def kafka_send_def Let_def split: prod.splits option.splits)

end
