(* ===== verification/Currency_Converter.thy ===== *)
theory Currency_Converter
  imports Payment_Handlers Evaluation
begin

text \<open>
  \<open>crates/common/src/currency.rs\<close>. A rate is stored as millionths (\<open>DECIMAL(15, 6)\<close>); reading it as
  a double is \<open>rust_decimal\<close>'s and is an argument, \<open>None\<close> where that conversion fails. All
  currencies have two decimals, so the correction by a power of ten is never needed.
\<close>

definition exchange_rate :: "currency \<Rightarrow> currency \<Rightarrow> database \<Rightarrow> int option" where
  "exchange_rate base target d = map_of (exchange_rates d) (base, target)"

text \<open>\<open>10_f64.powi(n)\<close> for the small powers that exist.\<close>

definition powi10 :: "int \<Rightarrow> f64" where
  "powi10 n = (if 0 \<le> n then f64_of_int (10 ^ nat n) else f64_div (FNum 1 0) (f64_of_int (10 ^ nat (- n))))"

definition convert :: "(int \<Rightarrow> f64 option) \<Rightarrow> i64 \<Rightarrow> currency \<Rightarrow> currency \<Rightarrow> i64 M" where
  "convert to_f64 amount base target =
     (if base = target then ok amount
      else match_result (sql (select_stmt (exchange_rate base target)))
        (\<lambda>e. err (Internal (''Failed to fetch exchange rate: '' @ anyhow_text e)))
        (\<lambda>rate_row.
        and_then (ok_or (Internal (''No exchange rate found for '' @ currency_str base @ '' to '' @ currency_str target)) rate_row) (\<lambda>rate.
        let rate_f64 = unwrap_or (to_f64 rate) (FNum 1 0);
            from_dec = uint (decimal_places base); to_dec = uint (decimal_places target);
            converted = f64_mul (f64_of_int amount) rate_f64;
            scaled = (if from_dec \<noteq> to_dec then f64_mul converted (powi10 (to_dec - from_dec)) else converted)
        in ok (f64_to_i64 (f64_round_away scaled)))))"

lemma same_currency_untouched: "convert to_f64 amount c c w = (Inr amount, w)"
  by (simp add: convert_def ok_def)

lemma two_decimals: "decimal_places c = 2"
  by (cases c) simp_all

text \<open>At par an amount below \<open>2 ^ 53\<close> is converted to itself; beyond that it need not be.\<close>

lemma converted_at_par:
  assumes "0 \<le> n" and "n < 2 ^ 53"
  shows "f64_to_i64 (f64_round_away (f64_mul (f64_of_int n) (FNum 1 0))) = n"
  using assms f64_of_int_exact [OF assms]
  by (simp add: f64_of_int_def [symmetric] f64_to_i64_def f64_trunc_def clamp_def)

lemma par_loses_a_unit: "f64_to_i64 (f64_round_away (f64_mul (f64_of_int 9007199254740993) (FNum 1 0))) = 9007199254740992"
  by code_simp

lemma missing_rate_is_an_error:
  assumes "convert to_f64 amount base target w = (Inr n, w')" and "base \<noteq> target"
  shows "\<exists>rate. exchange_rate base target (wdb w) = Some rate \<and>
    n = f64_to_i64 (f64_round_away (f64_mul (f64_of_int amount) (unwrap_or (to_f64 rate) (FNum 1 0))))"
proof -
  obtain row v where row: "sql (select_stmt (exchange_rate base target)) w = (Inr row, v)"
    and rest: "and_then (ok_or (Internal (''No exchange rate found for '' @ currency_str base @ '' to '' @ currency_str target)) row)
      (\<lambda>rate. ok (f64_to_i64 (f64_round_away (f64_mul (f64_of_int amount) (unwrap_or (to_f64 rate) (FNum 1 0)))))) v = (Inr n, w')"
    using assms by (auto simp: convert_def match_result_def two_decimals Let_def split: prod.splits sum.splits)
  have "row = exchange_rate base target (wdb w)" using sql_select_InrD [OF row] by blast
  from rest [unfolded this] show ?thesis
    by (cases "exchange_rate base target (wdb w)") (auto simp: ok_or_def and_then_def ok_def err_def)
qed

end
