(* ===== verification/Spec2Isabelle.thy ===== *)
theory Spec2Isabelle
  imports Payment_Properties Adapters Fraud Outbox_Worker Webhook_Consumer Vault Merchant_Updates Order
    Reconciler Payment_Events Currency_Converter
begin

text \<open>
  RustPay, a payment gateway of cooperating Rust services under \<open>crates/\<close>, modelled as HOL
  functions and step relations.

  The program. A merchant's request enters at the API gateway, which authenticates its key,
  answers repeated requests from Redis and proxies the rest. The payment service creates,
  captures, refunds and cancels payments: a transaction on the shared PostgreSQL database, calls
  to the fraud service and to an acquirer, and a second transaction that records the outcome, the
  postings of the double-entry ledger and an outbox event. The outbox worker moves the events to
  Kafka; the webhook service turns those it receives into signed deliveries and retries them; the
  ledger service reads the same stream. The settlement worker pays captured payments out, the
  reconciliation service compares them with the charges Stripe lists, the vault stores cards
  sealed, the merchant and order services keep their own tables.

  Foundations.
  \<^item> \<open>Prelude\<close>: integers, numerals, strings, tables as lists. An \<open>i64\<close> is an \<open>int\<close>
    with \<open>wrap64\<close> written out, a byte is a \<open>char\<close>.
  \<^item> \<open>Float64\<close>: the double arithmetic of fees, risk scores and retry delays, by exact
    computation and rounding.
  \<^item> \<open>Externals\<close>: JSON, HTTP messages, and the record \<open>lib\<close> of the third-party functions.
  \<^item> \<open>Errors\<close>, \<open>Models\<close>, \<open>Crypto\<close>: \<open>errors.rs\<close>, \<open>models.rs\<close> and
    \<open>crypto.rs\<close> of \<open>crates/common\<close>; \<open>Currency_Converter\<close> its unused \<open>currency.rs\<close>.
  \<^item> \<open>Database\<close>: the tables and constraints of \<open>migrations/\<close>.
  \<^item> \<open>World\<close>, \<open>Transactions\<close>: computations from a world to an error or a result and a world,
    SQL statements, transactions that restore the database when they fail, HTTP calls, and the
    rules to reason about them. \<open>Samples\<close> and \<open>Evaluation\<close> serve concrete runs.

  Payments (\<open>crates/payment-service\<close>, \<open>crates/settlement-worker\<close>).
  \<^item> \<open>State_Machine\<close>: \<open>state_machine.rs\<close> and the graph of payment statuses; the locale
    \<open>status_graph\<close> bounds the runs of a graph whose transitions raise a rank.
  \<^item> \<open>Payment_Db\<close>: the statements of \<open>db.rs\<close>. \<open>Ledger\<close>: \<open>ledger.rs\<close>, with the locale
    \<open>double_entry\<close> of postings that let debits and credits grow alike.
  \<^item> \<open>Orchestrator\<close>: \<open>orchestrator.rs\<close>, each method cut where it awaits a peer;
    \<open>Payment_Handlers\<close>: \<open>handlers.rs\<close>; \<open>Dispute\<close>: \<open>dispute.rs\<close>; \<open>Settlement\<close>: the
    worker's \<open>settler.rs\<close> and its sleep until midnight.
  \<^item> \<open>Payment_Books\<close> states the invariant between payment rows, refunds and ledger;
    \<open>Payment_Steps\<close> shows that every transaction keeps it; \<open>Payment_System\<close> runs any number of
    requests interleaved at their awaits, with crashes; \<open>Payment_Properties\<close> draws the properties.

  Around them.
  \<^item> \<open>Circuit_Breaker\<close>, \<open>Acquirer_Router\<close>, \<open>Adapters\<close>: \<open>crates/acquirer-router\<close>,
    the Stripe and UPI adapters and the mock acquirer. Locales: \<open>acquirer_contract\<close>, what the
    answers of an adapter carry, and \<open>acquirer_pool\<close>, the adapters a router is given.
  \<^item> \<open>Fraud\<close>: \<open>crates/fraud-service\<close>; locales \<open>fraud_rule_contract\<close> and \<open>rule_engine\<close>.
  \<^item> \<open>Lease_Queue\<close>: the locale of a table claimed by lease, interpreted on the outbox in
    \<open>Outbox_Worker\<close> (\<open>crates/outbox-worker\<close>) and on the deliveries in \<open>Webhook\<close>.
  \<^item> \<open>Webhook\<close>, \<open>Webhook_Retry\<close>, \<open>Webhook_Consumer\<close>: dispatch, delivery, back-off and the
    receive loop of \<open>crates/webhook-service\<close>.
  \<^item> \<open>Vault\<close>, \<open>Gateway\<close>, \<open>Order\<close>, \<open>Reconciler\<close>, \<open>Ledger_Service\<close>: the crates of
    these names. \<open>Merchant\<close> is \<open>crates/merchant-service\<close>, and \<open>Merchant_Updates\<close> its optimistic
    lock. \<open>Payment_Events\<close> is the event publisher of the payment service that nothing constructs.

  What is shown. In every reachable state of the payment system, debits equal credits for each
  merchant and payment, each account holds what the payment's row implies, refunds are bounded by
  captures, and an idempotency key names one payment. Transitions the state machine accepts follow the graph of statuses. A committed
  posting is one matching pair. Signatures and sealed data survive the round trip, and verification
  accepts nothing but the right tag. The router answers with the first acquirer able to, its
  breakers refuse only while open. Outbox events are claimed by one worker at a time, published only
  when Kafka took them, and all of them are when nothing fails. Webhook events take effect once,
  their deliveries verify at the merchant, and their delays stay in bounds. The Luhn check catches
  typing errors, the vault gives back what it took. The gateway forwards for the holder of a key
  only, and a completed request once. Key rotation replaces the key; merchant updates refine a
  compare-and-swap register; orders expire when due; the reconciler reports exactly the
  disagreements. Other theorems state what the code does where that is not what its documents or
  its callers expect: the postings against the migrated schema, the fraud verdict, the event type,
  the lease of a failed delivery, the dead letters, the cut of an error body, the ledger service.

  Parameters. Code outside the repository is an argument: digests, ciphers, encodings, printers
  and parsers in \<open>lib\<close>, with their documented behaviour as hypotheses where a theorem needs it
  (decoding inverts encoding, the cipher opens what it sealed); the UUID generator, the clocks and
  the random draws; which SQL statement reaches the server and which commit succeeds; the answers
  of HTTP peers, Kafka, Redis and the rate limiter; the conversion of decimals to doubles.
  Whether a reference is checked at commit, and which columns and casts exist, are fields of
  \<open>schema\<close>: \<open>migrated_schema\<close> is what \<open>migrations/\<close> creates, \<open>documented_schema\<close> what
  \<open>docs/\<close> describes. Against the first no posting commits, so the ledger properties have content
  under the second only; they are proved for both.

  Bounds. Loops over rows and messages are structural recursion, so every operation is total.
  Services that never end are runs of any length: \<open>reachable\<close> and \<open>outbox_reachable\<close> hold any
  finite number of steps, \<open>run_times m\<close> is \<open>m\<close> rounds of the outbox worker, and \<open>m * n\<close> at
  least the number of pending events is enough to drain them in batches of \<open>n\<close>. Theorems on
  single operations take the amounts the code accepts; the report of the reconciler assumes fewer
  than a billion payments, so that its \<open>i32\<close> counters do not wrap.

  Not modelled. Start-up (\<open>main.rs\<close> of the services, except for the loops named above), reading
  of environment variables, the records of shared handles, the tables from paths to handlers of the
  vault and merchant services, health and readiness answers, metrics, tracing and logging: none of
  them decides what happens to a payment. Transactions are atomic, as the row locks of the code
  make those on one payment; interleavings inside a transaction, deadlocks and weaker isolation are
  not represented. Timestamps keep the precision of the clock where PostgreSQL rounds to
  microseconds. The integration and load tests under \<open>tests/\<close> are not part of the services.
\<close>

end
